(* ===== verification/Prelude.thy ===== *)
theory Prelude
  imports Main "HOL-Library.Word"
begin

text \<open>
  Shared ground of the development: the machine types the C++ code uses, exceptions as
  values, the operations of \<open>std::string_view\<close> and \<open><cctype>\<close> that the sources call,
  and the list and word lemmas the component theories rely on.
\<close>

subsection \<open>Machine types and exceptions\<close>

type_synonym byte = "8 word"
type_synonym size_t = "64 word"
type_synonym zend_ulong = "64 word"
type_synonym pid = int
type_synonym msec = int

text \<open>
  The exceptions the code throws or lets through, kept apart by type because the handlers
  of the code distinguish them. \<open>Undefined_Behaviour\<close> marks the executions to which the
  C++ standard gives no meaning (a conversion of an unrepresentable floating value).
\<close>

datatype cpp_exception =
  Invalid_Argument string
| Out_Of_Range string
| Runtime_Error string
| Undefined_Behaviour string

type_synonym 'a result = "cpp_exception + 'a"

named_theorems str_simps \<open>rewriting rules for the string operations\<close>
named_theorems inv_intros \<open>introduction rules: operations preserve invariants\<close>
named_theorems step_defs \<open>definitions of the operations of the state machines\<close>

definition is_ok :: "'a result \<Rightarrow> bool" where
  "is_ok r = (case r of Inl _ \<Rightarrow> False | Inr _ \<Rightarrow> True)"

definition bind_result :: "'a result \<Rightarrow> ('a \<Rightarrow> 'b result) \<Rightarrow> 'b result" where
  "bind_result r f = (case r of Inl e \<Rightarrow> Inl e | Inr x \<Rightarrow> f x)"

lemma bind_result_simps [simp]:
  "bind_result (Inl e) f = Inl e"
  "bind_result (Inr x) f = f x"
  by (simp_all add: bind_result_def)

lemma bind_result_Inr_iff:
  "bind_result r f = Inr y \<longleftrightarrow> (\<exists>x. r = Inr x \<and> f x = Inr y)"
  by (cases r) auto

lemma is_ok_simps [simp]: "is_ok (Inr x)" "\<not> is_ok (Inl e)"
  by (simp_all add: is_ok_def)

subsection \<open>Characters (the "C" locale)\<close>

definition char_code :: "char \<Rightarrow> nat" where
  "char_code c = of_char c"

definition in_range :: "nat \<Rightarrow> nat \<Rightarrow> char \<Rightarrow> bool" where
  "in_range lo hi c = (lo \<le> char_code c \<and> char_code c \<le> hi)"

text \<open>\<open>std::isspace\<close>: space, and the control characters 9 to 13.\<close>

definition isspace :: "char \<Rightarrow> bool" where
  "isspace c = (char_code c = 32 \<or> in_range 9 13 c)"

definition isdigit :: "char \<Rightarrow> bool" where
  "isdigit c = in_range 48 57 c"

definition isxdigit :: "char \<Rightarrow> bool" where
  "isxdigit c = (isdigit c \<or> in_range 65 70 c \<or> in_range 97 102 c)"

definition char_toupper :: "char \<Rightarrow> char" where
  "char_toupper c = (if in_range 97 122 c then char_of (char_code c - 32) else c)"

definition char_tolower :: "char \<Rightarrow> char" where
  "char_tolower c = (if in_range 65 90 c then char_of (char_code c + 32) else c)"

definition digit_value :: "char \<Rightarrow> nat" where
  "digit_value c = char_code c - 48"

definition xdigit_value :: "char \<Rightarrow> nat" where
  "xdigit_value c =
     (if isdigit c then char_code c - 48
      else if in_range 65 70 c then char_code c - 55
      else char_code c - 87)"

lemma char_code_bound [simp]: "char_code c < 256"
  by (simp add: char_code_def)

lemma char_code_char_of [simp]: "n < 256 \<Longrightarrow> char_code (char_of n) = n"
  by (simp add: char_code_def)

lemma char_code_inject: "char_code a = char_code b \<longleftrightarrow> a = b"
  unfolding char_code_def by (metis char_of_char)

lemma char_of_eq_iff: "n < 256 \<Longrightarrow> char_of n = c \<longleftrightarrow> n = char_code c"
  by (metis char_code_char_of char_code_inject)

lemma char_of_char_code [simp]: "char_of (char_code c) = c"
  by (simp add: char_code_def)

lemma char_tolower_idem [simp]: "char_tolower (char_tolower c) = char_tolower c"
  by (simp add: char_tolower_def in_range_def)

lemma char_toupper_idem [simp]: "char_toupper (char_toupper c) = char_toupper c"
proof (cases "in_range 97 122 c")
  case True
  then have "char_code (char_of (char_code c - 32)) = char_code c - 32"
    by (intro char_code_char_of) (auto simp: in_range_def)
  with True show ?thesis by (auto simp: char_toupper_def in_range_def)
next
  case False
  then show ?thesis by (simp add: char_toupper_def)
qed

lemma char_tolower_toupper [simp]: "char_tolower (char_toupper c) = char_tolower c"
proof (cases "in_range 97 122 c")
  case True
  then have *: "97 \<le> char_code c" "char_code c \<le> 122" by (simp_all add: in_range_def)
  then have "char_code (char_of (char_code c - 32)) = char_code c - 32"
    by (intro char_code_char_of) simp
  with * have "char_tolower (char_of (char_code c - 32)) = char_of (char_code c)"
    by (auto simp: char_tolower_def in_range_def)
  with True * show ?thesis by (simp add: char_toupper_def char_tolower_def in_range_def)
next
  case False
  then show ?thesis by (simp add: char_toupper_def)
qed

lemma char_toupper_tolower [simp]: "char_toupper (char_tolower c) = char_toupper c"
proof (cases "in_range 65 90 c")
  case True
  then have "char_code (char_of (char_code c + 32)) = char_code c + 32"
    by (intro char_code_char_of) (auto simp: in_range_def)
  with True show ?thesis by (simp add: char_toupper_def char_tolower_def in_range_def)
next
  case False
  then show ?thesis by (simp add: char_tolower_def)
qed

lemma char_tolower_eq_iff_toupper:
  "char_tolower a = char_tolower b \<longleftrightarrow> char_toupper a = char_toupper b"
  by (metis char_toupper_tolower char_tolower_toupper)

subsection \<open>String views\<close>

text \<open>Positions are \<open>nat option\<close>, with \<open>None\<close> for \<open>npos\<close>.\<close>

fun find_if_pos :: "(char \<Rightarrow> bool) \<Rightarrow> string \<Rightarrow> nat option" where
  "find_if_pos p [] = None"
| "find_if_pos p (c # cs) = (if p c then Some 0 else map_option Suc (find_if_pos p cs))"

definition find_char :: "char \<Rightarrow> string \<Rightarrow> nat option" where
  "find_char a s = find_if_pos (\<lambda>c. c = a) s"

definition find_first_not_of :: "char list \<Rightarrow> string \<Rightarrow> nat option" where
  "find_first_not_of cs s = find_if_pos (\<lambda>c. c \<notin> set cs) s"

definition find_last_not_of :: "char list \<Rightarrow> string \<Rightarrow> nat option" where
  "find_last_not_of cs s =
     map_option (\<lambda>i. length s - 1 - i) (find_if_pos (\<lambda>c. c \<notin> set cs) (rev s))"

definition find_last_of :: "char \<Rightarrow> string \<Rightarrow> nat option" where
  "find_last_of a s = map_option (\<lambda>i. length s - 1 - i) (find_if_pos (\<lambda>c. c = a) (rev s))"

definition starts_with :: "'a list \<Rightarrow> 'a list \<Rightarrow> bool" where
  "starts_with s p = (take (length p) s = p)"

definition ends_with :: "'a list \<Rightarrow> 'a list \<Rightarrow> bool" where
  "ends_with s p = (length p \<le> length s \<and> drop (length s - length p) s = p)"

fun find_sub :: "string \<Rightarrow> string \<Rightarrow> nat option" where
  "find_sub p [] = (if p = [] then Some 0 else None)"
| "find_sub p (c # cs) =
     (if starts_with (c # cs) p then Some 0 else map_option Suc (find_sub p cs))"

text \<open>\<open>substr(pos)\<close> throws \<open>std::out_of_range\<close> when \<open>pos\<close> is past the end.\<close>

definition substr_from :: "string \<Rightarrow> nat \<Rightarrow> string result" where
  "substr_from s pos =
     (if pos \<le> length s then Inr (drop pos s) else Inl (Out_Of_Range ''substr''))"

text \<open>\<open>std::views::split\<close> on one character: \<open>n\<close> separators give \<open>n + 1\<close> pieces.\<close>

fun split_on :: "char \<Rightarrow> string \<Rightarrow> string list" where
  "split_on sep [] = [[]]"
| "split_on sep (c # cs) =
     (if c = sep then [] # split_on sep cs
      else (case split_on sep cs of [] \<Rightarrow> [[c]] | p # ps \<Rightarrow> (c # p) # ps))"

text \<open>What a callee sees that is handed \<open>data()\<close> of a string: everything before a NUL.\<close>

definition c_str :: "string \<Rightarrow> string" where
  "c_str s = takeWhile (\<lambda>c. char_code c \<noteq> 0) s"

fun dec_value :: "nat \<Rightarrow> string \<Rightarrow> nat" where
  "dec_value acc [] = acc"
| "dec_value acc (c # cs) = dec_value (acc * 10 + digit_value c) cs"

fun nat_to_string :: "nat \<Rightarrow> string" where
  "nat_to_string n =
     (if n < 10 then [char_of (48 + n)] else nat_to_string (n div 10) @ [char_of (48 + n mod 10)])"

declare nat_to_string.simps [simp del]

definition int_to_string :: "int \<Rightarrow> string" where
  "int_to_string i = (if i < 0 then CHR ''-'' # nat_to_string (nat (- i)) else nat_to_string (nat i))"

subsection \<open>Lemmas on positions and pieces\<close>

lemma find_if_pos_None [str_simps]: "find_if_pos p s = None \<longleftrightarrow> (\<forall>c \<in> set s. \<not> p c)"
  by (induction s) auto

lemma find_if_pos_takeWhile:
  "find_if_pos p s = (if \<exists>c \<in> set s. p c then Some (length (takeWhile (\<lambda>c. \<not> p c) s)) else None)"
  by (induction s) auto

lemma find_if_pos_SomeD:
  assumes "find_if_pos p s = Some i"
  shows "i < length s" "p (s ! i)" "\<forall>c \<in> set (take i s). \<not> p c"
  using assms by (induction s arbitrary: i) (auto split: if_splits simp: nth_Cons')

lemma find_if_pos_append:
  "\<forall>c \<in> set a. \<not> p c \<Longrightarrow> find_if_pos p (a @ b) = map_option ((+) (length a)) (find_if_pos p b)"
  by (induction a) (cases "find_if_pos p b"; auto)+

lemma find_char_append:
  assumes "x \<notin> set a"
  shows "find_char x (a @ x # b) = Some (length a)"
  using assms find_if_pos_append [of a "\<lambda>c. c = x" "x # b"] by (auto simp: find_char_def)

lemma find_char_None [simp]: "find_char x s = None \<longleftrightarrow> x \<notin> set s"
  by (auto simp: find_char_def find_if_pos_None)

lemma find_char_SomeD:
  assumes "find_char x s = Some i"
  shows "s = take i s @ x # drop (Suc i) s" "x \<notin> set (take i s)" "i < length s"
proof -
  from assms have i: "i < length s" "s ! i = x" "\<forall>c \<in> set (take i s). c \<noteq> x"
    using find_if_pos_SomeD [of "\<lambda>c. c = x" s i] by (auto simp: find_char_def)
  then show "s = take i s @ x # drop (Suc i) s" by (metis id_take_nth_drop)
  show "x \<notin> set (take i s)" using i by auto
  show "i < length s" by (fact i)
qed

lemma split_on_nonempty [simp]: "split_on sep s \<noteq> []"
  by (induction s) (auto split: list.splits)

lemma split_on_no_sep: "p \<in> set (split_on sep s) \<Longrightarrow> sep \<notin> set p"
  by (induction s arbitrary: p) (auto split: if_splits list.splits)

lemma length_split_on: "length (split_on sep s) = Suc (count_list s sep)"
  by (induction s) (auto split: list.splits)

lemma split_on_single: "sep \<notin> set s \<Longrightarrow> split_on sep s = [s]"
  by (induction s) auto

lemma split_on_append:
  "sep \<notin> set a \<Longrightarrow> split_on sep (a @ sep # b) = a # split_on sep b"
  by (induction a) auto

lemma starts_with_append [simp]: "starts_with (p @ s) p"
  by (simp add: starts_with_def)

lemma starts_with_iff: "starts_with s p \<longleftrightarrow> (\<exists>t. s = p @ t)"
  unfolding starts_with_def by (metis append_eq_conv_conj append_take_drop_id)

lemma ends_with_iff: "ends_with s p \<longleftrightarrow> (\<exists>t. s = t @ p)"
proof
  assume "ends_with s p"
  then have "s = take (length s - length p) s @ p"
    unfolding ends_with_def by (metis append_take_drop_id)
  then show "\<exists>t. s = t @ p" by blast
next
  assume "\<exists>t. s = t @ p"
  then show "ends_with s p" by (auto simp: ends_with_def)
qed

lemma dec_value_append: "dec_value acc (a @ b) = dec_value (dec_value acc a) b"
  by (induction a arbitrary: acc) auto

lemma dec_value_nat_to_string [simp]: "dec_value 0 (nat_to_string n) = n"
proof (induction n rule: nat_to_string.induct)
  case (1 n)
  show ?case
  proof (cases "n < 10")
    case True
    then show ?thesis by (subst nat_to_string.simps) (simp add: digit_value_def)
  next
    case False
    have "n mod 10 < 10" by simp
    then have "char_code (char_of (48 + n mod 10)) = 48 + n mod 10"
      by (intro char_code_char_of) simp
    with False 1 show ?thesis
      by (subst nat_to_string.simps) (simp add: dec_value_append digit_value_def)
  qed
qed

lemma nat_to_string_digits: "\<forall>c \<in> set (nat_to_string n). isdigit c"
proof (induction n rule: nat_to_string.induct)
  case (1 n)
  have "n mod 10 < 10" by simp
  then have "isdigit (char_of (48 + n mod 10))"
    by (simp add: isdigit_def in_range_def)
  with 1 show ?case
    by (subst nat_to_string.simps) (auto simp: isdigit_def in_range_def)
qed

lemma nat_to_string_nonempty [simp]: "nat_to_string n \<noteq> []"
  by (subst nat_to_string.simps) simp

lemma takeWhile_all_append:
  "\<forall>x \<in> set a. p x \<Longrightarrow> b = [] \<or> \<not> p (hd b) \<Longrightarrow> takeWhile p (a @ b) = a"
  by (cases b) (auto simp: takeWhile_append2)

lemma dropWhile_all_append:
  "\<forall>x \<in> set a. p x \<Longrightarrow> b = [] \<or> \<not> p (hd b) \<Longrightarrow> dropWhile p (a @ b) = b"
  by (cases b) (auto simp: dropWhile_append2)

subsection \<open>Sums of sizes\<close>

definition sum_len :: "'a list list \<Rightarrow> nat" where
  "sum_len xss = sum_list (map length xss)"

lemma sum_len_simps [simp]:
  "sum_len [] = 0"
  "sum_len (x # xs) = length x + sum_len xs"
  "sum_len (xs @ ys) = sum_len xs + sum_len ys"
  by (simp_all add: sum_len_def)

end
