(* ===== verification/Utf8.thy ===== *)
theory Utf8
  imports Prelude
begin

unbundle bit_operations_syntax

text \<open>
  \<open>utils::isUtf8\<close> of \<open>CommonUtils.cpp\<close>, the table-driven check that decides whether a
  PHP string is exported as OTLP text or as OTLP bytes, and its equivalence with the
  definition of UTF-8: a text is valid exactly when it is a concatenation of encodings of
  Unicode scalar values.
\<close>

subsection \<open>The check\<close>

definition utf8_table :: "nat list" where
  "utf8_table = replicate 32 1 @ replicate 16 2 @ replicate 8 3"

text \<open>
  \<open>p\<close> and \<open>length\<close> of the loop are one list: \<open>rest\<close> is what \<open>p\<close> points at after
  the first byte. \<open>ab\<close> is the number of continuation bytes.
\<close>

function isUtf8 :: "byte list \<Rightarrow> bool" where
  "isUtf8 [] = True"
| "isUtf8 (c # rest) =
     (if c < 0x80 then isUtf8 rest
      else if c < 0xC0 \<or> 0xF5 \<le> c then False
      else
        let ab = utf8_table ! unat (c AND 0x3F) in
        if length rest < ab then False
        else
          let d = rest ! 0 in
          if d AND 0xC0 \<noteq> 0x80 then False
          else if ab = 1 then
            (if c AND 0x3E = 0 then False else isUtf8 (drop 1 rest))
          else if ab = 2 then
            (if rest ! 1 AND 0xC0 \<noteq> 0x80 \<or> (c = 0xE0 \<and> d AND 0x20 = 0) \<or> (c = 0xED \<and> 0xA0 \<le> d)
             then False else isUtf8 (drop 2 rest))
          else if ab = 3 then
            (if rest ! 1 AND 0xC0 \<noteq> 0x80 \<or> rest ! 2 AND 0xC0 \<noteq> 0x80
                \<or> (c = 0xF0 \<and> d AND 0x30 = 0) \<or> (c > 0xF4 \<or> (c = 0xF4 \<and> d > 0x8F))
             then False else isUtf8 (drop 3 rest))
          else isUtf8 (drop ab rest))"
  by pat_completeness auto
termination
  by (relation "measure length") auto

declare isUtf8.simps(2) [simp del]

subsection \<open>The encoding\<close>

definition byte_of :: "nat \<Rightarrow> byte" where
  "byte_of n = word_of_nat n"

definition scalar_value :: "nat \<Rightarrow> bool" where
  "scalar_value cp = (cp < 0x110000 \<and> \<not> (0xD800 \<le> cp \<and> cp \<le> 0xDFFF))"

definition utf8_encode :: "nat \<Rightarrow> byte list" where
  "utf8_encode cp =
     (if cp < 0x80 then [byte_of cp]
      else if cp < 0x800 then [byte_of (0xC0 + cp div 64), byte_of (0x80 + cp mod 64)]
      else if cp < 0x10000 then
        [byte_of (0xE0 + cp div 4096), byte_of (0x80 + cp div 64 mod 64),
         byte_of (0x80 + cp mod 64)]
      else
        [byte_of (0xF0 + cp div 262144), byte_of (0x80 + cp div 4096 mod 64),
         byte_of (0x80 + cp div 64 mod 64), byte_of (0x80 + cp mod 64)])"

subsection \<open>The bit tests as ranges\<close>

text \<open>A fact about one byte, checked on all 256 of them.\<close>

lemma byte_all:
  assumes "list_all (\<lambda>n. P (word_of_nat n)) [0..<256]"
  shows "P (d :: byte)"
proof -
  have "unat d < 2 ^ LENGTH(8)" by (rule unsigned_less)
  then have "unat d < 256" by simp
  then have "unat d \<in> set [0..<256]" by simp
  with assms have "P (word_of_nat (unat d))" unfolding list_all_iff by blast
  then show ?thesis by simp
qed

definition cont :: "byte \<Rightarrow> bool" where
  "cont d = (128 \<le> unat d \<and> unat d < 192)"

lemma cont_iff: "d AND 0xC0 = 0x80 \<longleftrightarrow> cont d"
  by (rule byte_all [of _ d]) code_simp

lemma table_ab:
  "192 \<le> unat (c :: byte) \<longrightarrow> unat c < 245 \<longrightarrow>
     utf8_table ! unat (c AND 0x3F) = (if unat c < 224 then 1 else if unat c < 240 then 2 else 3)"
  by (rule byte_all [of _ c]) code_simp

lemma two_byte_overlong:
  "192 \<le> unat c \<longrightarrow> unat c < 224 \<longrightarrow> (c AND 0x3E = (0 :: byte) \<longleftrightarrow> unat c < 194)"
  by (rule byte_all [of _ c]) code_simp

lemma cont_bit5: "cont d \<longrightarrow> (d AND 0x20 = 0 \<longleftrightarrow> unat d < 160)"
  by (rule byte_all [of _ d]) code_simp

lemma cont_bits45: "cont d \<longrightarrow> (d AND 0x30 = 0 \<longleftrightarrow> unat d < 144)"
  by (rule byte_all [of _ d]) code_simp

lemma byte_less_iff: "(c :: byte) < d \<longleftrightarrow> unat c < unat d" "(c :: byte) \<le> d \<longleftrightarrow> unat c \<le> unat d"
  by (simp_all add: word_less_nat_alt word_le_nat_alt)

lemma byte_eq_iff: "(c :: byte) = d \<longleftrightarrow> unat c = unat d"
  by (simp add: word_unat_eq_iff)

subsection \<open>One step of the loop\<close>

lemma isUtf8_ascii: "unat c < 128 \<Longrightarrow> isUtf8 (c # rest) = isUtf8 rest"
  by (simp add: isUtf8.simps(2) byte_less_iff)

lemma isUtf8_two:
  assumes "192 \<le> unat c" "unat c < 224"
  shows "isUtf8 (c # rest) \<longleftrightarrow>
     194 \<le> unat c \<and> (\<exists>d r. rest = d # r \<and> cont d \<and> isUtf8 r)"
  using assms table_ab [of c] two_byte_overlong [of c]
  by (cases rest) (auto simp: isUtf8.simps(2) [of c] byte_less_iff cont_iff Let_def)

lemma isUtf8_three:
  assumes "224 \<le> unat c" "unat c < 240"
  shows "isUtf8 (c # rest) \<longleftrightarrow>
     (\<exists>d e r. rest = d # e # r \<and> cont d \<and> cont e \<and> isUtf8 r
        \<and> (unat c = 224 \<longrightarrow> 160 \<le> unat d) \<and> (unat c = 237 \<longrightarrow> unat d < 160))"
proof -
  have ab: "utf8_table ! unat (c AND 0x3F) = 2" using assms table_ab [of c] by simp
  show ?thesis
  proof (cases "length rest < 2")
    case True
    then have "\<not> isUtf8 (c # rest)"
      using assms ab by (simp add: isUtf8.simps(2) [of c] byte_less_iff Let_def)
    with True show ?thesis by auto
  next
    case False
    then obtain d e r where "rest = d # e # r"
      by (metis One_nat_def Suc_1 length_Cons less_Suc_eq_0_disj list.exhaust list.size(3) not_less_eq zero_less_Suc)
    with assms ab cont_bit5 [of d] show ?thesis
      by (auto simp: isUtf8.simps(2) [of c] byte_less_iff byte_eq_iff [of c] cont_iff Let_def)
  qed
qed

lemma isUtf8_four:
  assumes "240 \<le> unat c" "unat c < 245"
  shows "isUtf8 (c # rest) \<longleftrightarrow>
     (\<exists>d e f r. rest = d # e # f # r \<and> cont d \<and> cont e \<and> cont f \<and> isUtf8 r
        \<and> (unat c = 240 \<longrightarrow> 144 \<le> unat d) \<and> (unat c = 244 \<longrightarrow> unat d < 144))"
proof -
  have ab: "utf8_table ! unat (c AND 0x3F) = 3" using assms table_ab [of c] by simp
  show ?thesis
  proof (cases "length rest < 3")
    case True
    then have "\<not> isUtf8 (c # rest)"
      using assms ab by (simp add: isUtf8.simps(2) [of c] byte_less_iff Let_def)
    with True show ?thesis by auto
  next
    case False
    then obtain d e f r where "rest = d # e # f # r"
      by (cases rest; cases "tl rest"; cases "tl (tl rest)") auto
    with assms ab cont_bits45 [of d] show ?thesis
      by (auto simp: isUtf8.simps(2) [of c] byte_less_iff byte_eq_iff [of c] cont_iff Let_def)
  qed
qed

lemma isUtf8_invalid_lead:
  assumes "128 \<le> unat c \<and> unat c < 192 \<or> 245 \<le> unat c"
  shows "\<not> isUtf8 (c # rest)"
  using assms by (auto simp: isUtf8.simps(2) [of c] byte_less_iff)

subsection \<open>Valid text is encoded text\<close>

lemma unat_byte_of [simp]: "n < 256 \<Longrightarrow> unat (byte_of n) = n"
  by (simp add: byte_of_def unat_of_nat take_bit_nat_eq_self)

lemma byte_of_eqI: "n = unat b \<Longrightarrow> byte_of n = b"
  by (simp add: byte_of_def)

lemma cont_tail [simp]: "n < 64 \<Longrightarrow> cont (byte_of (128 + n))"
  by (simp add: cont_def)

lemma mod_window:
  fixes q :: nat
  assumes "m * 64 \<le> q" "q < m * 64 + k" "k \<le> 64"
  shows "q mod 64 < k"
proof -
  from assms(1) obtain r where r: "q = m * 64 + r" using le_Suc_ex by blast
  with assms have "r < k" by simp
  with assms(3) show ?thesis by (simp add: r)
qed

lemma isUtf8_encode_append:
  assumes "scalar_value cp"
  shows "isUtf8 (utf8_encode cp @ r) = isUtf8 r"
proof -
  consider "cp < 0x80" | "0x80 \<le> cp" "cp < 0x800" | "0x800 \<le> cp" "cp < 0x10000"
    | "0x10000 \<le> cp" "cp < 0x110000"
    using assms unfolding scalar_value_def by linarith
  then show ?thesis
  proof cases
    case 1
    then show ?thesis by (simp add: utf8_encode_def isUtf8_ascii)
  next
    case 2
    then have "2 \<le> cp div 64" "cp div 64 < 32" by auto
    with 2 show ?thesis by (simp add: utf8_encode_def isUtf8_two)
  next
    case 3
    then have q: "cp div 4096 < 16" by auto
    have low: "cp div 4096 = 0 \<Longrightarrow> 32 \<le> cp div 64 mod 64" using 3 by auto
    have sur: "cp div 64 mod 64 < 32" if "cp div 4096 = 13"
    proof -
      from that have "cp div 4096 = 13" .
      moreover have "\<not> (55296 \<le> cp \<and> cp \<le> 57343)" using assms by (simp add: scalar_value_def)
      ultimately have "cp < 55296" "53248 \<le> cp" by linarith+
      then have "832 \<le> cp div 64" "cp div 64 < 864" by auto
      then show ?thesis by (intro mod_window [of 13]) simp_all
    qed
    have "unat (byte_of (224 + cp div 4096)) = 224 + cp div 4096"
      "unat (byte_of (128 + cp div 64 mod 64)) = 128 + cp div 64 mod 64"
      using q by (simp_all add: unat_byte_of)
    with 3 q low sur show ?thesis by (simp add: utf8_encode_def isUtf8_three)
  next
    case 4
    then have q: "cp div 262144 < 5" by auto
    have low: "cp div 262144 = 0 \<Longrightarrow> 16 \<le> cp div 4096 mod 64" using 4 by auto
    have high: "cp div 4096 mod 64 < 16" if "cp div 262144 = 4"
    proof -
      from that 4 have "1048576 \<le> cp" by linarith
      with 4 have "256 \<le> cp div 4096" "cp div 4096 < 272" by auto
      then show ?thesis by (intro mod_window [of 4]) simp_all
    qed
    have "unat (byte_of (240 + cp div 262144)) = 240 + cp div 262144"
      "unat (byte_of (128 + cp div 4096 mod 64)) = 128 + cp div 4096 mod 64"
      using q by (simp_all add: unat_byte_of)
    with 4 q low high show ?thesis by (simp add: utf8_encode_def isUtf8_four)
  qed
qed


lemma horner64: "d < 64 \<Longrightarrow> (x * 64 + d) div 64 = (x :: nat)" "d < 64 \<Longrightarrow> (x * 64 + d) mod 64 = (d :: nat)"
  by simp_all

lemma div_4096: "n div 4096 = n div 64 div (64 :: nat)" "n div 262144 = n div 64 div 64 div (64 :: nat)"
  by (simp_all add: div_mult2_eq [symmetric])

lemma utf8_encode_two:
  "c < 32 \<Longrightarrow> 2 \<le> c \<Longrightarrow> d < 64 \<Longrightarrow>
     utf8_encode (c * 64 + d) = [byte_of (192 + c), byte_of (128 + d)]"
  by (simp add: utf8_encode_def)

lemma utf8_encode_three:
  assumes "c < 16" "d < 64" "e < 64" "c = 0 \<longrightarrow> 32 \<le> d"
  shows "utf8_encode ((c * 64 + d) * 64 + e) = [byte_of (224 + c), byte_of (128 + d), byte_of (128 + e)]"
proof -
  have "2048 \<le> (c * 64 + d) * 64 + e" "(c * 64 + d) * 64 + e < 65536"
    using assms by (cases "c = 0"; simp; linarith)+
  then show ?thesis
    using assms unfolding utf8_encode_def by (simp only: div_4096 horner64) simp
qed

lemma utf8_encode_four:
  assumes "c < 5" "d < 64" "e < 64" "f < 64" "c = 0 \<longrightarrow> 16 \<le> d"
  shows "utf8_encode (((c * 64 + d) * 64 + e) * 64 + f) =
    [byte_of (240 + c), byte_of (128 + d), byte_of (128 + e), byte_of (128 + f)]"
proof -
  have "65536 \<le> ((c * 64 + d) * 64 + e) * 64 + f"
    using assms by (cases "c = 0"; simp)
  then show ?thesis
    using assms unfolding utf8_encode_def by (simp only: div_4096 horner64) simp
qed

lemma scalar_value_three:
  assumes "c < 16" "d < 64" "e < 64" "c = 13 \<longrightarrow> d < 32"
  shows "scalar_value ((c * 64 + d) * 64 + e)"
proof -
  consider "c < 13" | "c = 13" | "13 < c" by linarith
  then show ?thesis using assms unfolding scalar_value_def by cases (linarith | simp)+
qed

lemma scalar_value_four:
  assumes "c < 5" "d < 64" "e < 64" "f < 64" "c = 0 \<longrightarrow> 16 \<le> d" "c = 4 \<longrightarrow> d < 16"
  shows "scalar_value (((c * 64 + d) * 64 + e) * 64 + f)"
proof -
  consider "c = 0" | "c = 4" | "0 < c" "c < 4" using assms by linarith
  then show ?thesis using assms unfolding scalar_value_def by cases (linarith | simp)+
qed

lemma cont_less: "cont d \<Longrightarrow> unat d - 128 < 64" "cont d \<Longrightarrow> byte_of (128 + (unat d - 128)) = d"
  by (auto simp: cont_def intro: byte_of_eqI)

lemma isUtf8_first_scalar:
  assumes "isUtf8 (c # rest)"
  shows "\<exists>cp r. scalar_value cp \<and> c # rest = utf8_encode cp @ r \<and> isUtf8 r"
proof -
  consider "unat c < 128" | "192 \<le> unat c" "unat c < 224" | "224 \<le> unat c" "unat c < 240"
    | "240 \<le> unat c" "unat c < 245"
    using isUtf8_invalid_lead [of c rest] assms by linarith
  then show ?thesis
  proof cases
    case 1
    then have "scalar_value (unat c)" "utf8_encode (unat c) = [c]"
      by (simp_all add: scalar_value_def utf8_encode_def byte_of_eqI)
    then show ?thesis using assms 1 by (intro exI [of _ "unat c"]) (simp add: isUtf8_ascii)
  next
    case 2
    with assms obtain d r where r: "194 \<le> unat c" "rest = d # r" "cont d" "isUtf8 r"
      by (auto simp: isUtf8_two)
    let ?cp = "(unat c - 192) * 64 + (unat d - 128)"
    have "utf8_encode ?cp = [c, d]"
      using r 2 by (simp add: utf8_encode_two cont_less byte_of_eqI)
    moreover have "scalar_value ?cp" using r 2 unfolding scalar_value_def cont_def by linarith
    ultimately show ?thesis using r by (intro exI [of _ ?cp]) simp
  next
    case 3
    with assms obtain d e r where r: "rest = d # e # r" "cont d" "cont e" "isUtf8 r"
      "unat c = 224 \<longrightarrow> 160 \<le> unat d" "unat c = 237 \<longrightarrow> unat d < 160"
      by (auto simp: isUtf8_three)
    let ?cp = "((unat c - 224) * 64 + (unat d - 128)) * 64 + (unat e - 128)"
    have "utf8_encode ?cp = [byte_of (224 + (unat c - 224)), byte_of (128 + (unat d - 128)), byte_of (128 + (unat e - 128))]"
      using r 3 by (intro utf8_encode_three) (auto simp: cont_def)
    then have "utf8_encode ?cp = [c, d, e]" using r 3 by (simp add: cont_less byte_of_eqI)
    moreover have "scalar_value ?cp"
      using r 3 by (intro scalar_value_three) (auto simp: cont_def)
    ultimately show ?thesis using r by (intro exI [of _ ?cp]) simp
  next
    case 4
    with assms obtain d e f r where r: "rest = d # e # f # r" "cont d" "cont e" "cont f" "isUtf8 r"
      "unat c = 240 \<longrightarrow> 144 \<le> unat d" "unat c = 244 \<longrightarrow> unat d < 144"
      by (auto simp: isUtf8_four)
    let ?cp = "(((unat c - 240) * 64 + (unat d - 128)) * 64 + (unat e - 128)) * 64 + (unat f - 128)"
    have "utf8_encode ?cp = [byte_of (240 + (unat c - 240)), byte_of (128 + (unat d - 128)), byte_of (128 + (unat e - 128)), byte_of (128 + (unat f - 128))]"
      using r 4 by (intro utf8_encode_four) (auto simp: cont_def)
    then have "utf8_encode ?cp = [c, d, e, f]" using r 4 by (simp add: cont_less byte_of_eqI)
    moreover have "scalar_value ?cp"
      using r 4 by (intro scalar_value_four) (auto simp: cont_def)
    ultimately show ?thesis using r by (intro exI [of _ ?cp]) simp
  qed
qed

lemma isUtf8_concat: "list_all scalar_value cps \<Longrightarrow> isUtf8 (concat (map utf8_encode cps))"
  by (induction cps) (simp_all add: isUtf8_encode_append)

lemma isUtf8_decode: "isUtf8 bs \<Longrightarrow> \<exists>cps. list_all scalar_value cps \<and> bs = concat (map utf8_encode cps)"
proof (induction "length bs" arbitrary: bs rule: less_induct)
  case less
  show ?case
  proof (cases bs)
    case Nil
    then show ?thesis by (intro exI [of _ "[]"]) simp
  next
    case (Cons c rest)
    with less.prems obtain cp r where r: "scalar_value cp" "bs = utf8_encode cp @ r" "isUtf8 r"
      using isUtf8_first_scalar by blast
    moreover have "utf8_encode cp \<noteq> []" by (simp add: utf8_encode_def)
    ultimately obtain cps where "list_all scalar_value cps" "r = concat (map utf8_encode cps)"
      using less.hyps [of r] by auto
    with r show ?thesis by (intro exI [of _ "cp # cps"]) simp
  qed
qed

text \<open>
  C33. \<open>utils::isUtf8\<close> accepts a byte string exactly when it is the UTF-8 encoding of some
  sequence of Unicode scalar values: overlong forms, surrogates, values above U+10FFFF,
  stray continuation bytes and truncated sequences are all refused, and nothing else is.
\<close>

theorem isUtf8_iff_encoding:
  "isUtf8 bs \<longleftrightarrow> (\<exists>cps. list_all scalar_value cps \<and> bs = concat (map utf8_encode cps))"
  using isUtf8_concat isUtf8_decode by blast

end
