(* ===== verification/Loader.thy ===== *)
theory Loader
  imports Prelude
begin

section \<open>The loader\<close>

text \<open>
  loader/code/phpdetection.cpp and loader.cpp: a small extension that PHP loads in any
  version. It finds out which engine has loaded it and hands over to the library built for that
  version; where there is none it presents itself as a module that does nothing. The dynamic
  linker is a parameter. What the loader logs is left out. Shown: which library is loaded for
  which engine, and what PHP is given otherwise.
\<close>

subsection \<open>The version of the engine\<close>

text \<open>
  \<open>get_zend_version\<close> is not found, or returns null, or a string; whether \<open>core_globals\<close>
  exists; the file of the loader; what a library's file holds: its \<open>get_module\<close>, if it has one.
\<close>

record 'm dynamic_linker =
  get_zend_version :: "string option option"
  core_globals :: bool
  dli_fname :: "string option"
  dlopen :: "string \<Rightarrow> 'm option option"

definition getMajorMinorVersion :: "string \<Rightarrow> string" where
  "getMajorMinorVersion version =
     (case find_last_of (CHR ''.'') version of None \<Rightarrow> version | Some lastDot \<Rightarrow> take lastDot version)"

definition getZendVersionString :: "'m dynamic_linker \<Rightarrow> string" where
  "getZendVersionString ld =
     (case get_zend_version ld of None \<Rightarrow> [] | Some None \<Rightarrow> [] | Some (Some v) \<Rightarrow> c_str v)"

definition zend_prefix :: string where
  "zend_prefix = ''Zend Engine v''"

definition getZendVersion :: "string \<Rightarrow> string" where
  "getZendVersion zendVersion =
     (if \<not> starts_with zendVersion zend_prefix then []
      else case find_char (CHR '','') zendVersion of
             None \<Rightarrow> drop (length zend_prefix) zendVersion
           | Some i \<Rightarrow> take (i - length zend_prefix) (drop (length zend_prefix) zendVersion))"

definition getMajorMinorZendVersion :: "'m dynamic_linker \<Rightarrow> string" where
  "getMajorMinorZendVersion ld =
     (let zendVersion = getZendVersion (getZendVersionString ld)
      in if zendVersion = [] then [] else getMajorMinorVersion zendVersion)"

definition isThreadSafe :: "'m dynamic_linker \<Rightarrow> bool" where
  "isThreadSafe ld \<longleftrightarrow> \<not> core_globals ld"

definition knownPhpVersions :: "(string \<times> nat \<times> nat \<times> bool) list" where
  "knownPhpVersions =
    [(''4.5'', 85, 20250925, True), (''4.4'', 84, 20240924, True), (''4.3'', 83, 20230831, True),
     (''4.2'', 82, 20220829, True), (''4.1'', 81, 20210902, True), (''4.0'', 80, 20200930, False),
     (''3.4'', 74, 20190902, False), (''3.3'', 73, 20180731, False), (''3.2'', 72, 20170718, False),
     (''3.1'', 71, 20160303, False), (''3.0'', 70, 20151012, False), (''2.6'', 56, 20131226, False),
     (''2.5'', 55, 20121212, False), (''2.4'', 54, 20100525, False), (''2.3'', 53, 20090626, False),
     (''2.2'', 52, 20060613, False), (''2.1'', 51, 20050922, False), (''2.0'', 50, 20041030, False)]"

definition getZendModuleApiVersion :: "string \<Rightarrow> string \<times> nat \<times> nat \<times> bool" where
  "getZendModuleApiVersion zendVersion =
     (case find (\<lambda>entry. fst entry = zendVersion) knownPhpVersions of
        None \<Rightarrow> (zendVersion, 0, 0, False)
      | Some entry \<Rightarrow> entry)"

subsection \<open>The entry point\<close>

text \<open>The fields of the loader's own module that change, with the static \<open>zendBuildId\<close>.\<close>

record loader_state =
  zend_api :: nat
  zts :: bool
  build_id :: string
  zendBuildId :: string

definition loader_start :: loader_state where
  "loader_start = \<lparr>zend_api = 0, zts = False, build_id = [], zendBuildId = ''API''\<rparr>"

datatype 'm php_module = Loader_Module | Agent_Module 'm

text \<open>\<open>std::filesystem::path\<close>: the directory of a file, and a relative name in it.\<close>

definition parent_path :: "string \<Rightarrow> string" where
  "parent_path p =
     (case find_last_of (CHR ''/'') p of
        None \<Rightarrow> []
      | Some i \<Rightarrow>
          let dir = rev (dropWhile (\<lambda>c. c = CHR ''/'') (rev (take i p)))
          in if dir = [] then ''/'' else dir)"

definition path_append :: "string \<Rightarrow> string \<Rightarrow> string" where
  "path_append dir name =
     (if dir = [] \<or> last dir = CHR ''/'' then dir @ name else dir @ CHR ''/'' # name)"

definition agent_library :: "string \<Rightarrow> nat \<Rightarrow> string" where
  "agent_library loaderFile phpVersion =
     path_append (parent_path loaderFile) ''opentelemetry_php_distro_'' @ nat_to_string phpVersion @ ''.so''"

definition get_module :: "'m dynamic_linker \<Rightarrow> loader_state \<Rightarrow> 'm php_module \<times> loader_state" where
  "get_module ld st =
     (let zendVersion = getMajorMinorZendVersion ld
      in if zendVersion = [] then (Loader_Module, st)
         else let (zendEngineVersion, phpVersion, zendModuleApiVersion, isVersionSupported) = getZendModuleApiVersion zendVersion;
                  ts = isThreadSafe ld;
                  buildId = zendBuildId st @ nat_to_string zendModuleApiVersion @ (if ts then '',TS'' else '',NTS'');
                  st = st\<lparr>zend_api := zendModuleApiVersion, zts := ts, build_id := buildId, zendBuildId := buildId\<rparr>
              in if \<not> isVersionSupported then (Loader_Module, st)
                 else if ts then (Loader_Module, st)
                 else case dli_fname ld of
                        None \<Rightarrow> (Loader_Module, st)
                      | Some f \<Rightarrow>
                          (case dlopen ld (agent_library f phpVersion) of
                             None \<Rightarrow> (Loader_Module, st)
                           | Some None \<Rightarrow> (Loader_Module, st)
                           | Some (Some m) \<Rightarrow> (Agent_Module m, st)))"

subsection \<open>How versions are read\<close>

text \<open>
  The texts by which an engine reports version \<open>v\<close>: after the prefix \<open>v\<close>, then a dot and the patch
  level, which has no dot of its own, then the end or a comma with more text.
\<close>

definition reports :: "string \<Rightarrow> string \<Rightarrow> bool" where
  "reports line v \<longleftrightarrow> (\<exists>patch rest. line = zend_prefix @ v @ CHR ''.'' # patch @ rest
     \<and> CHR ''.'' \<notin> set patch \<and> CHR '','' \<notin> set v \<union> set patch \<and> (rest = [] \<or> hd rest = CHR '',''))"

lemma find_last_of_snoc: "x \<notin> set b \<Longrightarrow> find_last_of x (a @ x # b) = Some (length a)"
  using find_char_append [of x "rev b" "rev a"] by (simp add: find_last_of_def find_char_def)

lemma find_last_of_None: "find_last_of x s = None \<longleftrightarrow> x \<notin> set s"
  by (auto simp: find_last_of_def find_if_pos_None)

lemma getMajorMinorVersion_dotted:
  "CHR ''.'' \<notin> set patch \<Longrightarrow> getMajorMinorVersion (v @ CHR ''.'' # patch) = v"
  by (simp add: getMajorMinorVersion_def find_last_of_snoc)

lemma getMajorMinorVersion_cases:
  obtains (dotted) patch where "version = getMajorMinorVersion version @ CHR ''.'' # patch" "CHR ''.'' \<notin> set patch"
  | (plain) "CHR ''.'' \<notin> set version" "getMajorMinorVersion version = version"
proof (cases "CHR ''.'' \<in> set version")
  case True
  then obtain v patch where "version = v @ CHR ''.'' # patch" "CHR ''.'' \<notin> set patch"
    by (metis split_list_last)
  moreover from this have "getMajorMinorVersion version = v" by (simp add: getMajorMinorVersion_dotted)
  ultimately show ?thesis using dotted by metis
next
  case False
  then show ?thesis using plain by (simp add: getMajorMinorVersion_def find_last_of_None [THEN iffD2])
qed

lemma prefix_no_comma: "CHR '','' \<notin> set zend_prefix"
  by (simp add: zend_prefix_def)

lemma getZendVersion_reads:
  assumes "CHR '','' \<notin> set v" "rest = [] \<or> hd rest = CHR '',''"
  shows "getZendVersion (zend_prefix @ v @ rest) = v"
proof (cases rest)
  case Nil
  have "find_char (CHR '','') (zend_prefix @ v) = None"
    using assms(1) prefix_no_comma by simp
  note none = this
  show ?thesis by (simp add: getZendVersion_def Nil none del: find_char_None)
next
  case (Cons c cs)
  with assms(2) have "rest = CHR '','' # cs" by simp
  then have "find_char (CHR '','') (zend_prefix @ v @ rest) = Some (length (zend_prefix @ v))"
    using assms(1) prefix_no_comma find_char_append [of "CHR '',''" "zend_prefix @ v" cs] by simp
  then show ?thesis by (simp add: getZendVersion_def)
qed

lemma getZendVersion_shape:
  assumes "getZendVersion line \<noteq> []"
  obtains rest where "line = zend_prefix @ getZendVersion line @ rest" "CHR '','' \<notin> set (getZendVersion line)"
    "rest = [] \<or> hd rest = CHR '',''"
proof -
  from assms obtain t where t: "line = zend_prefix @ t"
    by (auto simp: getZendVersion_def starts_with_iff split: if_splits)
  show thesis
  proof (cases "CHR '','' \<in> set t")
    case True
    then obtain a b where ab: "t = a @ CHR '','' # b" "CHR '','' \<notin> set a" by (metis split_list_first)
    then show thesis using that getZendVersion_reads [of a "CHR '','' # b"] t by simp
  next
    case False
    then show thesis using that [of "[]"] getZendVersion_reads [of t "[]"] t by simp
  qed
qed

lemma known_versions_dotted: "entry \<in> set knownPhpVersions \<Longrightarrow> CHR ''.'' \<in> set (fst entry)"
proof -
  have "list_all (\<lambda>e. CHR ''.'' \<in> set (fst e)) knownPhpVersions" by (simp add: knownPhpVersions_def)
  then show "entry \<in> set knownPhpVersions \<Longrightarrow> CHR ''.'' \<in> set (fst entry)" by (simp add: list_all_iff)
qed

lemma distinct_known: "distinct (map fst knownPhpVersions)"
  by (simp add: knownPhpVersions_def)

lemma find_SomeD: "find p xs = Some x \<Longrightarrow> x \<in> set xs" "find p xs = Some x \<Longrightarrow> p x"
  by (induction xs) (auto split: if_splits)

lemma find_known:
  assumes "entry \<in> set knownPhpVersions"
  shows "find (\<lambda>e. fst e = fst entry) knownPhpVersions = Some entry"
proof -
  obtain e where e: "find (\<lambda>e. fst e = fst entry) knownPhpVersions = Some e"
    using assms find_None_iff [of "\<lambda>e. fst e = fst entry" knownPhpVersions]
    by (cases "find (\<lambda>e. fst e = fst entry) knownPhpVersions") blast+
  then have "e \<in> set knownPhpVersions" "fst e = fst entry" by (rule find_SomeD)+
  with assms distinct_known have "e = entry" by (metis eq_key_imp_eq_value prod.collapse)
  with e show ?thesis by simp
qed

lemma getZendModuleApiVersion_known:
  "entry \<in> set knownPhpVersions \<Longrightarrow> getZendModuleApiVersion (fst entry) = entry"
  by (simp add: getZendModuleApiVersion_def find_known)

lemma getZendModuleApiVersion_supported:
  "snd (snd (snd (getZendModuleApiVersion v))) \<Longrightarrow> getZendModuleApiVersion v \<in> set knownPhpVersions
     \<and> fst (getZendModuleApiVersion v) = v"
  using find_SomeD [of "\<lambda>e. fst e = v" knownPhpVersions]
  by (cases "find (\<lambda>e. fst e = v) knownPhpVersions") (simp_all add: getZendModuleApiVersion_def)

subsection \<open>Which library is loaded\<close>

lemma reports_version:
  assumes "reports line v"
  shows "getMajorMinorVersion (getZendVersion line) = v" "getZendVersion line \<noteq> []"
proof -
  from assms obtain patch rest where s: "line = zend_prefix @ v @ CHR ''.'' # patch @ rest"
    and d: "CHR ''.'' \<notin> set patch" "CHR '','' \<notin> set v \<union> set patch" "rest = [] \<or> hd rest = CHR '',''"
    unfolding reports_def by blast
  have t: "line = zend_prefix @ (v @ CHR ''.'' # patch) @ rest" by (simp add: s)
  have "getZendVersion line = v @ CHR ''.'' # patch"
    unfolding t by (rule getZendVersion_reads) (use d in auto)
  then show "getMajorMinorVersion (getZendVersion line) = v" "getZendVersion line \<noteq> []"
    using getMajorMinorVersion_dotted [OF d(1)] by simp_all
qed

lemma version_reported:
  assumes "CHR ''.'' \<in> set v" "getMajorMinorVersion (getZendVersion line) = v"
  shows "reports line v"
proof -
  have "getZendVersion line \<noteq> []" using assms by (auto simp: getMajorMinorVersion_def find_last_of_def)
  then obtain rest where t: "line = zend_prefix @ getZendVersion line @ rest" "CHR '','' \<notin> set (getZendVersion line)"
    "rest = [] \<or> hd rest = CHR '',''" by (rule getZendVersion_shape)
  from getMajorMinorVersion_cases [of "getZendVersion line"] obtain patch where
    p: "getZendVersion line = v @ CHR ''.'' # patch" "CHR ''.'' \<notin> set patch"
    using assms by (metis (no_types, lifting))
  with t show ?thesis unfolding reports_def by (metis Un_iff append.assoc append_Cons set_append list.set_intros(2))
qed

lemma engine_version:
  "getMajorMinorZendVersion ld = v \<and> CHR ''.'' \<in> set v
     \<longleftrightarrow> (\<exists>line. get_zend_version ld = Some (Some line) \<and> reports (c_str line) v) \<and> CHR ''.'' \<in> set v"
proof -
  have "getMajorMinorZendVersion ld = getMajorMinorVersion (getZendVersion (getZendVersionString ld))"
    by (simp add: getMajorMinorZendVersion_def getMajorMinorVersion_def find_last_of_def Let_def)
  moreover have "\<not> reports [] v" by (simp add: reports_def zend_prefix_def)
  moreover have "getMajorMinorVersion (getZendVersion line) = v \<longleftrightarrow> reports line v" if "CHR ''.'' \<in> set v" for line
    using that reports_version(1) version_reported by blast
  ultimately show ?thesis
    by (cases "get_zend_version ld"; cases "the (get_zend_version ld)") (auto simp: getZendVersionString_def)
qed

text \<open>
  C32. The loader hands over to a library exactly if the engine reports, as the text before the
  last dot of its version, a version that the table marks as supported, is not thread safe,
  and the library named after the PHP version of that entry, in the loader's own directory, loads and
  has an entry point. It is then the module of that very library that PHP gets; there is no other
  case in which PHP gets a module of a library.
\<close>

theorem loader_serves_exactly_the_supported_engines:
  "fst (get_module ld st) = Agent_Module m \<longleftrightarrow>
     (\<exists>line zend php api f. get_zend_version ld = Some (Some line) \<and> reports (c_str line) zend
        \<and> (zend, php, api, True) \<in> set knownPhpVersions \<and> core_globals ld
        \<and> dli_fname ld = Some f \<and> dlopen ld (agent_library f php) = Some (Some m))"
  (is "?loaded \<longleftrightarrow> ?supported")
proof
  let ?v = "getMajorMinorZendVersion ld"
  obtain z php api ok where e: "getZendModuleApiVersion ?v = (z, php, api, ok)" by (metis prod.collapse)
  assume ?loaded
  then have "ok" "core_globals ld" "\<exists>f. dli_fname ld = Some f \<and> dlopen ld (agent_library f php) = Some (Some m)"
    by (auto simp: get_module_def Let_def e isThreadSafe_def split: if_splits option.splits)
  moreover from this have "(?v, php, api, True) \<in> set knownPhpVersions"
    using getZendModuleApiVersion_supported [of ?v] e by auto
  moreover from this have "\<exists>line. get_zend_version ld = Some (Some line) \<and> reports (c_str line) ?v"
    using known_versions_dotted engine_version [of ld ?v] by fastforce
  ultimately show ?supported by blast
next
  assume ?supported
  then obtain line zend php api f where s: "get_zend_version ld = Some (Some line)" "reports (c_str line) zend"
    "(zend, php, api, True) \<in> set knownPhpVersions" "core_globals ld"
    "dli_fname ld = Some f" "dlopen ld (agent_library f php) = Some (Some m)" by blast
  from known_versions_dotted [OF s(3)] have dot: "CHR ''.'' \<in> set zend" by simp
  with s(1,2) have v: "getMajorMinorZendVersion ld = zend" using engine_version [of ld zend] by blast
  have "zend \<noteq> []" using dot by auto
  with s(4-6) show ?loaded
    using getZendModuleApiVersion_known [OF s(3)] by (simp add: get_module_def Let_def v isThreadSafe_def)
qed

lemma agent_library_in_directory:
  assumes "dir \<noteq> []" "last dir \<noteq> CHR ''/''" "CHR ''/'' \<notin> set name"
  shows "agent_library (dir @ CHR ''/'' # name) php =
    dir @ ''/opentelemetry_php_distro_'' @ nat_to_string php @ ''.so''"
proof -
  have "rev (dropWhile (\<lambda>c. c = CHR ''/'') (rev dir)) = dir"
    using assms(1,2) by (cases dir rule: rev_cases) simp_all
  then show ?thesis
    using assms by (simp add: agent_library_def parent_path_def find_last_of_snoc path_append_def Let_def)
qed

text \<open>
  When no library can be loaded, PHP gets a module that carries the API number and the build of the
  engine, so that the engine accepts it, provided the engine is one of the table.
\<close>

lemma loader_module_fits_engine:
  assumes "get_zend_version ld = Some (Some line)" "reports (c_str line) zend" "(zend, php, api, ok) \<in> set knownPhpVersions"
  shows "zend_api (snd (get_module ld loader_start)) = api"
    "zts (snd (get_module ld loader_start)) = (\<not> core_globals ld)"
    "build_id (snd (get_module ld loader_start)) = ''API'' @ nat_to_string api @ (if core_globals ld then '',NTS'' else '',TS'')"
proof -
  from known_versions_dotted [OF assms(3)] have dot: "CHR ''.'' \<in> set zend" by simp
  with assms(1,2) have v: "getMajorMinorZendVersion ld = zend" using engine_version [of ld zend] by blast
  have "zend \<noteq> []" using dot by auto
  then show "zend_api (snd (get_module ld loader_start)) = api"
    "zts (snd (get_module ld loader_start)) = (\<not> core_globals ld)"
    "build_id (snd (get_module ld loader_start)) = ''API'' @ nat_to_string api @ (if core_globals ld then '',NTS'' else '',TS'')"
    using getZendModuleApiVersion_known [OF assms(3)]
    by (auto simp: get_module_def Let_def v isThreadSafe_def loader_start_def split: option.split)
qed

text \<open>The build identification is a static string that every further call extends.\<close>

lemma build_id_grows:
  assumes "zendBuildId (snd (get_module ld st)) \<noteq> zendBuildId st"
  shows "length (zendBuildId st) < length (zendBuildId (snd (get_module ld st)))"
  using assms by (auto simp: get_module_def Let_def case_prod_beta split: if_splits option.splits)

end
