(* ===== verification/TextUtils.thy ===== *)
theory TextUtils
  imports Complex_Main Prelude
begin

text \<open>
  Text utilities of \<open>libcommon\<close>: \<open>CiCharTraits.h\<close> (case-insensitive views), the log levels
  of \<open>LogLevel.h\<close>, and the option parsers of \<open>CommonUtils.h\<close> and \<open>CommonUtils.cpp\<close>
  (trimming, booleans, log levels, byte sizes, durations, names, log features).
  The standard library functions they call (\<open>stoul\<close>, \<open>stod\<close>, \<open>from_chars\<close>,
  \<open>duration_cast\<close>) are written out with their error cases.
\<close>

subsection \<open>CiCharTraits: case-insensitive comparison\<close>

definition ci_eq :: "char \<Rightarrow> char \<Rightarrow> bool" where
  "ci_eq c1 c2 = (char_toupper c1 = char_toupper c2)"

text \<open>
  \<open>to_upper\<close> returns a \<open>char\<close>, and \<open>lt\<close> and \<open>compare\<close> order these values; whether
  \<open>char\<close> is signed depends on the target (it is on x86-64, it is not on arm64).
\<close>

definition char_value :: "bool \<Rightarrow> char \<Rightarrow> int" where
  "char_value is_signed c =
     (if is_signed \<and> 128 \<le> char_code c then int (char_code c) - 256 else int (char_code c))"

definition ci_lt :: "bool \<Rightarrow> char \<Rightarrow> char \<Rightarrow> bool" where
  "ci_lt is_signed c1 c2 =
     (char_value is_signed (char_toupper c1) < char_value is_signed (char_toupper c2))"

fun ci_compare :: "bool \<Rightarrow> string \<Rightarrow> string \<Rightarrow> nat \<Rightarrow> int" where
  "ci_compare is_signed s1 s2 0 = 0"
| "ci_compare is_signed (a # s1) (b # s2) (Suc n) =
     (if ci_lt is_signed a b then - 1
      else if ci_lt is_signed b a then 1
      else ci_compare is_signed s1 s2 n)"
| "ci_compare is_signed _ _ (Suc n) = 0"

fun ci_find :: "string \<Rightarrow> nat \<Rightarrow> char \<Rightarrow> nat option" where
  "ci_find s 0 a = None"
| "ci_find [] (Suc n) a = None"
| "ci_find (c # s) (Suc n) a =
     (if char_toupper c = char_toupper a then Some 0 else map_option Suc (ci_find s n a))"

text \<open>\<open>operator==\<close> of \<open>istring_view\<close>: equal lengths, then \<open>compare\<close>.\<close>

definition ci_equal :: "string \<Rightarrow> string \<Rightarrow> bool" where
  "ci_equal s1 s2 = (length s1 = length s2 \<and> ci_compare True s1 s2 (length s1) = 0)"

definition ci_starts_with :: "string \<Rightarrow> string \<Rightarrow> bool" where
  "ci_starts_with s p = ci_equal (take (length p) s) p"

subsection \<open>LogLevel\<close>

datatype LogLevel =
  logLevel_off | logLevel_critical | logLevel_error | logLevel_warning
| logLevel_info | logLevel_debug | logLevel_trace

definition level_list :: "LogLevel list" where
  "level_list =
     [logLevel_off, logLevel_critical, logLevel_error, logLevel_warning,
      logLevel_info, logLevel_debug, logLevel_trace]"

fun level_code :: "LogLevel \<Rightarrow> nat" where
  "level_code logLevel_off = 0"
| "level_code logLevel_critical = 1"
| "level_code logLevel_error = 2"
| "level_code logLevel_warning = 3"
| "level_code logLevel_info = 4"
| "level_code logLevel_debug = 5"
| "level_code logLevel_trace = 6"

instantiation LogLevel :: linorder
begin

definition less_eq_LogLevel :: "LogLevel \<Rightarrow> LogLevel \<Rightarrow> bool" where
  "less_eq_LogLevel a b = (level_code a \<le> level_code b)"

definition less_LogLevel :: "LogLevel \<Rightarrow> LogLevel \<Rightarrow> bool" where
  "less_LogLevel a b = (level_code a < level_code b)"

instance
proof
  fix x y z :: LogLevel
  show "(x < y) = (x \<le> y \<and> \<not> y \<le> x)"
    by (auto simp: less_LogLevel_def less_eq_LogLevel_def)
  show "x \<le> x" by (simp add: less_eq_LogLevel_def)
  show "x \<le> y \<Longrightarrow> y \<le> z \<Longrightarrow> x \<le> z" by (simp add: less_eq_LogLevel_def)
  show "x \<le> y \<Longrightarrow> y \<le> x \<Longrightarrow> x = y"
    by (cases x; cases y) (auto simp: less_eq_LogLevel_def)
  show "x \<le> y \<or> y \<le> x" by (auto simp: less_eq_LogLevel_def)
qed

end

fun getLogLevelName :: "LogLevel \<Rightarrow> string" where
  "getLogLevelName logLevel_off = ''OFF     ''"
| "getLogLevelName logLevel_critical = ''CRITICAL''"
| "getLogLevelName logLevel_error = ''ERROR   ''"
| "getLogLevelName logLevel_warning = ''WARNING ''"
| "getLogLevelName logLevel_info = ''INFO    ''"
| "getLogLevelName logLevel_debug = ''DEBUG   ''"
| "getLogLevelName logLevel_trace = ''TRACE   ''"

subsection \<open>Trimming\<close>

definition trim_space :: "char list" where
  "trim_space = [CHR '' '', CHR 0x0C, CHR 0x0A, CHR 0x0D, CHR 0x09, CHR 0x0B]"

definition trim :: "string \<Rightarrow> string" where
  "trim value =
     (let lpos = find_first_not_of trim_space value;
          rpos = find_last_not_of trim_space value;
          resultLen = length value - (case lpos of None \<Rightarrow> 0 | Some l \<Rightarrow> l)
                        - (length value - (case rpos of None \<Rightarrow> 0 | Some r \<Rightarrow> r + 1))
      in if resultLen = length value then value
         else if resultLen = 0 then []
         else take resultLen (drop (case lpos of None \<Rightarrow> 0 | Some l \<Rightarrow> l) value))"

subsection \<open>Integers: stoul, stoi, from_chars\<close>

datatype 'a conversion = No_Conversion | Range_Error | Converted 'a nat

text \<open>
  \<open>strtoul\<close> and \<open>strtol\<close> in base 10: white space, an optional sign, digits. The second
  component of a conversion is the number of characters consumed.
\<close>

definition scan_sign :: "string \<Rightarrow> bool \<times> string" where
  "scan_sign s = (case s of
       c # cs \<Rightarrow> if c = CHR ''-'' then (True, cs) else if c = CHR ''+'' then (False, cs) else (False, s)
     | [] \<Rightarrow> (False, s))"

definition strtoul :: "string \<Rightarrow> size_t conversion" where
  "strtoul str =
     (let s = c_str str; t = dropWhile isspace s; (neg, u) = scan_sign t;
          ds = takeWhile isdigit u; n = dec_value 0 ds
      in if ds = [] then No_Conversion
         else if n \<ge> 2 ^ 64 then Range_Error
         else Converted (if neg then - of_nat n else of_nat n) (length s - length u + length ds))"

definition stoul :: "string \<Rightarrow> size_t result" where
  "stoul str = (case strtoul str of
       No_Conversion \<Rightarrow> Inl (Invalid_Argument ''stoul'')
     | Range_Error \<Rightarrow> Inl (Out_Of_Range ''stoul'')
     | Converted v _ \<Rightarrow> Inr v)"

text \<open>\<open>stoi\<close> additionally refuses what does not fit a 32-bit \<open>int\<close>.\<close>

definition stoi_idx :: "string \<Rightarrow> (int \<times> nat) result" where
  "stoi_idx str =
     (let s = c_str str; t = dropWhile isspace s; (neg, u) = scan_sign t;
          ds = takeWhile isdigit u; n = int (dec_value 0 ds); v = (if neg then - n else n)
      in if ds = [] then Inl (Invalid_Argument ''stoi'')
         else if v < - (2 ^ 31) \<or> v > 2 ^ 31 - 1 then Inl (Out_Of_Range ''stoi'')
         else Inr (v, length s - length u + length ds))"

text \<open>\<open>std::from_chars\<close> for \<open>int\<close>: no white space, no plus sign; \<open>None\<close> when \<open>ec\<close> is set.\<close>

definition from_chars_int :: "string \<Rightarrow> int option" where
  "from_chars_int s =
     (let neg = (case s of c # _ \<Rightarrow> c = CHR ''-'' | [] \<Rightarrow> False);
          ds = takeWhile isdigit (if neg then tl s else s);
          n = int (dec_value 0 ds); v = (if neg then - n else n)
      in if ds = [] then None
         else if v < - (2 ^ 31) \<or> v > 2 ^ 31 - 1 then None
         else Some v)"

subsection \<open>parseByteUnits\<close>

definition digit_chars :: "char list" where
  "digit_chars = ''0123456789''"

definition remove_spaces :: "string \<Rightarrow> string" where
  "remove_spaces s = filter (\<lambda>c. \<not> isspace c) s"

definition parseByteUnits :: "string \<Rightarrow> size_t result" where
  "parseByteUnits bytesWithUnit =
     (let b = remove_spaces bytesWithUnit in
      bind_result (stoul b) (\<lambda>value.
        case find_first_not_of digit_chars b of
          None \<Rightarrow> Inr value
        | Some unitPos \<Rightarrow>
            (let unit = drop unitPos b in
             if ci_equal unit ''b'' then Inr value
             else if ci_equal unit ''kb'' then Inr (value * 1024)
             else if ci_equal unit ''mb'' then Inr (value * 1024 * 1024)
             else if ci_equal unit ''gb'' then Inr (value * 1024 * 1024 * 1024)
             else Inl (Invalid_Argument ''Invalid byte unit.''))))"

subsection \<open>Durations: binary64, stod, duration_cast\<close>

text \<open>
  A finite \<open>double\<close> is the rational number it denotes. \<open>round_binary64\<close> rounds a
  non-negative rational to the nearest binary64 value, ties to even: 53 significant bits,
  exponents from -1022.
\<close>

fun ilog2 :: "nat \<Rightarrow> nat" where
  "ilog2 n = (if n < 2 then 0 else Suc (ilog2 (n div 2)))"

declare ilog2.simps [simp del]

definition pow2 :: "int \<Rightarrow> rat" where
  "pow2 e = (if 0 \<le> e then 2 ^ nat e else 1 / 2 ^ nat (- e))"

definition binade :: "rat \<Rightarrow> int" where
  "binade x =
     (let (a, b) = quotient_of x; e = int (ilog2 (nat a)) - int (ilog2 (nat b))
      in if pow2 e \<le> x then e else e - 1)"

definition round_half_even :: "rat \<Rightarrow> int" where
  "round_half_even x =
     (let f = \<lfloor>x\<rfloor>; r = x - of_int f
      in if r < 1 / 2 then f else if 1 / 2 < r then f + 1 else if even f then f else f + 1)"

definition round_binary64 :: "rat \<Rightarrow> rat" where
  "round_binary64 x =
     (if x = 0 then 0
      else (let q = pow2 (max (binade x) (- 1022) - 52)
            in of_int (round_half_even (x / q)) * q))"

text \<open>
  \<open>strtod\<close>: decimal and hexadecimal numbers, infinities and NaNs. \<open>stod\<close> throws
  \<open>invalid_argument\<close> without a number and \<open>out_of_range\<close> on overflow and on an
  inexact subnormal result. The sign, infinities and NaNs never reach the conversion of
  \<open>convertDurationWithUnit\<close> (their first character already is a unit), so a finite
  result carries the magnitude only and the others are \<open>None\<close>.
\<close>

definition range_checked :: "rat \<Rightarrow> rat option result" where
  "range_checked x =
     (let r = round_binary64 x in
      if 2 ^ 1024 \<le> r then Inl (Out_Of_Range ''stod'')
      else if x \<noteq> 0 \<and> r < pow2 (- 1022) \<and> r \<noteq> x then Inl (Out_Of_Range ''stod'')
      else Inr (Some r))"

text \<open>An exponent counts only when at least one digit follows its letter and sign.\<close>

definition scan_exponent :: "char \<Rightarrow> string \<Rightarrow> int" where
  "scan_exponent letter s = (case s of
       [] \<Rightarrow> 0
     | c # cs \<Rightarrow>
         if char_tolower c = letter then
           (let (neg, u) = scan_sign cs; ds = takeWhile isdigit u; n = int (dec_value 0 ds)
            in if ds = [] then 0 else if neg then - n else n)
         else 0)"

fun hex_value :: "nat \<Rightarrow> string \<Rightarrow> nat" where
  "hex_value acc [] = acc"
| "hex_value acc (c # cs) = hex_value (acc * 16 + xdigit_value c) cs"

definition scan_fraction :: "(char \<Rightarrow> bool) \<Rightarrow> string \<Rightarrow> string \<times> string" where
  "scan_fraction p s = (case s of
       [] \<Rightarrow> ([], [])
     | c # cs \<Rightarrow> if c = CHR ''.'' then (takeWhile p cs, dropWhile p cs) else ([], s))"

definition stod_hex :: "string \<Rightarrow> rat option result" where
  "stod_hex u =
     (let ip = takeWhile isxdigit u; (fp, rest) = scan_fraction isxdigit (dropWhile isxdigit u)
      in if ip @ fp = [] then Inr (Some 0)
         else range_checked (of_nat (hex_value 0 (ip @ fp))
                * pow2 (scan_exponent (CHR ''p'') rest - 4 * int (length fp))))"

definition stod_dec :: "string \<Rightarrow> rat option result" where
  "stod_dec u =
     (let ip = takeWhile isdigit u; (fp, rest) = scan_fraction isdigit (dropWhile isdigit u);
          e = scan_exponent (CHR ''e'') rest - int (length fp)
      in if ip @ fp = [] then Inl (Invalid_Argument ''stod'')
         else range_checked (of_nat (dec_value 0 (ip @ fp))
                * (if 0 \<le> e then 10 ^ nat e else 1 / 10 ^ nat (- e))))"

definition stod :: "string \<Rightarrow> rat option result" where
  "stod str =
     (let (neg, u) = scan_sign (dropWhile isspace (c_str str)) in
      if ci_starts_with u ''inf'' \<or> ci_starts_with u ''nan'' then Inr None
      else if ci_starts_with u ''0x'' then stod_hex (drop 2 u)
      else stod_dec u)"

text \<open>
  \<open>duration_cast\<close> to milliseconds from a \<open>double\<close> count of a unit of \<open>factor\<close>
  milliseconds: one rounded product, then truncation to \<open>int64_t\<close>, undefined when the
  value does not fit.
\<close>

definition duration_cast_ms :: "nat \<Rightarrow> rat option \<Rightarrow> msec result" where
  "duration_cast_ms factor v = (case v of
       None \<Rightarrow> Inl (Undefined_Behaviour ''duration_cast'')
     | Some t \<Rightarrow>
         (let ms = \<lfloor>if factor = 1 then t else round_binary64 (t * of_nat factor)\<rfloor>
          in if ms < 2 ^ 63 then Inr ms else Inl (Undefined_Behaviour ''duration_cast'')))"

definition duration_chars :: "char list" where
  "duration_chars = ''0123456789.''"

definition convertDurationWithUnit :: "string \<Rightarrow> msec result" where
  "convertDurationWithUnit timeWithUnit =
     (let t = remove_spaces timeWithUnit in
      bind_result (stod t) (\<lambda>timeValue.
        case find_first_not_of duration_chars t of
          None \<Rightarrow> duration_cast_ms 1 timeValue
        | Some unitPos \<Rightarrow>
            (let unit = drop unitPos t in
             if unit = ''ms'' then duration_cast_ms 1 timeValue
             else if unit = ''s'' then duration_cast_ms 1000 timeValue
             else if unit = ''m'' then duration_cast_ms 60000 timeValue
             else Inl (Invalid_Argument ''Invalid time unit.''))))"

subsection \<open>parseBoolean and parseLogLevel\<close>

definition parseBoolean :: "string \<Rightarrow> bool" where
  "parseBoolean val =
     (let value = trim val in
      if value = [] then False
      else if \<exists>t \<in> set [''true'', ''yes'', ''on'']. ci_equal t value then True
      else (case from_chars_int value of Some iVal \<Rightarrow> iVal \<noteq> 0 | None \<Rightarrow> False))"

definition level_names :: "string list" where
  "level_names =
     [''OFF'', ''CRITICAL'', ''ERROR'', ''WARNING'', ''INFO'', ''DEBUG'', ''TRACE'']"

definition parseLogLevel :: "string \<Rightarrow> LogLevel result" where
  "parseLogLevel val =
     (let value = trim val in
      case find (\<lambda>(name, level). ci_equal name value) (zip level_names level_list) of
        Some (_, level) \<Rightarrow> Inr level
      | None \<Rightarrow> Inl (Invalid_Argument (''Unknown log level: '' @ val)))"

subsection \<open>Option names\<close>

definition getIniName :: "string \<Rightarrow> string" where
  "getIniName optionName = ''opentelemetry_distro.'' @ optionName"

definition getEnvName :: "string \<Rightarrow> string" where
  "getEnvName optionName = ''OTEL_PHP_'' @ map char_toupper optionName"

subsection \<open>getParameterizedString\<close>

text \<open>
  \<open>stringVPrintf\<close> formats twice, first for the length; \<open>vsnprintf\<close> of the buffer's \<open>capacity\<close> writes
  one character less than it. The text the format denotes is a parameter, missing on an encoding error.
\<close>

definition stringVPrintf :: "(nat \<Rightarrow> nat) \<Rightarrow> string option \<Rightarrow> string" where
  "stringVPrintf capacity formatted =
     (case formatted of
        None \<Rightarrow> []
      | Some s \<Rightarrow> take (capacity (length s + 1) - 1) s)"

lemma stringVPrintf_complete:
  "capacity (length s + 1) \<ge> length s + 1 \<Longrightarrow> stringVPrintf capacity (Some s) = s"
  by (simp add: stringVPrintf_def)

text \<open>\<open>pid\<close> and \<open>now\<close> are what \<open>getpid()\<close> and \<open>std::time(NULL)\<close> return.\<close>

fun getParameterizedString :: "nat \<Rightarrow> nat \<Rightarrow> string \<Rightarrow> string" where
  "getParameterizedString pid now [] = []"
| "getParameterizedString pid now (c # cs) =
     (if c = CHR ''%'' then
        (case cs of
           [] \<Rightarrow> ''%''
         | d # ds \<Rightarrow>
             (if d = CHR ''p'' then nat_to_string pid
              else if d = CHR ''t'' then nat_to_string now
              else [CHR ''%'', d]) @ getParameterizedString pid now ds)
      else c # getParameterizedString pid now cs)"

subsection \<open>parseLogFeatures\<close>

text \<open>
  \<open>enum_cast\<close> stands for \<open>magic_enum::enum_cast<LogFeature>(_, case_insensitive)\<close>, a
  library the repository does not carry; features are named by their enum codes.
\<close>

type_synonym LogFeature = nat

definition parseLogFeature :: "(string \<Rightarrow> LogFeature option) \<Rightarrow> string \<Rightarrow> LogFeature result" where
  "parseLogFeature enum_cast featureName =
     (case enum_cast featureName of
        Some f \<Rightarrow> Inr f
      | None \<Rightarrow> Inl (Invalid_Argument (''Unknown log feature: '' @ featureName)))"

definition emplace :: "('k \<rightharpoonup> 'v) \<Rightarrow> 'k \<Rightarrow> 'v \<Rightarrow> ('k \<rightharpoonup> 'v)" where
  "emplace m k v = (case m k of None \<Rightarrow> m(k \<mapsto> v) | Some _ \<Rightarrow> m)"

definition add_feature ::
  "(string \<Rightarrow> LogFeature option) \<Rightarrow> string \<Rightarrow> (LogFeature \<rightharpoonup> LogLevel) \<Rightarrow> (LogFeature \<rightharpoonup> LogLevel)" where
  "add_feature enum_cast featureAndValue features =
     (case find_char (CHR ''='') featureAndValue of
        None \<Rightarrow> features
      | Some pos \<Rightarrow>
          (case bind_result (parseLogLevel (drop (pos + 1) featureAndValue)) (\<lambda>level.
                  bind_result (parseLogFeature enum_cast (take pos featureAndValue)) (\<lambda>feature.
                    Inr (emplace features feature level))) of
             Inl _ \<Rightarrow> features
           | Inr features' \<Rightarrow> features'))"

definition parseLogFeatures ::
  "(string \<Rightarrow> LogFeature option) \<Rightarrow> string \<Rightarrow> (LogFeature \<rightharpoonup> LogLevel)" where
  "parseLogFeatures enum_cast logFeatures =
     (if logFeatures = [] then Map.empty
      else fold (add_feature enum_cast) (split_on (CHR '','') logFeatures) Map.empty)"

subsection \<open>Case-insensitive equality\<close>

lemma char_value_inject [simp]: "char_value sg a = char_value sg b \<longleftrightarrow> a = b"
proof -
  have "char_value sg a = char_value sg b \<longleftrightarrow> char_code a = char_code b"
    using char_code_bound [of a] char_code_bound [of b]
    by (auto simp: char_value_def simp del: char_code_bound split: if_splits)
  then show ?thesis by (simp add: char_code_inject)
qed

lemma ci_lt_neither: "\<not> ci_lt sg a b \<Longrightarrow> \<not> ci_lt sg b a \<Longrightarrow> char_toupper a = char_toupper b"
  using char_value_inject by (fastforce simp: ci_lt_def)

lemma ci_compare_eq_0:
  "length a = length b \<Longrightarrow>
     ci_compare sg a b (length a) = 0 \<longleftrightarrow> map char_toupper a = map char_toupper b"
proof (induction a b rule: list_induct2)
  case Nil
  then show ?case by simp
next
  case (Cons x xs y ys)
  then show ?case using ci_lt_neither [of sg x y] by (auto simp: ci_lt_def)
qed

lemma ci_equal_iff [simp]: "ci_equal a b \<longleftrightarrow> map char_toupper a = map char_toupper b"
  unfolding ci_equal_def using ci_compare_eq_0 map_eq_imp_length_eq by blast

lemma ci_find_spec:
  "ci_find s n a = find_if_pos (\<lambda>c. char_toupper c = char_toupper a) (take n s)"
  by (induction s n a rule: ci_find.induct) auto

subsection \<open>Trimming\<close>

lemma trim_space_iff: "c \<in> set trim_space \<longleftrightarrow> isspace c"
proof -
  have "c \<in> set trim_space \<longleftrightarrow> char_code c \<in> {32, 12, 10, 13, 9, 11}"
    unfolding trim_space_def
    by (simp add: char_code_inject [symmetric]) (simp add: char_code_def)
  also have "\<dots> \<longleftrightarrow> isspace c" by (auto simp: isspace_def in_range_def)
  finally show ?thesis .
qed

lemma find_first_not_of_space:
  "find_first_not_of trim_space s =
     (if \<exists>c \<in> set s. \<not> isspace c then Some (length (takeWhile isspace s)) else None)"
  by (simp add: find_first_not_of_def find_if_pos_takeWhile trim_space_iff)

lemma find_last_not_of_space:
  "find_last_not_of trim_space s =
     (if \<exists>c \<in> set s. \<not> isspace c
      then Some (length s - 1 - length (takeWhile isspace (rev s))) else None)"
  by (simp add: find_last_not_of_def find_if_pos_takeWhile trim_space_iff)

lemma dropWhile_rev_spaces:
  assumes "\<forall>c \<in> set a. p c" "\<forall>c \<in> set b. p c" "m \<noteq> []" "\<not> p (hd m)" "\<not> p (last m)"
  shows "rev (dropWhile p (rev (dropWhile p (a @ m @ b)))) = m"
proof -
  have "dropWhile p (a @ m @ b) = m @ b"
    using assms by (intro dropWhile_all_append) (cases m, auto)
  moreover have "dropWhile p (rev b @ rev m) = rev m"
    using assms by (intro dropWhile_all_append) (auto simp: hd_rev)
  ultimately show ?thesis by simp
qed

lemma trim_decomposed:
  assumes "\<forall>c \<in> set a. isspace c" "\<forall>c \<in> set b. isspace c" "m \<noteq> []"
    "\<not> isspace (hd m)" "\<not> isspace (last m)"
  shows "trim (a @ m @ b) = m"
proof -
  have tl: "takeWhile isspace (a @ m @ b) = a"
    using assms by (intro takeWhile_all_append) (cases m, auto)
  have tr: "takeWhile isspace (rev b @ rev m @ rev a) = rev b"
    using assms by (intro takeWhile_all_append) (auto simp: hd_append hd_rev)
  have ex: "\<exists>c \<in> set (a @ m @ b). \<not> isspace c"
    using assms(3,4) by (auto intro!: bexI [of _ "hd m"])
  have "find_first_not_of trim_space (a @ m @ b) = Some (length a)"
    using ex tl by (simp only: find_first_not_of_space if_True)
  moreover have "find_last_not_of trim_space (a @ m @ b) = Some (length a + length m - 1)"
    using ex tr assms(3) by (simp only: find_last_not_of_space if_True rev_append append_assoc) (simp add: neq_Nil_conv)
  moreover have "length m > 0" using assms(3) by simp
  ultimately show ?thesis
    unfolding trim_def Let_def by (cases "a = []"; cases "b = []") auto
qed

lemma spaces_split:
  assumes "\<exists>c \<in> set s. \<not> p c"
  obtains a m b where "s = a @ m @ b" "\<forall>c \<in> set a. p c" "\<forall>c \<in> set b. p c" "m \<noteq> []"
    "\<not> p (hd m)" "\<not> p (last m)"
proof -
  define t where "t = dropWhile p s"
  define m where "m = rev (dropWhile p (rev t))"
  define b where "b = rev (takeWhile p (rev t))"
  have t: "t \<noteq> []" "\<not> p (hd t)"
    using assms by (auto simp: t_def dropWhile_eq_Nil_conv hd_dropWhile)
  have tmb: "t = m @ b"
    unfolding m_def b_def by (metis rev_append rev_rev_ident takeWhile_dropWhile_id)
  have b: "\<forall>c \<in> set b. p c" unfolding b_def using set_takeWhileD by fastforce
  have m: "m \<noteq> []" using t(2) b tmb t(1) by (cases m; cases b) auto
  have "\<not> p (hd m)" using t m tmb by simp
  moreover have "\<not> p (last m)"
    using m unfolding m_def by (simp add: last_rev hd_dropWhile del: dropWhile_eq_Nil_conv)
  moreover have "\<forall>c \<in> set (takeWhile p s). p c" using set_takeWhileD by fastforce
  moreover have "s = takeWhile p s @ m @ b"
    using tmb t_def by (metis takeWhile_dropWhile_id)
  ultimately show thesis using that b m by blast
qed

lemma trim_eq:
  "trim s = rev (dropWhile isspace (rev (dropWhile isspace s)))"
proof (cases "\<exists>c \<in> set s. \<not> isspace c")
  case True
  then obtain a m b where "s = a @ m @ b" "\<forall>c \<in> set a. isspace c" "\<forall>c \<in> set b. isspace c"
    "m \<noteq> []" "\<not> isspace (hd m)" "\<not> isspace (last m)"
    by (rule spaces_split)
  then show ?thesis using trim_decomposed dropWhile_rev_spaces [of a isspace b m] by simp
next
  case False
  then have "dropWhile isspace s = []" by (simp add: dropWhile_eq_Nil_conv)
  then have "rev (dropWhile isspace (rev (dropWhile isspace s))) = []" by (simp only: rev.simps dropWhile.simps)
  with False show ?thesis
    by (simp add: trim_def find_first_not_of_space find_last_not_of_space Let_def)
qed

text \<open>
  trimming with the two position searches and the length arithmetic of
  \<open>utils::trim\<close> removes exactly the white space at both ends, also when the whole value
  is white space or empty.
\<close>

lemma trim_strips_both_ends:
  "trim s = rev (dropWhile isspace (rev (dropWhile isspace s)))"
  by (rule trim_eq)

subsection \<open>Log levels\<close>

lemmas char_eval = char_code_def in_range_def isspace_def isdigit_def char_toupper_def

lemma trim_level_name:
  "trim (getLogLevelName l) = level_names ! level_code l"
  by (cases l) (simp_all add: trim_eq level_names_def char_eval)

lemma level_names_upper: "n \<in> set level_names \<Longrightarrow> map char_toupper n = n"
  by (auto simp: level_names_def char_eval)

lemma level_names_distinct: "i < 7 \<Longrightarrow> j < 7 \<Longrightarrow> level_names ! i = level_names ! j \<longleftrightarrow> i = j"
  using nth_eq_iff_index_eq [of level_names i j] by (simp add: level_names_def)

lemma find_level:
  "find (\<lambda>(name, level). ci_equal name v) (zip level_names level_list) =
     (if map char_toupper v = ''OFF'' then Some (''OFF'', logLevel_off)
      else if map char_toupper v = ''CRITICAL'' then Some (''CRITICAL'', logLevel_critical)
      else if map char_toupper v = ''ERROR'' then Some (''ERROR'', logLevel_error)
      else if map char_toupper v = ''WARNING'' then Some (''WARNING'', logLevel_warning)
      else if map char_toupper v = ''INFO'' then Some (''INFO'', logLevel_info)
      else if map char_toupper v = ''DEBUG'' then Some (''DEBUG'', logLevel_debug)
      else if map char_toupper v = ''TRACE'' then Some (''TRACE'', logLevel_trace) else None)"
  by (auto simp: level_names_def level_list_def char_eval eq_commute [of _ "map char_toupper v"])

lemma parseLogLevel_iff:
  "parseLogLevel s = Inr l \<longleftrightarrow> map char_toupper (trim s) = trim (getLogLevelName l)"
  unfolding parseLogLevel_def Let_def trim_level_name find_level
  by (cases l; simp add: level_names_def)

text \<open>
  \<open>parseLogLevel\<close> accepts a text exactly when, trimmed and in any letter case, it is
  the printed name of a level, and returns that level; in particular it inverts
  \<open>getLogLevelName\<close>.
\<close>

lemma parseLogLevel_inverts_name:
  "parseLogLevel s = Inr l \<longleftrightarrow> map char_toupper (trim s) = trim (getLogLevelName l)"
  by (rule parseLogLevel_iff)

subsection \<open>Byte sizes\<close>

text \<open>The factor a unit stands for, in any letter case; no unit means bytes.\<close>

definition byte_unit_factor :: "string \<Rightarrow> nat option" where
  "byte_unit_factor u =
     (let v = map char_toupper u in
      if v = [] \<or> v = ''B'' then Some 1
      else if v = ''KB'' then Some 1024
      else if v = ''MB'' then Some (1024 ^ 2)
      else if v = ''GB'' then Some (1024 ^ 3)
      else None)"

lemma digit_chars_iff: "c \<in> set digit_chars \<longleftrightarrow> isdigit c"
proof -
  have "c \<in> set digit_chars \<longleftrightarrow> char_code c \<in> {48, 49, 50, 51, 52, 53, 54, 55, 56, 57}"
    unfolding digit_chars_def
    by (simp add: char_code_inject [symmetric]) (simp add: char_code_def)
  also have "\<dots> \<longleftrightarrow> isdigit c" by (simp add: isdigit_def in_range_def) arith
  finally show ?thesis .
qed

lemma find_unit:
  "find_first_not_of digit_chars b =
     (if dropWhile isdigit b = [] then None else Some (length (takeWhile isdigit b)))"
  by (auto simp: find_first_not_of_def find_if_pos_takeWhile digit_chars_iff)

lemma isdigit_not_NUL: "isdigit c \<Longrightarrow> char_code c \<noteq> 0"
  by (auto simp: isdigit_def in_range_def)

lemma isdigit_not_space: "isdigit c \<Longrightarrow> \<not> isspace c"
  by (auto simp: isdigit_def isspace_def in_range_def)

lemma isdigit_not_sign: "isdigit c \<Longrightarrow> c \<noteq> CHR ''-'' \<and> c \<noteq> CHR ''+''"
  by (auto simp: isdigit_def in_range_def char_code_def)

lemma takeWhile_isdigit_c_str: "takeWhile isdigit (c_str s) = takeWhile isdigit s"
  by (induction s) (auto simp: c_str_def isdigit_not_NUL)

lemma scan_leading_digits:
  assumes "takeWhile isdigit s \<noteq> []"
  shows "dropWhile isspace (c_str s) = c_str s" "scan_sign (c_str s) = (False, c_str s)"
proof -
  obtain c cs where s: "s = c # cs" "isdigit c"
    using assms by (cases s) (auto split: if_splits)
  then have "c_str s = c # c_str cs" by (simp add: c_str_def isdigit_not_NUL)
  then show "dropWhile isspace (c_str s) = c_str s" "scan_sign (c_str s) = (False, c_str s)"
    using s isdigit_not_space isdigit_not_sign by (auto simp: scan_sign_def)
qed

lemma stoul_digits:
  assumes "takeWhile isdigit s \<noteq> []"
  shows "stoul s =
     (let n = dec_value 0 (takeWhile isdigit s)
      in if n < 2 ^ 64 then Inr (of_nat n) else Inl (Out_Of_Range ''stoul''))"
  using assms scan_leading_digits [OF assms]
  by (simp add: stoul_def strtoul_def takeWhile_isdigit_c_str Let_def)

lemma take_drop_While_length: "drop (length (takeWhile p xs)) xs = dropWhile p xs"
  by (simp add: dropWhile_eq_drop)

lemma no_digit_no_unit:
  assumes "takeWhile isdigit b = []" "b \<noteq> []"
    "map char_toupper b \<in> {''B'', ''KB'', ''MB'', ''GB''}"
  shows "strtoul b = No_Conversion"
proof -
  obtain c cs where b: "b = c # cs" "\<not> isdigit c"
    using assms(1,2) by (cases b) (auto split: if_splits)
  with assms(3) have up: "char_toupper c \<in> {CHR ''B'', CHR ''K'', CHR ''M'', CHR ''G''}" by auto
  have "65 \<le> char_code c"
  proof (rule ccontr)
    assume "\<not> 65 \<le> char_code c"
    then have "char_toupper c = c" by (simp add: char_toupper_def in_range_def)
    with up \<open>\<not> 65 \<le> char_code c\<close> show False by (auto simp: char_code_def)
  qed
  then have "char_code c \<noteq> 0" "\<not> isspace c" "c \<noteq> CHR ''-''" "c \<noteq> CHR ''+''"
    by (auto simp: char_eval)
  then show ?thesis
    using b by (simp add: strtoul_def c_str_def scan_sign_def)
qed

lemma ci_units:
  "ci_equal u ''b'' \<longleftrightarrow> map char_toupper u = ''B''"
  "ci_equal u ''kb'' \<longleftrightarrow> map char_toupper u = ''KB''"
  "ci_equal u ''mb'' \<longleftrightarrow> map char_toupper u = ''MB''"
  "ci_equal u ''gb'' \<longleftrightarrow> map char_toupper u = ''GB''"
proof -
  have "map char_toupper ''b'' = ''B''" "map char_toupper ''kb'' = ''KB''"
    "map char_toupper ''mb'' = ''MB''" "map char_toupper ''gb'' = ''GB''"
    by code_simp+
  then show "ci_equal u ''b'' \<longleftrightarrow> map char_toupper u = ''B''"
    "ci_equal u ''kb'' \<longleftrightarrow> map char_toupper u = ''KB''"
    "ci_equal u ''mb'' \<longleftrightarrow> map char_toupper u = ''MB''"
    "ci_equal u ''gb'' \<longleftrightarrow> map char_toupper u = ''GB''"
    by (simp_all only: ci_equal_iff)
qed

lemma parseByteUnits_alt:
  "parseByteUnits s =
     bind_result (stoul (remove_spaces s)) (\<lambda>value.
       case byte_unit_factor (dropWhile isdigit (remove_spaces s)) of
         None \<Rightarrow> Inl (Invalid_Argument ''Invalid byte unit.'')
       | Some f \<Rightarrow> Inr (value * of_nat f))"
proof (cases "dropWhile isdigit (remove_spaces s)")
  case Nil
  then show ?thesis
    by (simp only: parseByteUnits_def Let_def find_unit byte_unit_factor_def) (simp cong: if_cong)
next
  case (Cons c cs)
  then have ne: "map char_toupper (dropWhile isdigit (remove_spaces s)) \<noteq> []" by simp
  have "drop (length (takeWhile isdigit (remove_spaces s))) (remove_spaces s) = dropWhile isdigit (remove_spaces s)"
    by (rule take_drop_While_length)
  with ne Cons show ?thesis
    by (cases "stoul (remove_spaces s)")
      (auto simp: parseByteUnits_def Let_def find_unit byte_unit_factor_def ci_units
        power2_eq_square power3_eq_cube simp del: ci_equal_iff dropWhile_eq_Nil_conv)
qed

text \<open>
  \<open>parseByteUnits\<close>, whatever white space its input contains. A number with a known
  unit (B, KB, MB, GB in any case, or none) gives the product in 64-bit arithmetic, which
  wraps around; a number that does not fit 64 bits is \<open>out_of_range\<close>, an unknown unit
  \<open>invalid_argument\<close>, and an input that does not begin with a digit is always refused.
\<close>

lemma parseByteUnits_spec:
  "(let b = remove_spaces s; ds = takeWhile isdigit b; u = dropWhile isdigit b; n = dec_value 0 ds
    in if ds = [] then \<not> is_ok (parseByteUnits s)
       else parseByteUnits s =
         (if 2 ^ 64 \<le> n then Inl (Out_Of_Range ''stoul'')
          else case byte_unit_factor u of
                 None \<Rightarrow> Inl (Invalid_Argument ''Invalid byte unit.'')
               | Some f \<Rightarrow> Inr (word_of_nat (n * f))))"
proof (cases "takeWhile isdigit (remove_spaces s) = []")
  case True
  define b where "b = remove_spaces s"
  have dw: "dropWhile isdigit b = b" using True by (metis append_Nil b_def takeWhile_dropWhile_id)
  have "\<not> is_ok (parseByteUnits s)"
  proof (cases "byte_unit_factor b")
    case None
    then show ?thesis
      by (cases "stoul b") (simp_all add: parseByteUnits_alt b_def [symmetric] dw)
  next
    case (Some f)
    then have "b = [] \<or> map char_toupper b \<in> {''B'', ''KB'', ''MB'', ''GB''}"
      by (auto simp: byte_unit_factor_def Let_def split: if_splits)
    moreover have "strtoul [] = No_Conversion" by (simp add: strtoul_def c_str_def scan_sign_def)
    ultimately have "strtoul b = No_Conversion"
      using no_digit_no_unit [of b] True unfolding b_def by metis
    then show ?thesis by (simp add: parseByteUnits_alt b_def [symmetric] stoul_def)
  qed
  with True show ?thesis by simp
next
  case False
  then show ?thesis
    by (simp add: parseByteUnits_alt stoul_digits Let_def split: option.split)
qed

subsection \<open>Durations\<close>

lemma ilog2_bound: "n < 2 ^ Suc k \<Longrightarrow> ilog2 n \<le> k"
proof (induction k arbitrary: n)
  case 0
  then show ?case by (subst ilog2.simps) simp
next
  case (Suc k)
  then have "ilog2 (n div 2) \<le> k" by simp
  then show ?case by (subst ilog2.simps) simp
qed

lemma round_half_even_of_int [simp]: "round_half_even (of_int i) = i"
  by (simp add: round_half_even_def)

text \<open>Integers below \<open>2 ^ 53\<close> are binary64 values.\<close>

lemma round_binary64_nat:
  assumes "n < 2 ^ 53"
  shows "round_binary64 (of_nat n) = of_nat n"
proof (cases "n = 0")
  case True
  then show ?thesis by (simp add: round_binary64_def)
next
  case False
  have "n < 2 ^ Suc 52" using assms by simp
  then have "ilog2 n \<le> 52" by (rule ilog2_bound)
  moreover have "quotient_of (of_nat n) = (int n, 1)"
    using quotient_of_int [of "int n"] by simp
  moreover have "ilog2 1 = 0" by (subst ilog2.simps) simp
  ultimately have b: "- 1 \<le> binade (of_nat n)" "binade (of_nat n) \<le> 52"
    by (auto simp: binade_def Let_def)
  define k where "k = nat (52 - max (binade (of_nat n)) (- 1022))"
  have "pow2 (max (binade (of_nat n)) (- 1022) - 52) = 1 / 2 ^ k"
    using b by (auto simp: pow2_def k_def)
  moreover have "round_half_even (of_nat n / (1 / 2 ^ k)) = int n * 2 ^ k"
    using round_half_even_of_int [of "int n * 2 ^ k"] by simp
  ultimately show ?thesis using False by (simp add: round_binary64_def Let_def)
qed

lemma one_le_pow: "(1::rat) \<le> 2 ^ n"
  by (rule one_le_power) simp

lemma range_checked_nat:
  assumes "n < 2 ^ 53"
  shows "range_checked (of_nat n) = Inr (Some (of_nat n))"
proof -
  have "(of_nat n :: rat) < 2 ^ 53"
    using assms by (metis of_nat_less_iff of_nat_numeral of_nat_power)
  also have "(2::rat) ^ 53 \<le> 2 ^ 1024" by (rule power_increasing) simp_all
  finally have "\<not> (2 ^ 1024 \<le> (of_nat n :: rat))" by simp
  then show ?thesis by (simp only: range_checked_def round_binary64_nat [OF assms] Let_def if_False) simp
qed

text \<open>The units of \<open>convertDurationWithUnit\<close> in milliseconds.\<close>

definition duration_factor :: "string \<Rightarrow> nat option" where
  "duration_factor u =
     (if u = [] \<or> u = ''ms'' then Some 1 else if u = ''s'' then Some 1000
      else if u = ''m'' then Some 60000 else None)"

lemma duration_chars_iff: "c \<in> set duration_chars \<longleftrightarrow> isdigit c \<or> c = CHR ''.''"
proof -
  have "set duration_chars = insert (CHR ''.'') (set digit_chars)"
    by (auto simp: duration_chars_def digit_chars_def)
  then show ?thesis by (auto simp: digit_chars_iff)
qed

lemma unit_shape:
  assumes "duration_factor u = Some f"
  shows "u = [] \<or> \<not> isdigit (hd u) \<and> hd u \<noteq> CHR ''.'' \<and> char_tolower (hd u) \<noteq> CHR ''e''
           \<and> char_toupper (hd u) \<noteq> CHR ''X''"
    "c_str u = u"
  using assms
  by (auto simp: duration_factor_def char_of_eq_iff char_eval char_tolower_def c_str_def split: if_splits)

lemma takeWhile_digits_unit:
  assumes "duration_factor u = Some f"
  shows "takeWhile isdigit (nat_to_string n @ u) = nat_to_string n"
    "dropWhile isdigit (nat_to_string n @ u) = u"
  using nat_to_string_digits [of n] unit_shape(1) [OF assms]
    takeWhile_all_append [of "nat_to_string n" isdigit u]
    dropWhile_all_append [of "nat_to_string n" isdigit u]
  by blast+

lemma find_duration_unit:
  assumes "duration_factor u = Some f"
  shows "find_first_not_of duration_chars (nat_to_string n @ u) =
     (if u = [] then None else Some (length (nat_to_string n)))"
proof -
  let ?p = "\<lambda>c. c \<notin> set duration_chars"
  have "\<forall>c \<in> set (nat_to_string n). \<not> ?p c"
    using nat_to_string_digits by (auto simp: duration_chars_iff)
  then have "find_first_not_of duration_chars (nat_to_string n @ u) =
      map_option ((+) (length (nat_to_string n))) (find_if_pos ?p u)"
    unfolding find_first_not_of_def by (rule find_if_pos_append)
  also have "find_if_pos ?p u = (if u = [] then None else Some 0)"
    using unit_shape(1) [OF assms] by (cases u) (auto simp: duration_chars_iff)
  finally show ?thesis by simp
qed

lemma set_take_2_append: "xs \<noteq> [] \<Longrightarrow> set (take 2 (xs @ u)) \<subseteq> set xs \<union> set (take 1 u)"
proof -
  assume "xs \<noteq> []"
  then obtain x ys where xs: "xs = x # ys" by (cases xs) auto
  show ?thesis
    by (cases ys) (auto simp: xs numeral_2_eq_2 dest: in_set_takeD)
qed

lemma not_hex_prefix:
  assumes "duration_factor u = Some f"
  shows "\<not> ci_starts_with (nat_to_string n @ u) ''0x''"
proof
  assume "ci_starts_with (nat_to_string n @ u) ''0x''"
  then have "map char_toupper (take (length ''0x'') (nat_to_string n @ u)) = map char_toupper ''0x''"
    unfolding ci_starts_with_def ci_equal_iff .
  moreover have "length ''0x'' = 2" by simp
  moreover have "map char_toupper ''0x'' = ''0X''" by code_simp
  ultimately have X: "CHR ''X'' \<in> char_toupper ` set (take 2 (nat_to_string n @ u))"
    by (metis in_set_conv_decomp insert_iff list.set(2) list.set_map)
  have dig: "char_toupper c \<noteq> CHR ''X''" if "isdigit c" for c
    using that by (auto simp: char_eval)
  have sub: "set (take 2 (nat_to_string n @ u)) \<subseteq> set (nat_to_string n) \<union> set (take 1 u)"
    by (rule set_take_2_append) simp
  from X obtain c where c: "char_toupper c = CHR ''X''" "c \<in> set (take 2 (nat_to_string n @ u))"
    by (metis imageE)
  then have "c \<in> set (nat_to_string n) \<or> c \<in> set (take 1 u)" using sub by (metis UnE subsetD)
  then show False
  proof
    assume "c \<in> set (nat_to_string n)"
    then show False using c(1) dig nat_to_string_digits by metis
  next
    assume "c \<in> set (take 1 u)"
    then show False using c(1) unit_shape(1) [OF assms] by (cases u) auto
  qed
qed

lemma stod_nat:
  assumes "duration_factor u = Some f" "n < 2 ^ 53"
  shows "stod (nat_to_string n @ u) = Inr (Some (of_nat n))"
proof -
  let ?t = "nat_to_string n @ u"
  obtain d ds where dd: "nat_to_string n = d # ds" "isdigit d"
    using nat_to_string_digits [of n] by (cases "nat_to_string n") auto
  have "\<forall>c \<in> set (nat_to_string n). char_code c \<noteq> 0"
    using nat_to_string_digits isdigit_not_NUL by blast
  then have cs: "c_str ?t = ?t" using unit_shape(2) [OF assms(1)] by (simp add: c_str_def)
  have tw: "takeWhile isdigit ?t \<noteq> []" using takeWhile_digits_unit(1) [OF assms(1)] by simp
  note lead = scan_leading_digits [OF tw, unfolded cs]
  have noinf: "\<not> ci_starts_with ?t ''inf'' \<and> \<not> ci_starts_with ?t ''nan''"
    using dd by (auto simp: ci_starts_with_def char_eval)
  have "scan_fraction isdigit u = ([], u)" "scan_exponent (CHR ''e'') u = 0"
    using unit_shape(1) [OF assms(1)]
    by (auto simp: scan_fraction_def scan_exponent_def split: list.split)
  then have "stod_dec ?t = range_checked (of_nat n)"
    by (simp add: stod_dec_def takeWhile_digits_unit [OF assms(1)] Let_def)
  with noinf not_hex_prefix [OF assms(1)] show ?thesis
    by (simp add: stod_def cs lead range_checked_nat [OF assms(2)])
qed

lemma duration_cast_nat:
  assumes "n * f < 2 ^ 53" "n < 2 ^ 53"
  shows "duration_cast_ms f (Some (of_nat n)) = Inr (int (n * f))"
proof -
  have "\<lfloor>if f = 1 then (of_nat n :: rat) else round_binary64 (of_nat n * of_nat f)\<rfloor> = int (n * f)"
    using round_binary64_nat [OF assms(1)] floor_of_nat [of "n * f", where 'a = rat] by simp
  moreover have "int (n * f) < 2 ^ 63"
    using assms(1) of_nat_less_iff [of "n * f" "2 ^ 53", where 'a = int] by simp
  ultimately show ?thesis by (simp add: duration_cast_ms_def)
qed

lemma convertDuration_nat:
  assumes "remove_spaces s = nat_to_string n @ u" "duration_factor u = Some f"
    "n * f < 2 ^ 53"
  shows "convertDurationWithUnit s = Inr (int (n * f))"
proof -
  have "0 < f" using assms(2) by (auto simp: duration_factor_def split: if_splits)
  then have "n * 1 \<le> n * f" by (intro mult_le_mono2) simp
  then have n: "n < 2 ^ 53" using assms(3) by linarith
  note stod_nat [OF assms(2) n]
  with assms duration_cast_nat [OF assms(3) n] show ?thesis
    by (auto simp: convertDurationWithUnit_def Let_def find_duration_unit [OF assms(2)]
        duration_factor_def split: if_splits)
qed

text \<open>
  C36. a whole number of milliseconds, seconds or minutes is converted exactly by the
  floating-point path of \<open>convertDurationWithUnit\<close>, as long as the result stays below
  \<open>2 ^ 53\<close> milliseconds: neither \<open>stod\<close> nor the scaled \<open>duration_cast\<close> rounds.
\<close>

theorem convertDuration_exact:
  assumes "remove_spaces s = nat_to_string n @ u" "duration_factor u = Some f"
    "n * f < 2 ^ 53"
  shows "convertDurationWithUnit s = Inr (int (n * f))"
  using assms by (rule convertDuration_nat)

theorem convertDuration_exact_witness:
  "convertDurationWithUnit '' 10 s'' = Inr 10000"
proof -
  have ten: "nat_to_string 10 = ''10''" by code_simp
  have "remove_spaces '' 10 s'' = nat_to_string 10 @ ''s''"
    by (simp add: ten remove_spaces_def char_eval)
  moreover have "duration_factor ''s'' = Some 1000" by (simp add: duration_factor_def)
  ultimately show ?thesis using convertDuration_exact [of "'' 10 s''" 10 "''s''" 1000] by simp
qed

subsection \<open>Log features\<close>

text \<open>What one \<open>FEATURE=LEVEL\<close> item denotes, if it is well formed.\<close>

definition feature_item :: "(string \<Rightarrow> LogFeature option) \<Rightarrow> string \<Rightarrow> (LogFeature \<times> LogLevel) option" where
  "feature_item enum_cast item =
     (case find_char (CHR ''='') item of
        None \<Rightarrow> None
      | Some pos \<Rightarrow>
          (case (parseLogLevel (drop (Suc pos) item), enum_cast (take pos item)) of
             (Inr level, Some f) \<Rightarrow> Some (f, level)
           | _ \<Rightarrow> None))"

lemma add_feature_item:
  "add_feature ec item m =
     (case feature_item ec item of None \<Rightarrow> m | Some (f, l) \<Rightarrow> emplace m f l)"
  by (cases "find_char (CHR ''='') item")
    (auto simp: add_feature_def feature_item_def parseLogFeature_def bind_result_def
      simp del: find_char_None split: option.split sum.split)

lemma emplace_apply: "emplace m k v k' = (if k' = k \<and> m k = None then Some v else m k')"
  by (auto simp: emplace_def split: option.split)

lemma fold_add_feature:
  "fold (add_feature ec) items m f =
     (case m f of Some l \<Rightarrow> Some l
      | None \<Rightarrow> map_of (List.map_filter (feature_item ec) items) f)"
  by (induction items arbitrary: m)
    (auto simp: add_feature_item emplace_apply map_filter_simps split: option.split)

text \<open>
  \<open>parseLogFeatures\<close> maps a feature to the level of its first well-formed
  \<open>FEATURE=LEVEL\<close> item; items without an equals sign, with an unknown feature or with
  an unknown level change nothing.
\<close>

lemma parseLogFeatures_first_item_wins:
  "parseLogFeatures ec s =
     map_of (List.map_filter (feature_item ec) (if s = [] then [] else split_on (CHR '','') s))"
  by (rule ext) (simp add: parseLogFeatures_def fold_add_feature map_filter_simps)

end
