(* ===== verification/Zval.thy ===== *)
theory Zval
  imports TextUtils Utf8
begin

section \<open>PHP values\<close>

text \<open>
  PHP's \<open>zval\<close> as far as the native code looks into it, and the operations of \<open>AutoZval\<close>
  (libphpbridge/code/AutoZval.h). Values are immutable here; what keeps
  them alive is the subject of \<open>ValueOwnership\<close>. Where the code changes one (an argument slot, a
  return value) the model replaces it. PHP references are assumed to be dereferenced. The engine, which runs
  methods of PHP objects and \<open>serialize\<close>, is a parameter; the getters that the exporters call
  are taken to be functions of the object.
\<close>

subsection \<open>Values and the engine\<close>

datatype double = Finite rat | Negative_Zero | Infinite bool | NaN

datatype zkey = Str_Key string | Int_Key int

text \<open>
  A string carries the engine's flag \<open>IS_STR_VALID_UTF8\<close>; an array its entries in order and
  \<open>nNextFreeElement\<close>; an object its class name and its handle.
\<close>

datatype zval =
  Undef
| Null
| Bool bool
| Long int
| Double double
| Str string bool
| Arr "(zkey \<times> zval) list" int
| Obj string nat
| Resource nat

record php_engine =
  call_user_method :: "zval \<Rightarrow> string \<Rightarrow> zval option"
  zend_read_property :: "zval \<Rightarrow> string \<Rightarrow> zval option"
  php_serialize :: "zval \<Rightarrow> zval option"
  next_free_start :: int
  scoper_prefix :: string

text \<open>A qualified class name: its parts with backslashes between them.\<close>

fun php_name :: "string list \<Rightarrow> string" where
  "php_name [] = []"
| "php_name [part] = part"
| "php_name (part # parts) = part @ CHR 0x5C # php_name parts"

subsection \<open>AutoZval\<close>

text \<open>The C++ types that \<open>set\<close> distinguishes.\<close>

datatype cpp_value = Cpp_Bool bool | Cpp_Float double | Cpp_String string | Cpp_Nullptr | Cpp_Integer int

text \<open>
  In \<open>set\<close> the type of the forwarding reference \<open>val\<close> is compared with \<open>bool\<close>; it is a reference
  type and never equal to it, so that a boolean takes the last branch and becomes a number.
\<close>

fun AutoZval_set :: "cpp_value \<Rightarrow> zval" where
  "AutoZval_set (Cpp_Float d) = Double d"
| "AutoZval_set (Cpp_String s) = Str s False"
| "AutoZval_set Cpp_Nullptr = Null"
| "AutoZval_set (Cpp_Integer n) = Long n"
| "AutoZval_set (Cpp_Bool b) = Long (of_bool b)"

definition AutoZval_of_pointer :: "zval option \<Rightarrow> zval" where
  "AutoZval_of_pointer zv = (case zv of None \<Rightarrow> Null | Some v \<Rightarrow> v)"

fun isNull :: "zval \<Rightarrow> bool" where "isNull Null = True" | "isNull _ = False"
fun isUndef :: "zval \<Rightarrow> bool" where "isUndef Undef = True" | "isUndef _ = False"
fun isString :: "zval \<Rightarrow> bool" where "isString (Str _ _) = True" | "isString _ = False"
fun isLong :: "zval \<Rightarrow> bool" where "isLong (Long _) = True" | "isLong _ = False"
fun isArray :: "zval \<Rightarrow> bool" where "isArray (Arr _ _) = True" | "isArray _ = False"
fun isObject :: "zval \<Rightarrow> bool" where "isObject (Obj _ _) = True" | "isObject _ = False"

definition callMethod :: "php_engine \<Rightarrow> zval \<Rightarrow> string \<Rightarrow> zval result" where
  "callMethod e v methodName =
     (if \<not> isObject v then Inl (Runtime_Error ''Can't call method on non-object'')
      else case call_user_method e v methodName of
             None \<Rightarrow> Inl (Runtime_Error ''Unable to call user method'')
           | Some r \<Rightarrow> Inr r)"

definition readProperty :: "php_engine \<Rightarrow> zval \<Rightarrow> string \<Rightarrow> zval result" where
  "readProperty e v propertyName =
     (if \<not> isObject v then Inl (Runtime_Error ''Can't get property from non-object'')
      else Inr (AutoZval_of_pointer (zend_read_property e v propertyName)))"

fun instanceOf :: "zval \<Rightarrow> string \<Rightarrow> bool result" where
  "instanceOf (Obj cls _) type = Inr (type = cls)"
| "instanceOf _ type = Inl (Runtime_Error ''Non-object'')"

definition assertObjectType :: "zval \<Rightarrow> string \<Rightarrow> zval result" where
  "assertObjectType v type =
     bind_result (instanceOf v type)
       (\<lambda>same. if same then Inr v else Inl (Runtime_Error ''Invalid object type''))"

fun getOptStringView :: "zval \<Rightarrow> string option" where
  "getOptStringView (Str s _) = Some s"
| "getOptStringView _ = None"

fun getStringView :: "zval \<Rightarrow> string result" where
  "getStringView (Str s _) = Inr s"
| "getStringView _ = Inl (Runtime_Error ''Not a string'')"

fun getOptLong :: "zval \<Rightarrow> int option" where
  "getOptLong (Long n) = Some n"
| "getOptLong _ = None"

text \<open>The conversion to an integer truncates; it is undefined where the result does not fit.\<close>

definition truncate_rat :: "rat \<Rightarrow> int" where
  "truncate_rat r = (if r < 0 then \<lceil>r\<rceil> else \<lfloor>r\<rfloor>)"

fun getNumberAsLong :: "zval \<Rightarrow> int result" where
  "getNumberAsLong (Long n) = Inr n"
| "getNumberAsLong (Double (Finite r)) =
     (if - (2 ^ 63) \<le> truncate_rat r \<and> truncate_rat r < 2 ^ 63 then Inr (truncate_rat r)
      else Inl (Undefined_Behaviour ''conversion to integer''))"
| "getNumberAsLong (Double Negative_Zero) = Inr 0"
| "getNumberAsLong (Double _) = Inl (Undefined_Behaviour ''conversion to integer'')"
| "getNumberAsLong _ = Inl (Runtime_Error ''Not a number'')"

fun getDouble :: "zval \<Rightarrow> double result" where
  "getDouble (Double d) = Inr d"
| "getDouble _ = Inl (Runtime_Error ''Not a double'')"

fun getArrayCount :: "zval \<Rightarrow> nat result" where
  "getArrayCount (Arr es _) = Inr (length es)"
| "getArrayCount _ = Inl (Undefined_Behaviour ''not an array'')"

fun getLong :: "zval \<Rightarrow> int result" where
  "getLong (Long n) = Inr n"
| "getLong _ = Inl (Runtime_Error ''Not a long'')"

fun getBoolean :: "zval \<Rightarrow> bool result" where
  "getBoolean (Bool b) = Inr b"
| "getBoolean _ = Inl (Runtime_Error ''Not a boolean'')"

definition double_of_long :: "int \<Rightarrow> double" where
  "double_of_long n = Finite (if n < 0 then - round_binary64 (of_int (- n)) else round_binary64 (of_int n))"

fun getNumberAsDouble :: "zval \<Rightarrow> double result" where
  "getNumberAsDouble (Double d) = Inr d"
| "getNumberAsDouble (Long n) = Inr (double_of_long n)"
| "getNumberAsDouble _ = Inl (Runtime_Error ''Not a number'')"

text \<open>
  The two iterators skip undefined slots; ranging over a value that is no array throws.
\<close>

fun array_values :: "zval \<Rightarrow> zval list result" where
  "array_values (Arr es _) = Inr (filter (\<lambda>v. v \<noteq> Undef) (map snd es))"
| "array_values _ = Inl (Runtime_Error ''Zval is not an array'')"

fun array_pairs :: "zval \<Rightarrow> (zkey \<times> zval) list result" where
  "array_pairs (Arr es _) = Inr (filter (\<lambda>(k, v). v \<noteq> Undef) es)"
| "array_pairs _ = Inl (Runtime_Error ''Zval is not an array'')"

definition arrayInit :: "php_engine \<Rightarrow> zval" where
  "arrayInit e = Arr [] (next_free_start e)"

text \<open>\<open>add_next_index_zval\<close>; a negative start value stands for index 0.\<close>

fun arrayAddNextWithRef :: "zval \<Rightarrow> zval \<Rightarrow> zval" where
  "arrayAddNextWithRef (Arr es nxt) v = (let i = max 0 nxt in Arr (es @ [(Int_Key i, v)]) (i + 1))"
| "arrayAddNextWithRef a v = a"

text \<open>Shorthands for the chains \<open>object.callMethod(name).getX()\<close>.\<close>

definition call_string :: "php_engine \<Rightarrow> zval \<Rightarrow> string \<Rightarrow> string result" where
  "call_string e v m = bind_result (callMethod e v m) getStringView"

definition call_long :: "php_engine \<Rightarrow> zval \<Rightarrow> string \<Rightarrow> int result" where
  "call_long e v m = bind_result (callMethod e v m) getLong"

definition call_bool :: "php_engine \<Rightarrow> zval \<Rightarrow> string \<Rightarrow> bool result" where
  "call_bool e v m = bind_result (callMethod e v m) getBoolean"

definition read_long :: "php_engine \<Rightarrow> zval \<Rightarrow> string \<Rightarrow> int result" where
  "read_long e v p = bind_result (readProperty e v p) getLong"

definition read_number :: "php_engine \<Rightarrow> zval \<Rightarrow> string \<Rightarrow> double result" where
  "read_number e v p = bind_result (readProperty e v p) getNumberAsDouble"

definition read_values :: "php_engine \<Rightarrow> zval \<Rightarrow> string \<Rightarrow> zval list result" where
  "read_values e v p = bind_result (readProperty e v p) array_values"

text \<open>A loop whose body may throw.\<close>

fun for_each :: "('a \<Rightarrow> 'b result) \<Rightarrow> 'a list \<Rightarrow> 'b list result" where
  "for_each f [] = Inr []"
| "for_each f (x # xs) = bind_result (f x) (\<lambda>y. bind_result (for_each f xs) (\<lambda>ys. Inr (y # ys)))"

subsection \<open>AttributesConverter\<close>

datatype AnyValue =
  Any_Unset
| Any_String string
| Any_Bytes string
| Any_Int int
| Any_Double double
| Any_Bool bool
| Any_Array "AnyValue list"
| Any_KvList "(string \<times> AnyValue) list"

definition bytes_of_string :: "string \<Rightarrow> byte list" where
  "bytes_of_string s = map (\<lambda>c. of_nat (char_code c)) s"

definition isSimpleArray :: "(zkey \<times> zval) list \<Rightarrow> int \<Rightarrow> bool" where
  "isSimpleArray es nNextFreeElement = (int (length es) = nNextFreeElement)"

fun convertAnyValue :: "zval \<Rightarrow> AnyValue"
  and convert_items :: "(zkey \<times> zval) list \<Rightarrow> AnyValue list"
  and convert_pairs :: "(zkey \<times> zval) list \<Rightarrow> (string \<times> AnyValue) list" where
  "convertAnyValue (Arr es nxt) =
     (if isSimpleArray es nxt then Any_Array (convert_items es) else Any_KvList (convert_pairs es))"
| "convertAnyValue (Long n) = Any_Int n"
| "convertAnyValue (Double d) = Any_Double d"
| "convertAnyValue (Bool b) = Any_Bool b"
| "convertAnyValue (Str s valid) =
     (if valid \<or> isUtf8 (bytes_of_string s) then Any_String s else Any_Bytes s)"
| "convertAnyValue Undef = Any_Unset"
| "convertAnyValue Null = Any_Unset"
| "convertAnyValue (Obj _ _) = Any_Unset"
| "convertAnyValue (Resource _) = Any_Unset"
| "convert_items [] = []"
| "convert_items ((k, v) # es) = (if v = Undef then convert_items es else convertAnyValue v # convert_items es)"
| "convert_pairs [] = []"
| "convert_pairs ((k, v) # es) =
     (case k of
        Str_Key key \<Rightarrow> if v = Undef then convert_pairs es else (key, convertAnyValue v) # convert_pairs es
      | Int_Key i \<Rightarrow> convert_pairs es)"

fun keyed_value :: "zkey \<times> zval \<Rightarrow> (string \<times> AnyValue) option" where
  "keyed_value (Str_Key key, v) = Some (key, convertAnyValue v)"
| "keyed_value (Int_Key i, v) = None"

definition convertAttributes :: "php_engine \<Rightarrow> zval \<Rightarrow> (string \<times> AnyValue) list result" where
  "convertAttributes e attributes =
     bind_result (callMethod e attributes ''toArray'') (\<lambda>attributesArray.
     bind_result (array_pairs attributesArray) (\<lambda>ps. Inr (List.map_filter keyed_value ps)))"

subsection \<open>Nothing is lost in plain values\<close>

text \<open>
  What a PHP programmer sees of a value: scalars, lists and string-keyed maps. An array
  counts as a list when its keys are \<open>0, 1, \<dots>\<close> and nothing was ever appended behind them, and as
  a map when all keys are strings and its next index is not by chance its size.
\<close>

datatype php_value =
  P_Null | P_Bool bool | P_Long int | P_Double double | P_String string
| P_List "php_value list" | P_Map "(string \<times> php_value) list"

fun list_keys :: "nat \<Rightarrow> (zkey \<times> zval) list \<Rightarrow> bool" where
  "list_keys n [] = True"
| "list_keys n ((k, v) # es) = (k = Int_Key (int n) \<and> list_keys (Suc n) es)"

fun plain_value :: "zval \<Rightarrow> php_value option"
  and plain_items :: "(zkey \<times> zval) list \<Rightarrow> php_value list option"
  and plain_pairs :: "(zkey \<times> zval) list \<Rightarrow> (string \<times> php_value) list option" where
  "plain_value (Arr es nxt) =
     (if list_keys 0 es \<and> nxt = int (length es) then map_option P_List (plain_items es)
      else if nxt \<noteq> int (length es) then map_option P_Map (plain_pairs es)
      else None)"
| "plain_value Null = Some P_Null"
| "plain_value (Long n) = Some (P_Long n)"
| "plain_value (Double d) = Some (P_Double d)"
| "plain_value (Bool b) = Some (P_Bool b)"
| "plain_value (Str s valid) = Some (P_String s)"
| "plain_value Undef = None"
| "plain_value (Obj _ _) = None"
| "plain_value (Resource _) = None"
| "plain_items [] = Some []"
| "plain_items ((k, v) # es) =
     (case (plain_value v, plain_items es) of (Some p, Some ps) \<Rightarrow> Some (p # ps) | _ \<Rightarrow> None)"
| "plain_pairs [] = Some []"
| "plain_pairs ((k, v) # es) =
     (case (k, plain_value v, plain_pairs es) of
        (Str_Key key, Some p, Some ps) \<Rightarrow> Some ((key, p) # ps) | _ \<Rightarrow> None)"

text \<open>What the receiver of a message reads.\<close>

fun any_to_php :: "AnyValue \<Rightarrow> php_value" where
  "any_to_php Any_Unset = P_Null"
| "any_to_php (Any_String s) = P_String s"
| "any_to_php (Any_Bytes s) = P_String s"
| "any_to_php (Any_Int n) = P_Long n"
| "any_to_php (Any_Double d) = P_Double d"
| "any_to_php (Any_Bool b) = P_Bool b"
| "any_to_php (Any_Array vs) = P_List (map any_to_php vs)"
| "any_to_php (Any_KvList kvs) = P_Map (map (\<lambda>(k, v). (k, any_to_php v)) kvs)"

lemma plain_not_Undef: "plain_value v = Some p \<Longrightarrow> v \<noteq> Undef"
  by (cases v) auto

lemma any_to_php_convert:
  "plain_value v = Some p \<Longrightarrow> any_to_php (convertAnyValue v) = p"
  "plain_items es = Some ps \<Longrightarrow> map any_to_php (convert_items es) = ps"
  "plain_pairs es = Some kps \<Longrightarrow> map (\<lambda>(k, v). (k, any_to_php v)) (convert_pairs es) = kps"
proof (induction v and es and es arbitrary: p and ps and kps rule: convertAnyValue_convert_items_convert_pairs.induct)
  case (1 es nxt)
  then show ?case by (auto simp: isSimpleArray_def split: if_splits)
next
  case (11 k v es)
  then show ?case by (auto split: option.splits dest: plain_not_Undef)
next
  case (13 k v es)
  then show ?case by (auto split: option.splits zkey.splits dest: plain_not_Undef)
qed auto



text \<open>
  The array that is left of a list after \<open>unset\<close> has a gap in its keys: it counts as a map,
  and a map keeps string keys only, so that all its values are dropped.
\<close>

lemma list_with_gap_is_emptied:
  "i \<noteq> j \<Longrightarrow> \<not> isSimpleArray [(Int_Key i, v), (Int_Key j, w)] nxt \<Longrightarrow>
     convertAnyValue (Arr [(Int_Key i, v), (Int_Key j, w)] nxt) = Any_KvList []"
  by simp

lemma bool_becomes_long: "AutoZval_set (Cpp_Bool b) \<noteq> Bool b" "isLong (AutoZval_set (Cpp_Bool b))"
  by simp_all

end
