(* ===== verification/HookStorage.thy ===== *)
theory HookStorage
  imports Zval
begin

unbundle bit_operations_syntax

section \<open>Registering instrumented functions\<close>

text \<open>
  Which PHP function has which hooks: the hash of class and function name
  (libphpbridge/code/Helpers.cpp), the three storages keyed by it
  (\<open>InstrumentedFunctionHooksStorage\<close>, \<open>InternalFunctionInstrumentationStorage\<close>,
  \<open>AttrHooksStorage\<close>) and \<open>instrumentFunction\<close>, which stores a pair of hooks and redirects a native
  function to \<open>internal_function_handler\<close>. The storages share one interface, a locale, and differ in
  what a second \<open>store\<close> under a key does.
\<close>

subsection \<open>The hash\<close>

fun hash_loop :: "zend_ulong \<Rightarrow> string \<Rightarrow> zend_ulong" where
  "hash_loop h [] = h"
| "hash_loop h (c # sv) = hash_loop (h * 33 + of_nat (char_code (char_tolower c))) sv"

definition lowercaseHash :: "string \<Rightarrow> zend_ulong" where
  "lowercaseHash sv = hash_loop 5381 sv OR 0x8000000000000000"

definition hashClassAndFunctionNameLowercase :: "string \<Rightarrow> string \<Rightarrow> zend_ulong" where
  "hashClassAndFunctionNameLowercase className functionName =
     (let classHash = if className = [] then 0 else lowercaseHash className;
          funcHash = lowercaseHash functionName
      in classHash XOR push_bit 1 funcHash)"

lemma hash_loop_lower [simp]: "hash_loop h (map char_tolower s) = hash_loop h s"
  by (induction s arbitrary: h) simp_all

lemma hash_lower [simp]:
  "hashClassAndFunctionNameLowercase (map char_tolower c) (map char_tolower f) = hashClassAndFunctionNameLowercase c f"
  by (simp add: hashClassAndFunctionNameLowercase_def lowercaseHash_def)

lemma hash_any_case:
  assumes "map char_tolower c = map char_tolower c'" "map char_tolower f = map char_tolower f'"
  shows "hashClassAndFunctionNameLowercase c f = hashClassAndFunctionNameLowercase c' f'"
  using hash_lower [of c f] hash_lower [of c' f'] assms by simp

lemma lowercaseHash_nonzero: "lowercaseHash s \<noteq> 0"
proof -
  have "bit (lowercaseHash s) 63" by (simp add: lowercaseHash_def bit_or_iff)
  then show ?thesis by auto
qed

subsection \<open>The storages\<close>

type_synonym hook = zval
type_synonym hook_pairs = "(hook \<times> hook) list"
type_synonym HooksStorage = "zend_ulong \<rightharpoonup> hook_pairs"

definition hooks_store :: "zend_ulong \<Rightarrow> hook_pairs \<Rightarrow> HooksStorage \<Rightarrow> HooksStorage" where
  "hooks_store key pairs st = st(key \<mapsto> (case st key of None \<Rightarrow> [] | Some l \<Rightarrow> l) @ pairs)"

definition hooks_storeFront :: "zend_ulong \<Rightarrow> hook_pairs \<Rightarrow> HooksStorage \<Rightarrow> HooksStorage" where
  "hooks_storeFront key pairs st = st(key \<mapsto> pairs @ (case st key of None \<Rightarrow> [] | Some l \<Rightarrow> l))"

definition hooks_find :: "HooksStorage \<Rightarrow> zend_ulong \<Rightarrow> hook_pairs option" where
  "hooks_find st key = st key"

definition hooks_clear :: "HooksStorage \<Rightarrow> HooksStorage" where
  "hooks_clear st = Map.empty"

text \<open>\<open>zif_handler\<close>s: the functions PHP came with, and the one that replaces them.\<close>

datatype handler = Native nat | Internal_Function_Handler

type_synonym InternalStorage = "zend_ulong \<rightharpoonup> handler"

definition internal_get :: "InternalStorage \<Rightarrow> zend_ulong \<Rightarrow> handler option" where
  "internal_get st key = st key"

definition internal_store :: "zend_ulong \<Rightarrow> handler \<Rightarrow> InternalStorage \<Rightarrow> InternalStorage" where
  "internal_store key h st = (case st key of None \<Rightarrow> st(key \<mapsto> h) | Some _ \<Rightarrow> st)"

definition internal_remove :: "zend_ulong \<Rightarrow> InternalStorage \<Rightarrow> InternalStorage" where
  "internal_remove key st = st(key := None)"

type_synonym 'm AttrStorage = "zend_ulong \<rightharpoonup> 'm"

definition attr_find :: "'m AttrStorage \<Rightarrow> zend_ulong \<Rightarrow> 'm option" where
  "attr_find st key = st key"

definition attr_store :: "zend_ulong \<Rightarrow> 'm \<Rightarrow> 'm AttrStorage \<Rightarrow> 'm AttrStorage" where
  "attr_store key m st = st(key \<mapsto> m)"

text \<open>The shared interface: what is found after a \<open>store\<close>, for this key and for the others.\<close>

locale keyed_storage =
  fixes find :: "'s \<Rightarrow> zend_ulong \<Rightarrow> 'v option"
    and store :: "zend_ulong \<Rightarrow> 'v \<Rightarrow> 's \<Rightarrow> 's"
    and combine :: "'v option \<Rightarrow> 'v \<Rightarrow> 'v"
  assumes find_store: "find (store k v s) k' = (if k = k' then Some (combine (find s k) v) else find s k')"
begin

lemma find_stored: "find (store k v s) k = Some (combine (find s k) v)"
  by (simp add: find_store)

lemma find_other: "k \<noteq> k' \<Longrightarrow> find (store k v s) k' = find s k'"
  by (simp add: find_store)

lemma find_none_iff: "find (store k v s) k' = None \<longleftrightarrow> k \<noteq> k' \<and> find s k' = None"
  by (simp add: find_store)

lemma find_stores:
  "find (fold (\<lambda>(k, v). store k v) kvs s) k = fold (\<lambda>(k', v) acc. if k' = k then Some (combine acc v) else acc) kvs (find s k)"
  by (induction kvs arbitrary: s) (auto simp: find_store)

end

locale keeping_storage = keyed_storage +
  assumes keeps: "combine (Some old) new = old"
begin

lemma first_one_stays: "find s k = Some v \<Longrightarrow> find (fold (\<lambda>(k, v). store k v) kvs s) k = Some v"
  by (induction kvs arbitrary: s) (auto simp: find_store keeps)

end

interpretation hooks: keyed_storage hooks_find hooks_store "\<lambda>old new. (case old of None \<Rightarrow> [] | Some l \<Rightarrow> l) @ new"
  by unfold_locales (simp add: hooks_find_def hooks_store_def)

interpretation hooks_front: keyed_storage hooks_find hooks_storeFront "\<lambda>old new. new @ (case old of None \<Rightarrow> [] | Some l \<Rightarrow> l)"
  by unfold_locales (simp add: hooks_find_def hooks_storeFront_def)

interpretation internals: keeping_storage internal_get internal_store "\<lambda>old new. case old of None \<Rightarrow> new | Some h \<Rightarrow> h"
  by unfold_locales (simp_all add: internal_get_def internal_store_def split: option.split)

interpretation attrs: keyed_storage attr_find attr_store "\<lambda>old new. new"
  by unfold_locales (simp add: attr_find_def attr_store_def)

subsection \<open>The engine's functions\<close>

text \<open>
  A function lives at an address; several tables may lead to it, since a class that inherits a
  native method shares it. Its scope is the class that declares it.
\<close>

record zfunc =
  zf_internal :: bool
  zf_scope :: "string option"
  zf_name :: string
  zf_handler :: handler

record instrumentation =
  fn_table :: "string \<rightharpoonup> nat"
  cls_table :: "string \<rightharpoonup> (string \<rightharpoonup> nat)"
  zfunctions :: "nat \<rightharpoonup> zfunc"
  hooksStorage :: HooksStorage
  internalStorage :: InternalStorage

definition resolve_function :: "string \<Rightarrow> string \<Rightarrow> instrumentation \<Rightarrow> nat option" where
  "resolve_function className functionName st =
     (if className = [] then fn_table st functionName
      else case cls_table st className of None \<Rightarrow> None | Some tbl \<Rightarrow> tbl functionName)"

text \<open>The hash \<open>getClassAndFunctionHashFromExecuteData\<close> computes from a called function.\<close>

definition zfunc_hash :: "zfunc \<Rightarrow> zend_ulong" where
  "zfunc_hash f = hashClassAndFunctionNameLowercase (case zf_scope f of None \<Rightarrow> [] | Some c \<Rightarrow> c) (zf_name f)"

definition instrumentFunction :: "string \<Rightarrow> string \<Rightarrow> zval option \<Rightarrow> zval option \<Rightarrow> instrumentation \<Rightarrow> bool \<times> instrumentation" where
  "instrumentFunction cName fName callableOnEntry callableOnExit st =
     (let className = map char_tolower cName;
          functionName = map char_tolower fName;
          hash = hashClassAndFunctionNameLowercase className functionName;
          st1 = st\<lparr>hooksStorage := hooks_store hash
                 [(AutoZval_of_pointer callableOnEntry, AutoZval_of_pointer callableOnExit)] (hooksStorage st)\<rparr>
      in (True,
          case resolve_function className functionName st1 of
            None \<Rightarrow> st1
          | Some a \<Rightarrow>
              (case zfunctions st1 a of
                 None \<Rightarrow> st1
               | Some f \<Rightarrow>
                   if zf_internal f \<and> zf_handler f \<noteq> Internal_Function_Handler
                   then st1\<lparr>internalStorage := internal_store hash (zf_handler f) (internalStorage st1),
                            zfunctions := (zfunctions st1)(a \<mapsto> f\<lparr>zf_handler := Internal_Function_Handler\<rparr>)\<rparr>
                   else st1)))"

subsection \<open>A registered hook is found whatever the letter case\<close>

lemma instrument_hooks:
  "hooks_find (hooksStorage (snd (instrumentFunction c f pre post st))) k =
     (if k = hashClassAndFunctionNameLowercase c f
      then Some ((case hooks_find (hooksStorage st) k of None \<Rightarrow> [] | Some l \<Rightarrow> l) @ [(AutoZval_of_pointer pre, AutoZval_of_pointer post)])
      else hooks_find (hooksStorage st) k)"
  by (auto simp: instrumentFunction_def Let_def hooks.find_store split: option.split)

text \<open>
  Hooks registered by \<open>instrumentFunction\<close> are found when the function is called, however class
  and function name are spelled at either place, and in the order in which they were
  registered; hooks of functions with another hash are not touched.
\<close>

lemma hooks_found_in_any_letter_case:
  assumes "map char_tolower c = map char_tolower c'" "map char_tolower f = map char_tolower f'"
    "hooks_find (hooksStorage st) (hashClassAndFunctionNameLowercase c' f') = None"
  shows "hooks_find (hooksStorage (snd (instrumentFunction c f pre2 post2 (snd (instrumentFunction c f pre post st)))))
      (hashClassAndFunctionNameLowercase c' f') =
    Some [(AutoZval_of_pointer pre, AutoZval_of_pointer post), (AutoZval_of_pointer pre2, AutoZval_of_pointer post2)]"
  using hash_any_case [OF assms(1,2)] assms(3) by (simp add: instrument_hooks)

lemma hooks_found_in_any_letter_case_witness:
  "hooks_find (hooksStorage (snd (instrumentFunction ''PDO'' ''Query'' None (Some (Long 2))
      (snd (instrumentFunction ''PDO'' ''Query'' (Some (Long 1)) None
        \<lparr>fn_table = Map.empty, cls_table = Map.empty, zfunctions = Map.empty,
         hooksStorage = Map.empty, internalStorage = Map.empty\<rparr>)))))
      (hashClassAndFunctionNameLowercase ''pdo'' ''queRy'') = Some [(Long 1, Null), (Null, Long 2)]"
proof -
  let ?st = "\<lparr>fn_table = Map.empty, cls_table = Map.empty, zfunctions = Map.empty,
    hooksStorage = Map.empty, internalStorage = Map.empty\<rparr>"
  have "map char_tolower ''PDO'' = map char_tolower ''pdo''" "map char_tolower ''Query'' = map char_tolower ''queRy''"
    by code_simp+
  from hooks_found_in_any_letter_case [OF this, of ?st None "Some (Long 2)" "Some (Long 1)" None]
  show ?thesis by (simp add: hooks_find_def AutoZval_of_pointer_def)
qed

subsection \<open>Native functions keep their handlers\<close>

text \<open>
  Each table leads only to functions that its class declares itself, and the functions of the
  tables have different hashes.
\<close>

definition declared_in_place :: "instrumentation \<Rightarrow> bool" where
  "declared_in_place st \<longleftrightarrow> (\<forall>c f a. resolve_function c f st = Some a \<longrightarrow>
     (\<exists>fn. zfunctions st a = Some fn \<and> zfunc_hash fn = hashClassAndFunctionNameLowercase c f))"

definition hashes_differ :: "instrumentation \<Rightarrow> bool" where
  "hashes_differ st \<longleftrightarrow> (\<forall>a b f g. zfunctions st a = Some f \<longrightarrow> zfunctions st b = Some g \<longrightarrow>
     zfunc_hash f = zfunc_hash g \<longrightarrow> a = b)"

text \<open>Against the functions PHP started with: a redirected one has its handler in the storage.\<close>

definition handlers_kept :: "(nat \<rightharpoonup> zfunc) \<Rightarrow> instrumentation \<Rightarrow> bool" where
  "handlers_kept start st \<longleftrightarrow> (\<forall>a. case start a of
       None \<Rightarrow> zfunctions st a = None
     | Some f \<Rightarrow> zfunctions st a = Some f \<and> internal_get (internalStorage st) (zfunc_hash f) = None
         \<or> zfunctions st a = Some (f\<lparr>zf_handler := Internal_Function_Handler\<rparr>) \<and> zf_internal f
             \<and> internal_get (internalStorage st) (zfunc_hash f) = Some (zf_handler f))"

definition native_start :: "instrumentation \<Rightarrow> bool" where
  "native_start st \<longleftrightarrow> declared_in_place st \<and> hashes_differ st \<and> internalStorage st = Map.empty \<and>
     (\<forall>a f. zfunctions st a = Some f \<longrightarrow> zf_handler f \<noteq> Internal_Function_Handler)"

type_synonym registration = "string \<times> string \<times> zval option \<times> zval option"

fun instrument_all :: "registration list \<Rightarrow> instrumentation \<Rightarrow> instrumentation" where
  "instrument_all [] st = st"
| "instrument_all ((c, f, pre, post) # regs) st = instrument_all regs (snd (instrumentFunction c f pre post st))"

lemma zfunc_hash_handler [simp]: "zfunc_hash (f\<lparr>zf_handler := h\<rparr>) = zfunc_hash f"
  by (simp add: zfunc_hash_def)

lemma instrument_tables [simp]:
  "fn_table (snd (instrumentFunction c f pre post st)) = fn_table st"
  "cls_table (snd (instrumentFunction c f pre post st)) = cls_table st"
  by (simp_all add: instrumentFunction_def Let_def split: option.split)

lemma resolve_instrument [simp]:
  "resolve_function c' f' (snd (instrumentFunction c f pre post st)) = resolve_function c' f' st"
  by (simp add: resolve_function_def)

lemma resolve_hooks [simp]: "resolve_function c f (st\<lparr>hooksStorage := h\<rparr>) = resolve_function c f st"
  by (simp add: resolve_function_def split: option.split)

text \<open>What one registration does to functions and handlers.\<close>

lemma instrument_effect:
  assumes "\<forall>c f a. resolve_function c f st = Some a \<longrightarrow> (\<exists>fn. zfunctions st a = Some fn \<and> zfunc_hash fn = hashClassAndFunctionNameLowercase c f)"
  shows "(zfunctions (snd (instrumentFunction c f pre post st)) = zfunctions st
      \<and> internalStorage (snd (instrumentFunction c f pre post st)) = internalStorage st)
    \<or> (\<exists>a fn. zfunctions st a = Some fn \<and> zf_internal fn \<and> zf_handler fn \<noteq> Internal_Function_Handler
      \<and> zfunctions (snd (instrumentFunction c f pre post st)) = (zfunctions st)(a \<mapsto> fn\<lparr>zf_handler := Internal_Function_Handler\<rparr>)
      \<and> internalStorage (snd (instrumentFunction c f pre post st)) = internal_store (zfunc_hash fn) (zf_handler fn) (internalStorage st))"
proof (cases "resolve_function (map char_tolower c) (map char_tolower f) st")
  case None
  then show ?thesis by (simp add: instrumentFunction_def Let_def)
next
  case (Some a)
  with assms obtain fn where "zfunctions st a = Some fn" "zfunc_hash fn = hashClassAndFunctionNameLowercase c f"
    by fastforce
  note fn = this
  show ?thesis
  proof (cases "zf_internal fn \<and> zf_handler fn \<noteq> Internal_Function_Handler")
    case True
    with Some fn show ?thesis
      by (simp add: instrumentFunction_def Let_def) (intro disjI2 exI [of _ a] exI [of _ fn], simp)
  next
    case False
    with Some fn show ?thesis by (auto simp: instrumentFunction_def Let_def)
  qed
qed

lemma handlers_kept_step:
  assumes start: "\<forall>a f. start a = Some f \<longrightarrow> zf_handler f \<noteq> Internal_Function_Handler"
    "\<forall>a b f g. start a = Some f \<longrightarrow> start b = Some g \<longrightarrow> zfunc_hash f = zfunc_hash g \<longrightarrow> a = b"
    and kept: "handlers_kept start st"
    and step: "zfunctions st a = Some fn" "zf_internal fn" "zf_handler fn \<noteq> Internal_Function_Handler"
      "zfunctions st' = (zfunctions st)(a \<mapsto> fn\<lparr>zf_handler := Internal_Function_Handler\<rparr>)"
      "internalStorage st' = internal_store (zfunc_hash fn) (zf_handler fn) (internalStorage st)"
  shows "handlers_kept start st'"
proof -
  from kept step(1,3) have a: "start a = Some fn" "internal_get (internalStorage st) (zfunc_hash fn) = None"
    unfolding handlers_kept_def by (auto split: option.splits dest!: spec [of _ a])
  show ?thesis unfolding handlers_kept_def
  proof
    fix b
    show "case start b of None \<Rightarrow> zfunctions st' b = None
      | Some f \<Rightarrow> zfunctions st' b = Some f \<and> internal_get (internalStorage st') (zfunc_hash f) = None
         \<or> zfunctions st' b = Some (f\<lparr>zf_handler := Internal_Function_Handler\<rparr>) \<and> zf_internal f
             \<and> internal_get (internalStorage st') (zfunc_hash f) = Some (zf_handler f)"
    proof (cases "b = a")
      case True
      with a step(2,4,5) show ?thesis by (simp add: internals.find_store)
    next
      case False
      have "zfunc_hash f \<noteq> zfunc_hash fn" if "start b = Some f" for f
        using start(2) a(1) that False by blast
      with kept False show ?thesis
        unfolding handlers_kept_def by (auto simp: step(4,5) internals.find_store split: option.splits dest!: spec [of _ b])
    qed
  qed
qed

lemma handlers_kept_hash:
  assumes "handlers_kept start st" "start a = Some f"
  shows "\<exists>f'. zfunctions st a = Some f' \<and> zfunc_hash f' = zfunc_hash f"
  using assms unfolding handlers_kept_def by (auto dest!: spec [of _ a])

lemma instrument_all_kept:
  assumes "native_start st0" "handlers_kept (zfunctions st0) st"
    "fn_table st = fn_table st0" "cls_table st = cls_table st0"
  shows "handlers_kept (zfunctions st0) (instrument_all regs st)"
  using assms(2-4)
proof (induction regs arbitrary: st)
  case Nil
  then show ?case by simp
next
  case (Cons reg regs)
  obtain c f pre post where reg: "reg = (c, f, pre, post)" by (rule prod_cases4)
  let ?st = "snd (instrumentFunction c f pre post st)"
  have res: "resolve_function c f st = resolve_function c f st0" for c f
    using Cons.prems(2,3) by (simp add: resolve_function_def)
  have "\<forall>c f a. resolve_function c f st = Some a \<longrightarrow> (\<exists>fn. zfunctions st a = Some fn \<and> zfunc_hash fn = hashClassAndFunctionNameLowercase c f)"
    using assms(1) handlers_kept_hash [OF Cons.prems(1)] unfolding native_start_def declared_in_place_def res by metis
  from instrument_effect [OF this, of c f pre post] have "handlers_kept (zfunctions st0) ?st"
  proof
    assume "zfunctions ?st = zfunctions st \<and> internalStorage ?st = internalStorage st"
    then have "handlers_kept (zfunctions st0) ?st = handlers_kept (zfunctions st0) st" unfolding handlers_kept_def by (simp cong: option.case_cong)
    with Cons.prems(1) show ?thesis by simp
  next
    assume "\<exists>a fn. zfunctions st a = Some fn \<and> zf_internal fn \<and> zf_handler fn \<noteq> Internal_Function_Handler
      \<and> zfunctions ?st = (zfunctions st)(a \<mapsto> fn\<lparr>zf_handler := Internal_Function_Handler\<rparr>)
      \<and> internalStorage ?st = internal_store (zfunc_hash fn) (zf_handler fn) (internalStorage st)"
    with handlers_kept_step [OF _ _ Cons.prems(1), of _ _ ?st] assms(1)
    show ?thesis unfolding native_start_def hashes_differ_def by blast
  qed
  from Cons.IH [OF this] Cons.prems(2,3) show ?case by (simp add: reg)
qed


definition demo_func :: zfunc where
  "demo_func = \<lparr>zf_internal = True, zf_scope = None, zf_name = ''strlen'', zf_handler = Native 7\<rparr>"

definition demo_start :: instrumentation where
  "demo_start = \<lparr>fn_table = [''strlen'' \<mapsto> 1], cls_table = Map.empty, zfunctions = [1 \<mapsto> demo_func],
     hooksStorage = Map.empty, internalStorage = Map.empty\<rparr>"


text \<open>
  Without that assumption the call of a native method may be swallowed: instrumenting it by the
  name of a class that inherits it redirects the shared function, but keeps its handler under
  the hash of the inheriting class.
\<close>

lemma inherited_method_loses_handler:
  assumes st: "cls_table st child = Some tbl" "tbl m = Some a" "zfunctions st a = Some f"
      "child \<noteq> []" "map char_tolower child = child" "map char_tolower m = m"
    and native: "zf_internal f" "zf_handler f \<noteq> Internal_Function_Handler"
    and hash: "zfunc_hash f \<noteq> hashClassAndFunctionNameLowercase child m" "internal_get (internalStorage st) (zfunc_hash f) = None"
  shows "let st' = snd (instrumentFunction child m pre post st) in
    zfunctions st' a = Some (f\<lparr>zf_handler := Internal_Function_Handler\<rparr>)
    \<and> internal_get (internalStorage st') (zfunc_hash f) = None"
  using assms by (simp add: instrumentFunction_def resolve_function_def Let_def internals.find_store)

end
