(* ===== verification/Instrumentation.thy ===== *)
theory Instrumentation
  imports HookStorage
begin

section \<open>Calling instrumented functions\<close>

text \<open>
  What happens around a call of an instrumented PHP function
  (extension/code/InternalFunctionInstrumentation.cpp, libphpbridge/code/PhpBridge.cpp and
  Exceptions.cpp): hooks before and after it, the arguments a hook may replace, the
  exception state that hooks must not disturb, and which user functions get observer
  handlers. PHP itself, which runs hooks and native functions, is a parameter: a hook's
  outcome is a function of its arguments. Hooks are assumed not to register hooks for
  the function that is being called.
\<close>

subsection \<open>Exception state\<close>

type_synonym object_id = nat
type_synonym opline = nat

text \<open>\<open>EG(...)\<close>; the current frame's opline exists when there is a current frame.\<close>

record eg_state =
  eg_exception :: "object_id option"
  eg_prev_exception :: "object_id option"
  eg_opline_before :: "opline option"
  eg_opline :: "opline option"

definition saveExceptionState :: "eg_state \<Rightarrow> eg_state \<times> eg_state" where
  "saveExceptionState eg = (eg, eg\<lparr>eg_exception := None, eg_prev_exception := None, eg_opline_before := None\<rparr>)"

definition restoreExceptionState :: "eg_state \<Rightarrow> eg_state \<Rightarrow> eg_state" where
  "restoreExceptionState saved eg =
     eg\<lparr>eg_exception := eg_exception saved, eg_prev_exception := eg_prev_exception saved,
        eg_opline_before := eg_opline_before saved,
        eg_opline := (if eg_opline eg \<noteq> None \<and> eg_opline saved \<noteq> None then eg_opline saved else eg_opline eg)\<rparr>"

lemma restored:
  "(eg_opline eg' = None) = (eg_opline eg = None) \<Longrightarrow> restoreExceptionState (fst (saveExceptionState eg)) eg' = eg"
  by (cases "eg_opline eg") (auto simp: restoreExceptionState_def saveExceptionState_def)

subsection \<open>Attributes in the source code of a function\<close>

record attr_arg =
  arg_name :: "string option"
  arg_value :: "zval option"

record zend_attribute =
  attr_lcname :: string
  attr_offset :: nat
  attr_args :: "attr_arg list"

record class_info =
  ci_name :: string
  ci_interfaces :: "string list"
  ci_properties :: "(string \<times> zend_attribute list option) list"

subsection \<open>Frames\<close>

text \<open>
  The slots of a frame are numbered from the first argument on: for a user function its
  \<open>last_var\<close> variables, the parameters first, then \<open>T\<close> temporaries, then the arguments
  beyond the declared ones; for a native function just its arguments.
\<close>

record call_frame =
  cf_internal :: bool
  cf_scope :: "class_info option"
  cf_static :: bool
  cf_called_scope :: string
  cf_this :: zval
  cf_name :: "string option"
  cf_filename :: string
  cf_line_start :: int
  cf_closure :: bool
  cf_attributes :: "zend_attribute list option"
  cf_params :: "string list"
  cf_last_var :: nat
  cf_T :: nat
  cf_num_args :: nat
  cf_slots :: "nat \<Rightarrow> zval"
  cf_return :: "zval option"

definition getClassAndFunctionName :: "call_frame \<Rightarrow> string \<times> string" where
  "getClassAndFunctionName fr =
     (case cf_scope fr of None \<Rightarrow> [] | Some ce \<Rightarrow> ci_name ce, case cf_name fr of None \<Rightarrow> [] | Some f \<Rightarrow> f)"

definition getClassAndFunctionHashFromExecuteData :: "call_frame \<Rightarrow> zend_ulong" where
  "getClassAndFunctionHashFromExecuteData fr =
     (if cf_name fr = None then 0
      else let (cls, func) = getClassAndFunctionName fr in hashClassAndFunctionNameLowercase cls func)"

definition or_null :: "zval \<Rightarrow> zval" where
  "or_null v = (if v = Undef then Null else v)"

text \<open>The slots that \<open>getCallArguments\<close> walks over, in order.\<close>

definition argument_slots :: "call_frame \<Rightarrow> nat list" where
  "argument_slots fr =
     (let arg_count = cf_num_args fr;
          first_extra_arg = (if cf_internal fr then arg_count else length (cf_params fr))
      in if arg_count > first_extra_arg
         then [0..<first_extra_arg] @ map (\<lambda>i. cf_last_var fr + cf_T fr + i) [0..<arg_count - first_extra_arg]
         else [0..<arg_count])"

definition packed_array :: "int \<Rightarrow> zval list \<Rightarrow> zval" where
  "packed_array empty_next vs =
     (if vs = [] then Arr [] empty_next
      else Arr (zip (map (\<lambda>i. Int_Key (int i)) [0..<length vs]) vs) (int (length vs)))"

definition frame_arguments :: "call_frame \<Rightarrow> zval list" where
  "frame_arguments fr = map (\<lambda>s. or_null (cf_slots fr s)) (argument_slots fr)"

definition getCallArguments :: "int \<Rightarrow> call_frame \<Rightarrow> zval" where
  "getCallArguments empty_next fr = packed_array empty_next (frame_arguments fr)"

definition getScopeNameOrThis :: "call_frame \<Rightarrow> zval" where
  "getScopeNameOrThis fr =
     (case cf_scope fr of
        None \<Rightarrow> Null
      | Some _ \<Rightarrow> if cf_static fr then Str (cf_called_scope fr) False else cf_this fr)"

definition getFunctionName :: "call_frame \<Rightarrow> zval" where
  "getFunctionName fr = (case cf_name fr of None \<Rightarrow> Str [] False | Some f \<Rightarrow> Str f False)"

definition getFunctionDeclaringScope :: "call_frame \<Rightarrow> zval" where
  "getFunctionDeclaringScope fr = (case cf_scope fr of None \<Rightarrow> Null | Some ce \<Rightarrow> Str (ci_name ce) False)"

definition getFunctionDeclarationFileName :: "call_frame \<Rightarrow> zval" where
  "getFunctionDeclarationFileName fr = (if cf_internal fr then Null else Str (cf_filename fr) False)"

definition getFunctionDeclarationLineNo :: "call_frame \<Rightarrow> zval" where
  "getFunctionDeclarationLineNo fr = (if cf_internal fr then Null else Long (cf_line_start fr))"

definition getFunctionReturnValue :: "zval option \<Rightarrow> zval" where
  "getFunctionReturnValue retval = (case retval of None \<Rightarrow> Null | Some v \<Rightarrow> or_null v)"

subsection \<open>Replacing arguments\<close>

fun position :: "string \<Rightarrow> nat \<Rightarrow> string list \<Rightarrow> nat option" where
  "position name i [] = None"
| "position name i (n # ns) = (if name = n then Some i else position name (Suc i) ns)"

definition getFunctionArgumentIndex :: "string \<Rightarrow> call_frame \<Rightarrow> nat result" where
  "getFunctionArgumentIndex name fr =
     (case position name 0 (cf_params fr) of
        None \<Rightarrow> Inl (Runtime_Error ''argument not found'')
      | Some i \<Rightarrow> Inr i)"

definition highest_index :: "(zkey \<times> zval) list \<Rightarrow> 32 word" where
  "highest_index es =
     fold (\<lambda>(k, v) m. case k of Int_Key i \<Rightarrow> max m (word_of_int i) | Str_Key _ \<Rightarrow> m) es 0"

definition new_slot :: "call_frame \<Rightarrow> nat \<Rightarrow> nat" where
  "new_slot fr i = (if cf_internal fr then i else i + cf_T fr)"

definition extend_frame :: "(zkey \<times> zval) list \<Rightarrow> call_frame \<Rightarrow> call_frame" where
  "extend_frame es fr =
     (let needed = highest_index es + 1; given = of_nat (cf_num_args fr) :: 32 word
      in if needed > given then
           let howManyArgsToAdd = unat (needed - given);
               added = map (\<lambda>idx. new_slot fr (cf_num_args fr + idx)) [0..<howManyArgsToAdd]
           in fr\<lparr>cf_slots := fold (\<lambda>s f. f(s := Undef)) added (cf_slots fr),
                 cf_num_args := cf_num_args fr + howManyArgsToAdd\<rparr>
         else fr)"

definition target_slot :: "nat \<Rightarrow> call_frame \<Rightarrow> nat \<Rightarrow> nat" where
  "target_slot requiredArgsCount fr argIndex =
     (if argIndex < requiredArgsCount then argIndex else new_slot fr argIndex)"

definition replace_argument :: "nat \<Rightarrow> zkey \<times> zval \<Rightarrow> call_frame \<Rightarrow> call_frame" where
  "replace_argument requiredArgsCount entry fr =
     (let put = (\<lambda>i. fr\<lparr>cf_slots := (cf_slots fr)(target_slot requiredArgsCount fr i := snd entry)\<rparr>)
      in case fst entry of
           Str_Key name \<Rightarrow> (case getFunctionArgumentIndex name fr of Inl _ \<Rightarrow> fr | Inr i \<Rightarrow> put i)
         | Int_Key i \<Rightarrow> put (unat (word_of_int i :: zend_ulong)))"

text \<open>\<open>same\<close> stands for \<open>zend_is_identical\<close>.\<close>

definition argsPostProcessing :: "(zval \<Rightarrow> zval \<Rightarrow> bool) \<Rightarrow> zval \<Rightarrow> zval \<Rightarrow> call_frame \<Rightarrow> call_frame" where
  "argsPostProcessing same functionArgs returnValue fr =
     (case returnValue of
        Arr es nxt \<Rightarrow>
          if same returnValue functionArgs then fr
          else let requiredArgsCount = (if cf_internal fr then cf_num_args fr else cf_last_var fr)
               in fold (replace_argument requiredArgsCount) es (extend_frame es fr)
      | _ \<Rightarrow> fr)"

subsection \<open>Hooks\<close>

text \<open>
  The engine: whether a value is callable, what a hook returns and which exception it leaves,
  whether it declares a return type other than void, how an exception looks as a value
  (null for \<open>exit\<close>), and what a native handler does to frame and exception state.
\<close>

record hook_engine =
  fcall_info_init :: "zval \<Rightarrow> bool"
  call_function :: "zval \<Rightarrow> zval list \<Rightarrow> (zval \<times> object_id option) option"
  declares_return :: "zval \<Rightarrow> bool"
  exception_value :: "object_id \<Rightarrow> zval"
  is_identical :: "zval \<Rightarrow> zval \<Rightarrow> bool"
  empty_next_free :: int
  native_handler :: "handler \<Rightarrow> call_frame \<times> eg_state \<Rightarrow> (call_frame \<times> eg_state) option"

definition getCurrentException :: "hook_engine \<Rightarrow> object_id option \<Rightarrow> zval" where
  "getCurrentException he e = (case e of None \<Rightarrow> Null | Some x \<Rightarrow> exception_value he x)"

definition callPreHook :: "hook_engine \<Rightarrow> zval \<Rightarrow> call_frame \<Rightarrow> (call_frame \<times> object_id option) result" where
  "callPreHook he prehook fr =
     (if \<not> fcall_info_init he prehook then Inl (Runtime_Error ''Unable to initialize prehook fcall'')
      else let args = getCallArguments (empty_next_free he) fr;
               parameters = [getScopeNameOrThis fr, args, getFunctionDeclaringScope fr, getFunctionName fr,
                 getFunctionDeclarationFileName fr, getFunctionDeclarationLineNo fr]
           in case call_function he prehook parameters of
                None \<Rightarrow> Inl (Runtime_Error ''Unable to call prehook function'')
              | Some (ret, exc) \<Rightarrow> Inr (argsPostProcessing (is_identical he) args ret fr, exc))"

definition callPostHook :: "hook_engine \<Rightarrow> zval \<Rightarrow> object_id option \<Rightarrow> call_frame \<Rightarrow> (call_frame \<times> object_id option) result" where
  "callPostHook he hook exc fr =
     (if \<not> fcall_info_init he hook then Inl (Runtime_Error ''Unable to initialize posthook fcall'')
      else let parameters = [getScopeNameOrThis fr, getCallArguments (empty_next_free he) fr,
                 getFunctionReturnValue (cf_return fr), getCurrentException he exc, getFunctionDeclaringScope fr,
                 getFunctionName fr, getFunctionDeclarationFileName fr, getFunctionDeclarationLineNo fr]
           in case call_function he hook parameters of
                None \<Rightarrow> Inl (Runtime_Error ''Unable to call posthook function'')
              | Some (hookRv, left) \<Rightarrow>
                  Inr (if hookRv = Undef \<or> cf_return fr = None \<or> \<not> declares_return he hook then fr
                       else fr\<lparr>cf_return := Some hookRv\<rparr>, left))"

text \<open>
  One turn of a loop over hooks: the exception state is set aside for the hook and put back,
  also when calling the hook throws in C++.
\<close>

definition with_saved_exception ::
    "(eg_state \<Rightarrow> (call_frame \<times> object_id option) result) \<Rightarrow> call_frame \<times> eg_state \<Rightarrow> call_frame \<times> eg_state" where
  "with_saved_exception body s =
     (let (saved, eg) = saveExceptionState (snd s)
      in case body saved of
           Inl _ \<Rightarrow> (fst s, restoreExceptionState saved eg)
         | Inr (fr, left) \<Rightarrow> (fr, restoreExceptionState saved (eg\<lparr>eg_exception := left\<rparr>)))"

definition run_prehook :: "hook_engine \<Rightarrow> zval \<Rightarrow> call_frame \<times> eg_state \<Rightarrow> call_frame \<times> eg_state" where
  "run_prehook he hook s = with_saved_exception (\<lambda>_. callPreHook he hook (fst s)) s"

definition run_posthook :: "hook_engine \<Rightarrow> zval \<Rightarrow> call_frame \<times> eg_state \<Rightarrow> call_frame \<times> eg_state" where
  "run_posthook he hook s = with_saved_exception (\<lambda>saved. callPostHook he hook (eg_exception saved) (fst s)) s"

subsection \<open>Native functions\<close>

datatype call_event = Pre zval | Post zval | Original handler | Missing_Handler | Missing_Hooks
| With_Span_Pre string "zval list" | With_Span_Post string "zval list"

definition set_hooks :: "zval list \<Rightarrow> zval list" where
  "set_hooks hooks = filter (\<lambda>h. \<not> isNull h \<and> \<not> isUndef h) hooks"

text \<open>\<open>None\<close> as the second component: the native function left by a bailout.\<close>

definition internal_function_handler ::
    "hook_engine \<Rightarrow> bool \<Rightarrow> HooksStorage \<Rightarrow> InternalStorage \<Rightarrow> call_frame \<times> eg_state
       \<Rightarrow> call_event list \<times> (call_frame \<times> eg_state) option" where
  "internal_function_handler he isFunctional hooks internals s =
     (let hash = getClassAndFunctionHashFromExecuteData (fst s)
      in case internal_get internals hash of
           None \<Rightarrow> ([Missing_Handler], Some s)
         | Some originalHandler \<Rightarrow>
             if \<not> isFunctional then ([Original originalHandler], native_handler he originalHandler s)
             else (case hooks_find hooks hash of
                 None \<Rightarrow> ([Original originalHandler, Missing_Hooks], native_handler he originalHandler s)
               | Some callbacks \<Rightarrow>
                   let pres = set_hooks (map fst callbacks);
                       posts = set_hooks (map snd callbacks)
                   in case native_handler he originalHandler (fold (run_prehook he) pres s) of
                        None \<Rightarrow> (map Pre pres @ [Original originalHandler], None)
                      | Some s' \<Rightarrow> (map Pre pres @ [Original originalHandler] @ map Post posts,
                          Some (fold (run_posthook he) posts s'))))"

subsection \<open>Hooks leave the exception state alone\<close>

lemma with_saved_exception_eg: "snd (with_saved_exception body s) = snd s"
proof -
  have "restoreExceptionState (fst (saveExceptionState eg)) ((snd (saveExceptionState eg))\<lparr>eg_exception := x\<rparr>) = eg" for eg x
    by (rule restored) (simp add: saveExceptionState_def)
  moreover have "restoreExceptionState (fst (saveExceptionState eg)) (snd (saveExceptionState eg)) = eg" for eg
    by (rule restored) (simp add: saveExceptionState_def)
  ultimately show ?thesis
    by (simp add: with_saved_exception_def saveExceptionState_def split: sum.split prod.split)
qed

lemma run_hook_eg [simp]: "snd (run_prehook he h s) = snd s" "snd (run_posthook he h s) = snd s"
  by (simp_all add: run_prehook_def run_posthook_def with_saved_exception_eg)

lemma fold_hooks_eg:
  "snd (fold (run_prehook he) hs s) = snd s" "snd (fold (run_posthook he) hs s) = snd s"
  by (induction hs arbitrary: s) simp_all

lemma fold_posthooks_pair: "fold (run_posthook he) hs s = (fr, eg) \<Longrightarrow> eg = snd s"
  using fold_hooks_eg(2) [of he hs s] by simp

text \<open>
  C18. A call of a redirected native function whose handler is known runs that handler exactly
  once, whatever the hooks do, throw or return: in a request that is instrumented, after the
  entry hooks and before the exit hooks that are set, in the order of their registration; in
  any other request without hooks. The exception the handler starts with is the one of
  the call, and the pending exception after the call is the one the handler left.
\<close>

theorem native_call_runs_once_between_hooks:
  assumes "internal_get internals (getClassAndFunctionHashFromExecuteData (fst s)) = Some h"
  shows "let callbacks = (case hooks_find hooks (getClassAndFunctionHashFromExecuteData (fst s)) of None \<Rightarrow> [] | Some l \<Rightarrow> if f then l else []);
      pres = set_hooks (map fst callbacks); posts = set_hooks (map snd callbacks);
      (events, after) = internal_function_handler he f hooks internals s;
      begun = fold (run_prehook he) pres s
    in snd begun = snd s
      \<and> filter (\<lambda>e. e \<noteq> Missing_Hooks) events = map Pre pres @ [Original h] @ (if after = None then [] else map Post posts)
      \<and> (after = None \<longleftrightarrow> native_handler he h begun = None)
      \<and> (\<forall>done finished. native_handler he h begun = Some done \<longrightarrow> after = Some finished \<longrightarrow> snd finished = snd done)"
  using assms
  by (auto simp: internal_function_handler_def Let_def fold_hooks_eg set_hooks_def filter_map comp_def
      split: option.split dest: fold_posthooks_pair)

text \<open>A frame of a native function with two arguments, and an engine whose hooks return nothing.\<close>

definition demo_frame :: call_frame where
  "demo_frame = \<lparr>cf_internal = True, cf_scope = None, cf_static = False, cf_called_scope = [], cf_this = Null,
     cf_name = Some ''strlen'', cf_filename = [], cf_line_start = 0, cf_closure = False, cf_attributes = None,
     cf_params = [''s''], cf_last_var = 0, cf_T = 0, cf_num_args = 2, cf_slots = (\<lambda>i. Long (int i)), cf_return = Some Null\<rparr>"

definition demo_eg :: eg_state where
  "demo_eg = \<lparr>eg_exception = Some 3, eg_prev_exception = None, eg_opline_before = None, eg_opline = Some 1\<rparr>"

definition demo_hooks :: hook_engine where
  "demo_hooks = \<lparr>fcall_info_init = (\<lambda>_. True), call_function = (\<lambda>_ _. Some (Null, Some 8)), declares_return = (\<lambda>_. False),
     exception_value = (\<lambda>_. Null), is_identical = (=), empty_next_free = 0,
     native_handler = (\<lambda>h s. Some s)\<rparr>"

theorem native_call_runs_once_between_hooks_witness:
  "let k = getClassAndFunctionHashFromExecuteData demo_frame
   in fst (internal_function_handler demo_hooks True [k \<mapsto> [(Long 1, Null), (Long 2, Long 3)]] [k \<mapsto> Native 7] (demo_frame, demo_eg))
     = [Pre (Long 1), Pre (Long 2), Original (Native 7), Post (Long 3)]"
proof -
  let ?k = "getClassAndFunctionHashFromExecuteData demo_frame"
  let ?r = "internal_function_handler demo_hooks True [?k \<mapsto> [(Long 1, Null), (Long 2, Long 3)]] [?k \<mapsto> Native 7] (demo_frame, demo_eg)"
  have "snd ?r \<noteq> None" "Missing_Hooks \<notin> set (fst ?r)"
    by (auto simp: internal_function_handler_def internal_get_def hooks_find_def demo_hooks_def Let_def)
  moreover have "native_handler demo_hooks h s = Some s" for h s by (simp add: demo_hooks_def)
  moreover from calculation(2) have "filter (\<lambda>e. e \<noteq> Missing_Hooks) (fst ?r) = fst ?r" by (auto simp: filter_id_conv)
  ultimately show ?thesis
    using native_call_runs_once_between_hooks
      [where internals = "[?k \<mapsto> Native 7]" and s = "(demo_frame, demo_eg)" and h = "Native 7"
        and hooks = "[?k \<mapsto> [(Long 1, Null), (Long 2, Long 3)]]" and f = True and he = demo_hooks]
    by (simp add: internal_get_def hooks_find_def set_hooks_def Let_def split: prod.splits)
qed

subsection \<open>Replaced arguments arrive\<close>

text \<open>
  Where the engine keeps argument \<open>i\<close> of a frame, for frames whose user function has no
  variables beside its parameters; those not given yet are undefined.
\<close>

definition only_parameters :: "call_frame \<Rightarrow> bool" where
  "only_parameters fr \<longleftrightarrow> cf_internal fr \<or> cf_last_var fr = length (cf_params fr)
     \<and> (\<forall>i. cf_num_args fr \<le> i \<longrightarrow> i < cf_last_var fr \<longrightarrow> cf_slots fr i = Undef)"

definition engine_slot :: "call_frame \<Rightarrow> nat \<Rightarrow> nat" where
  "engine_slot fr i = (if cf_internal fr \<or> i < length (cf_params fr) then i else i + cf_T fr)"

text \<open>A replacement by position: distinct indices, each a 31-bit number.\<close>

definition positional :: "(zkey \<times> zval) list \<Rightarrow> bool" where
  "positional es \<longleftrightarrow> distinct (map fst es) \<and> (\<forall>(k, v) \<in> set es. \<exists>i. k = Int_Key (int i) \<and> i < 2 ^ 31)"

definition replaced_arguments :: "(zkey \<times> zval) list \<Rightarrow> zval list \<Rightarrow> nat \<Rightarrow> zval list" where
  "replaced_arguments es args n =
     map (\<lambda>i. case map_of es (Int_Key (int i)) of Some v \<Rightarrow> or_null v
               | None \<Rightarrow> if i < length args then args ! i else Null) [0..<n]"

lemma length_argument_slots [simp]: "length (argument_slots fr) = cf_num_args fr"
  by (simp add: argument_slots_def Let_def)

lemma argument_slots_nth:
  assumes "cf_internal fr \<or> cf_last_var fr = length (cf_params fr)" "i < cf_num_args fr"
  shows "argument_slots fr ! i = engine_slot fr i"
  using assms by (auto simp: argument_slots_def engine_slot_def Let_def nth_append)

lemma frame_arguments_eq:
  assumes "cf_internal fr \<or> cf_last_var fr = length (cf_params fr)"
  shows "frame_arguments fr = map (\<lambda>i. or_null (cf_slots fr (engine_slot fr i))) [0..<cf_num_args fr]"
  by (rule nth_equalityI) (simp_all add: frame_arguments_def argument_slots_nth [OF assms])

lemma replace_frame [simp]:
  "cf_internal (replace_argument n x fr) = cf_internal fr" "cf_params (replace_argument n x fr) = cf_params fr"
  "cf_last_var (replace_argument n x fr) = cf_last_var fr" "cf_num_args (replace_argument n x fr) = cf_num_args fr"
  "cf_T (replace_argument n x fr) = cf_T fr"
  by (simp_all add: replace_argument_def Let_def split: zkey.split sum.split)

lemma fold_replace_frame [simp]:
  "cf_internal (fold (replace_argument n) es fr) = cf_internal fr" "cf_params (fold (replace_argument n) es fr) = cf_params fr"
  "cf_last_var (fold (replace_argument n) es fr) = cf_last_var fr" "cf_num_args (fold (replace_argument n) es fr) = cf_num_args fr"
  "cf_T (fold (replace_argument n) es fr) = cf_T fr"
  by (induction es arbitrary: fr) simp_all

lemma extend_frame_static [simp]:
  "cf_internal (extend_frame es fr) = cf_internal fr" "cf_params (extend_frame es fr) = cf_params fr"
  "cf_last_var (extend_frame es fr) = cf_last_var fr" "cf_T (extend_frame es fr) = cf_T fr"
  by (simp_all add: extend_frame_def Let_def)

lemma engine_slot_inject: "engine_slot fr i = engine_slot fr j \<longleftrightarrow> i = j"
  by (auto simp: engine_slot_def split: if_splits)

lemma target_slot_eq:
  assumes "only_parameters fr" "n = (if cf_internal fr then m else cf_last_var fr)"
  shows "target_slot n fr i = engine_slot fr i"
  using assms by (auto simp: target_slot_def engine_slot_def new_slot_def only_parameters_def)

text \<open>Writing the entries one after the other.\<close>

lemma fold_replace_slots:
  assumes "positional es" "\<And>i. target_slot n fr i = engine_slot fr i"
  shows "cf_slots (fold (replace_argument n) es fr) (engine_slot fr i) =
    (case map_of es (Int_Key (int i)) of Some v \<Rightarrow> v | None \<Rightarrow> cf_slots fr (engine_slot fr i))"
  using assms
proof (induction es arbitrary: fr)
  case Nil
  then show ?case by simp
next
  case (Cons x es)
  from Cons.prems(1) obtain j v where x: "x = (Int_Key (int j), v)" "j < 2 ^ 31" by (auto simp: positional_def)
  have j: "unat (word_of_int (int j) :: zend_ulong) = j" using x(2) by (simp add: unsigned_of_nat take_bit_nat_eq_self)
  let ?fr = "replace_argument n x fr"
  have same: "target_slot n ?fr k = target_slot n fr k" "engine_slot ?fr k = engine_slot fr k" for k
    by (simp_all add: target_slot_def engine_slot_def new_slot_def)
  have slots: "cf_slots ?fr = (cf_slots fr)(engine_slot fr j := v)"
    using Cons.prems(2) j by (simp add: replace_argument_def x(1) Let_def)
  have "positional es" using Cons.prems(1) by (auto simp: positional_def)
  from Cons.IH [OF this, of ?fr] Cons.prems(2) same
  have "cf_slots (fold (replace_argument n) es ?fr) (engine_slot fr i) =
    (case map_of es (Int_Key (int i)) of Some w \<Rightarrow> w | None \<Rightarrow> cf_slots ?fr (engine_slot fr i))"
    by (simp cong: option.case_cong)
  moreover have "map_of es (Int_Key (int i)) = None" if "i = j"
    using Cons.prems(1) that by (auto simp: positional_def x(1) map_of_eq_None_iff)
  moreover have "map_of (x # es) (Int_Key (int i)) = (if i = j then Some v else map_of es (Int_Key (int i)))"
    by (auto simp: x(1))
  moreover have "fold (replace_argument n) (x # es) fr = fold (replace_argument n) es ?fr" by simp
  ultimately show ?case
    unfolding slots by (simp only: fun_upd_apply engine_slot_inject) (simp split: option.split)
qed

lemma highest_bound:
  assumes "positional es" "unat m < 2 ^ 31"
  defines "h \<equiv> fold (\<lambda>(k, v) m. case k of Int_Key i \<Rightarrow> max m (word_of_int i :: 32 word) | Str_Key _ \<Rightarrow> m) es m"
  shows "unat h < 2 ^ 31 \<and> unat m \<le> unat h \<and> (\<forall>i. Int_Key (int i) \<in> fst ` set es \<longrightarrow> i \<le> unat h)"
  using assms(1,2) unfolding h_def
proof (induction es arbitrary: m)
  case Nil
  then show ?case by simp
next
  case (Cons x es)
  from Cons.prems obtain j v where x: "x = (Int_Key (int j), v)" "j < 2 ^ 31" by (auto simp: positional_def)
  have j: "unat (word_of_int (int j) :: 32 word) = j" using x(2) by (simp add: unsigned_of_nat take_bit_nat_eq_self)
  then have m: "unat (max m (word_of_int (int j)) :: 32 word) = max (unat m) j"
    by (auto simp: max_def word_le_nat_alt)
  have "positional es" using Cons.prems(1) by (auto simp: positional_def)
  from Cons.IH [OF this, of "max m (word_of_int (int j))"] m x(2) Cons.prems(2)
  show ?case by (auto simp: x(1))
qed

lemma fold_undef: "fold (\<lambda>s f. f(s := Undef)) ss f = (\<lambda>s. if s \<in> set ss then Undef else f s)"
  by (induction ss arbitrary: f) auto

lemma extend_frame_num_args:
  assumes "positional es" "cf_num_args fr < 2 ^ 31"
  shows "cf_num_args (extend_frame es fr) = max (cf_num_args fr) (Suc (unat (highest_index es)))"
proof -
  have h: "unat (highest_index es) < 2 ^ 31"
    using highest_bound [OF assms(1), of 0] by (simp add: highest_index_def)
  then have "unat (highest_index es + 1) = Suc (unat (highest_index es))"
    by (simp add: unat_plus_if')
  moreover have "unat (of_nat (cf_num_args fr) :: 32 word) = cf_num_args fr"
    using assms(2) by (simp add: unsigned_of_nat take_bit_nat_eq_self)
  ultimately show ?thesis
    by (auto simp: extend_frame_def Let_def word_less_nat_alt unat_sub_if_size max_def)
qed

lemma image_shift: "(\<lambda>idx. f (n + idx)) ` {0..<k} = f ` {n..<n + (k::nat)}"
proof -
  have "{n..<n + k} = (\<lambda>idx. n + idx) ` {0..<k}"
    using image_add_atLeastLessThan [of n 0 k] by (simp add: add.commute)
  then show ?thesis by (simp only: image_image)
qed

lemma extend_frame_slots:
  assumes "only_parameters fr" "i < cf_num_args (extend_frame es fr)"
  shows "cf_slots (extend_frame es fr) (engine_slot fr i) =
    (if i < cf_num_args fr then cf_slots fr (engine_slot fr i) else Undef)"
proof (cases "highest_index es + 1 > (of_nat (cf_num_args fr) :: 32 word)")
  case False
  then show ?thesis using assms(2) by (simp add: extend_frame_def Let_def)
next
  case True
  let ?n = "cf_num_args fr" and ?m = "cf_num_args (extend_frame es fr)"
  let ?added = "{new_slot fr j | j. ?n \<le> j \<and> j < ?m}"
  have slots: "cf_slots (extend_frame es fr) s = (if s \<in> ?added then Undef else cf_slots fr s)" for s
  proof -
    let ?k = "unat (highest_index es + 1 - of_nat ?n :: 32 word)"
    have m: "?m = ?n + ?k" using True by (simp add: extend_frame_def Let_def)
    have "(\<lambda>idx. new_slot fr (?n + idx)) ` {0..<?k} = new_slot fr ` {?n..<?n + ?k}"
      by (rule image_shift)
    also have "\<dots> = ?added" unfolding m by auto
    finally have "s \<in> (\<lambda>idx. new_slot fr (?n + idx)) ` {0..<?k} \<longleftrightarrow> s \<in> ?added" by simp
    moreover have "cf_slots (extend_frame es fr) = fold (\<lambda>s f. f(s := Undef)) (map (\<lambda>idx. new_slot fr (?n + idx)) [0..<?k]) (cf_slots fr)"
      using True by (simp only: extend_frame_def Let_def if_True) simp
    then have "cf_slots (extend_frame es fr) s = (if s \<in> (\<lambda>idx. new_slot fr (?n + idx)) ` {0..<?k} then Undef else cf_slots fr s)"
      by (simp only: fold_undef set_map set_upt)
    ultimately show ?thesis by simp
  qed
  have not_added: "engine_slot fr i \<notin> ?added" if "i < ?n"
    using that by (auto simp: engine_slot_def new_slot_def split: if_splits)
  have added: "engine_slot fr i \<in> ?added \<or> cf_slots fr (engine_slot fr i) = Undef" if "\<not> i < ?n"
    using that assms by (auto simp: engine_slot_def new_slot_def only_parameters_def)
  show ?thesis using not_added added by (auto simp: slots)
qed

lemma args_post_processing:
  assumes "only_parameters fr" "cf_num_args fr < 2 ^ 31" "positional es" "\<not> same (Arr es nxt) args"
  defines "fr' \<equiv> argsPostProcessing same args (Arr es nxt) fr"
  shows "cf_num_args fr' = max (cf_num_args fr) (Suc (unat (highest_index es)))"
    "frame_arguments fr' = replaced_arguments es (frame_arguments fr) (cf_num_args fr')"
    "\<forall>i. Int_Key (int i) \<in> fst ` set es \<longrightarrow> i < cf_num_args fr'"
proof -
  let ?n = "if cf_internal fr then cf_num_args fr else cf_last_var fr" and ?ext = "extend_frame es fr"
  have fr': "fr' = fold (replace_argument ?n) es ?ext" by (simp add: fr'_def argsPostProcessing_def assms(4))
  have lv: "cf_internal fr \<or> cf_last_var fr = length (cf_params fr)" using assms(1) by (auto simp: only_parameters_def)
  show num: "cf_num_args fr' = max (cf_num_args fr) (Suc (unat (highest_index es)))"
    using extend_frame_num_args [OF assms(3,2)] by (simp add: fr')
  show "\<forall>i. Int_Key (int i) \<in> fst ` set es \<longrightarrow> i < cf_num_args fr'"
    using highest_bound [OF assms(3), of 0] by (auto simp: num highest_index_def le_imp_less_Suc less_max_iff_disj)
  have es: "engine_slot fr' = engine_slot fr" "engine_slot ?ext = engine_slot fr" by (auto simp: fr' engine_slot_def)
  have "target_slot ?n ?ext i = engine_slot ?ext i" for i
    using lv by (auto simp: target_slot_def engine_slot_def new_slot_def)
  from fold_replace_slots [OF assms(3) this] have "cf_slots fr' (engine_slot fr i) =
      (case map_of es (Int_Key (int i)) of Some v \<Rightarrow> v | None \<Rightarrow> cf_slots ?ext (engine_slot fr i))" for i
    unfolding fr' es .
  moreover have "cf_slots ?ext (engine_slot fr i) = (if i < cf_num_args fr then cf_slots fr (engine_slot fr i) else Undef)"
    if "i < cf_num_args fr'" for i
    using extend_frame_slots [OF assms(1), of i es] that by (simp add: fr')
  ultimately have arg: "or_null (cf_slots fr' (engine_slot fr i)) =
      (case map_of es (Int_Key (int i)) of Some v \<Rightarrow> or_null v
        | None \<Rightarrow> if i < cf_num_args fr then or_null (cf_slots fr (engine_slot fr i)) else Null)"
    if "i < cf_num_args fr'" for i
    using that by (simp add: or_null_def split: option.split)
  have "frame_arguments fr' = map (\<lambda>i. or_null (cf_slots fr' (engine_slot fr i))) [0..<cf_num_args fr']"
    using frame_arguments_eq [of fr'] lv by (simp add: fr' es(2) [symmetric] engine_slot_def)
  then show "frame_arguments fr' = replaced_arguments es (frame_arguments fr) (cf_num_args fr')"
    unfolding replaced_arguments_def frame_arguments_eq [OF lv] using arg by (simp cong: option.case_cong)
qed

text \<open>
  C25. If an entry hook returns an array of arguments by position, different from the one it was
  given, the instrumented function is called with them: each returned element is the argument at
  its index, the others stay, gaps between the given and the new arguments read as
  null, and there are as many arguments as needed. This holds for native functions and for user
  functions that have no variables beside their parameters.
\<close>

theorem hook_arguments_are_used:
  assumes "only_parameters fr" "cf_num_args fr < 2 ^ 31" "positional es"
    "fcall_info_init he hook" "\<not> is_identical he (Arr es nxt) (getCallArguments (empty_next_free he) fr)"
    "\<forall>ps. call_function he hook ps = Some (Arr es nxt, exc)"
  shows "\<exists>fr'. callPreHook he hook fr = Inr (fr', exc)
    \<and> frame_arguments fr' = replaced_arguments es (frame_arguments fr) (cf_num_args fr')
    \<and> cf_num_args fr \<le> cf_num_args fr' \<and> (\<forall>i. Int_Key (int i) \<in> fst ` set es \<longrightarrow> i < cf_num_args fr')"
proof -
  let ?fr = "argsPostProcessing (is_identical he) (getCallArguments (empty_next_free he) fr) (Arr es nxt) fr"
  have "callPreHook he hook fr = Inr (?fr, exc)" using assms(4,6) by (simp add: callPreHook_def Let_def)
  with args_post_processing [OF assms(1-3), of "is_identical he" nxt, OF assms(5)] show ?thesis by auto
qed

theorem hook_arguments_are_used_witness:
  "\<exists>fr'. callPreHook (demo_hooks\<lparr>call_function := (\<lambda>_ _. Some (Arr [(Int_Key 3, Bool True)] 4, None))\<rparr>) (Long 1) demo_frame = Inr (fr', None)
    \<and> frame_arguments fr' = [Long 0, Long 1, Null, Bool True]"
proof -
  let ?he = "demo_hooks\<lparr>call_function := (\<lambda>_ _. Some (Arr [(Int_Key 3, Bool True)] 4, None))\<rparr>"
  have args: "frame_arguments demo_frame = [Long 0, Long 1]"
    by (simp add: frame_arguments_def argument_slots_def demo_frame_def or_null_def Let_def upt_rec)
  have "only_parameters demo_frame" "cf_num_args demo_frame < 2 ^ 31" "positional [(Int_Key 3, Bool True)]"
    by (simp_all add: only_parameters_def demo_frame_def positional_def)
  from hook_arguments_are_used [OF this, of ?he "Long 1" 4 None] args
  obtain fr' where fr': "callPreHook ?he (Long 1) demo_frame = Inr (fr', None)"
    "frame_arguments fr' = replaced_arguments [(Int_Key 3, Bool True)] [Long 0, Long 1] (cf_num_args fr')"
    by (auto simp: demo_hooks_def getCallArguments_def packed_array_def)
  let ?args = "getCallArguments 0 demo_frame"
  have same: "Arr [(Int_Key 3, Bool True)] 4 \<noteq> ?args"
    by (simp add: args getCallArguments_def packed_array_def)
  have "fr' = argsPostProcessing (=) ?args (Arr [(Int_Key 3, Bool True)] 4) demo_frame"
    using fr'(1) by (simp add: callPreHook_def demo_hooks_def Let_def)
  with same have "cf_num_args fr' = 4"
    by (simp add: argsPostProcessing_def Let_def extend_frame_def highest_index_def) (simp add: demo_frame_def)
  with fr' show ?thesis by (auto simp: replaced_arguments_def or_null_def upt_rec)
qed

text \<open>
  With further variables the code writes an argument beyond the declared ones into the slot of a local
  variable of the function, and the call does not see it.
\<close>

lemma extra_argument_lands_in_variable:
  assumes "\<not> cf_internal fr" "length (cf_params fr) \<le> i" "i < cf_last_var fr" "i < cf_num_args fr" "i < 2 ^ 31"
    "cf_num_args fr < 2 ^ 31" "\<not> same (Arr [(Int_Key (int i), v)] nxt) args"
  defines "fr' \<equiv> argsPostProcessing same args (Arr [(Int_Key (int i), v)] nxt) fr"
  shows "cf_slots fr' i = v" "frame_arguments fr' = frame_arguments fr"
proof -
  have u: "unat (word_of_int (int i) :: 32 word) = i" "unat (word_of_int (int i) :: zend_ulong) = i"
    "unat (of_nat (cf_num_args fr) :: 32 word) = cf_num_args fr"
    using assms(5,6) by (simp_all add: unsigned_of_nat take_bit_nat_eq_self)
  have "\<not> highest_index [(Int_Key (int i), v)] + 1 > (of_nat (cf_num_args fr) :: 32 word)"
    using u assms(4,5) by (simp add: highest_index_def word_less_nat_alt unat_plus_if')
  then have fr': "fr' = fr\<lparr>cf_slots := (cf_slots fr)(i := v)\<rparr>"
    using assms(1,3,7) u by (simp add: fr'_def argsPostProcessing_def extend_frame_def replace_argument_def target_slot_def Let_def)
  then show "cf_slots fr' i = v" by simp
  have "i \<notin> set (argument_slots fr)"
    using assms(1-4) by (auto simp: argument_slots_def Let_def)
  moreover have "argument_slots fr' = argument_slots fr" unfolding fr' argument_slots_def by (simp add: Let_def)
  ultimately show "frame_arguments fr' = frame_arguments fr" by (simp add: frame_arguments_def fr')
qed

end
