(* ===== verification/WithSpan.thy ===== *)
theory WithSpan
  imports Instrumentation "HOL-Library.Sublist"
begin

section \<open>Observed user functions and the WithSpan attribute\<close>

text \<open>
  User functions are instrumented through the engine's observer interface
  (extension/code/InternalFunctionInstrumentation.cpp): on the first call of a function in a
  request \<open>registerObserverHandlers\<close> decides whether a begin and an end handler are installed,
  from the hooks stored for the function or for an interface of its class, the debug hooks
  and the attribute \<open>WithSpan\<close>, whose contents
  libphpbridge/code/WithSpanAttributes.cpp reads. The handlers find the hooks again by the
  hash of the function. The engine's access to attributes, properties and symbol tables
  is a parameter.
\<close>

subsection \<open>Reading attributes\<close>

record SpanAttributeParam =
  argIndex :: nat
  par_attrKey :: string

record SpanAttributeProp =
  propName :: string
  prop_attrKey :: string

record WithSpanMetadata =
  spanName :: "string option"
  spanKind :: "int option"
  paramAttributes :: "SpanAttributeParam list"
  propAttributes :: "SpanAttributeProp list"

text \<open>
  The functions \<open>zend_get_attribute_str\<close>, \<open>zend_get_parameter_attribute_str\<close> and
  \<open>zend_get_attribute_value\<close> of the engine, the key a string becomes in a symbol table, the
  properties of an object, a static call, and the prefix of scoped namespaces.
\<close>

record attr_engine =
  get_attribute_str :: "zend_attribute list \<Rightarrow> string \<Rightarrow> zend_attribute option"
  get_parameter_attribute_str :: "zend_attribute list \<Rightarrow> string \<Rightarrow> nat \<Rightarrow> zend_attribute option"
  get_attribute_value :: "zend_attribute \<Rightarrow> nat \<Rightarrow> class_info option \<Rightarrow> zval option"
  symtable_key :: "string \<Rightarrow> zkey"
  read_property :: "zval \<Rightarrow> string \<Rightarrow> zval option"
  static_call :: "string \<Rightarrow> zval list \<Rightarrow> object_id option"
  ae_scoper_prefix :: string

definition withSpanLcName :: string where
  "withSpanLcName = php_name [''opentelemetry'', ''api'', ''instrumentation'', ''withspan'']"

definition spanAttrLcName :: string where
  "spanAttrLcName = php_name [''opentelemetry'', ''api'', ''instrumentation'', ''spanattribute'']"

fun find_arg :: "nat \<Rightarrow> attr_arg list \<Rightarrow> nat \<Rightarrow> string \<Rightarrow> nat option" where
  "find_arg i [] positionalIdx argName = None"
| "find_arg i (a # as) positionalIdx argName =
     (if arg_name a = None \<and> i = positionalIdx \<or> arg_name a = Some argName then Some i
      else find_arg (Suc i) as positionalIdx argName)"

definition findAttrArgIndex :: "zend_attribute \<Rightarrow> nat \<Rightarrow> string \<Rightarrow> nat option" where
  "findAttrArgIndex attr positionalIdx argName = find_arg 0 (attr_args attr) positionalIdx argName"

definition hasWithSpanAttribute :: "attr_engine \<Rightarrow> call_frame \<Rightarrow> bool" where
  "hasWithSpanAttribute ae fr =
     (if cf_internal fr then False
      else case cf_attributes fr of
             None \<Rightarrow> False
           | Some attrs \<Rightarrow> get_attribute_str ae attrs withSpanLcName \<noteq> None)"

text \<open>The resolved value of an argument of an attribute, when there is one.\<close>

definition attr_argument :: "attr_engine \<Rightarrow> zend_attribute \<Rightarrow> class_info option \<Rightarrow> nat \<Rightarrow> string \<Rightarrow> zval option" where
  "attr_argument ae attr scope positionalIdx argName =
     (case findAttrArgIndex attr positionalIdx argName of
        None \<Rightarrow> None
      | Some i \<Rightarrow> get_attribute_value ae attr i scope)"

definition attr_key :: "attr_engine \<Rightarrow> zend_attribute \<Rightarrow> class_info option \<Rightarrow> string \<Rightarrow> string" where
  "attr_key ae attr scope phpName =
     (let key = (case attr_argument ae attr scope 0 ''name'' of Some (Str s _) \<Rightarrow> s | _ \<Rightarrow> [])
      in if key = [] then phpName else key)"

definition read_param_attributes :: "attr_engine \<Rightarrow> zend_attribute list \<Rightarrow> call_frame \<Rightarrow> SpanAttributeParam list" where
  "read_param_attributes ae attrs fr =
     concat (map (\<lambda>i. case get_parameter_attribute_str ae attrs spanAttrLcName i of
         None \<Rightarrow> []
       | Some pa \<Rightarrow> [\<lparr>argIndex = i, par_attrKey = attr_key ae pa (cf_scope fr) (cf_params fr ! i)\<rparr>])
       [0..<length (cf_params fr)])"

definition read_prop_attributes :: "attr_engine \<Rightarrow> class_info \<Rightarrow> SpanAttributeProp list" where
  "read_prop_attributes ae ce =
     concat (map (\<lambda>(name, attrs). case attrs of
         None \<Rightarrow> []
       | Some as \<Rightarrow> (case get_attribute_str ae as spanAttrLcName of
             None \<Rightarrow> []
           | Some pa \<Rightarrow> [\<lparr>propName = name, prop_attrKey = attr_key ae pa (Some ce) name\<rparr>])) (ci_properties ce))"

definition readWithSpanMetadata :: "attr_engine \<Rightarrow> call_frame \<Rightarrow> WithSpanMetadata option" where
  "readWithSpanMetadata ae fr =
     (if cf_internal fr then None
      else case cf_attributes fr of
        None \<Rightarrow> None
      | Some attrs \<Rightarrow> (case get_attribute_str ae attrs withSpanLcName of
          None \<Rightarrow> None
        | Some attr \<Rightarrow> Some
            \<lparr>spanName = (case attr_argument ae attr (cf_scope fr) 0 ''span_name'' of Some (Str s _) \<Rightarrow> Some s | _ \<Rightarrow> None),
             spanKind = (case attr_argument ae attr (cf_scope fr) 1 ''span_kind'' of Some (Long n) \<Rightarrow> Some n | _ \<Rightarrow> None),
             paramAttributes = read_param_attributes ae attrs fr,
             propAttributes = (case cf_scope fr of None \<Rightarrow> [] | Some ce \<Rightarrow> read_prop_attributes ae ce)\<rparr>))"

subsection \<open>Calling the handler of the attribute\<close>

text \<open>Storing under a key of an array: an entry keeps its place, a new one goes last.\<close>

fun entry_update :: "zkey \<Rightarrow> zval \<Rightarrow> (zkey \<times> zval) list \<Rightarrow> (zkey \<times> zval) list" where
  "entry_update k v [] = [(k, v)]"
| "entry_update k v ((k', v') # es) = (if k' = k then (k, v) # es else (k', v') # entry_update k v es)"

fun array_update :: "zkey \<Rightarrow> zval \<Rightarrow> zval \<Rightarrow> zval" where
  "array_update k v (Arr es nxt) =
     Arr (entry_update k v es) (case k of Int_Key i \<Rightarrow> if i \<ge> nxt then i + 1 else nxt | Str_Key _ \<Rightarrow> nxt)"
| "array_update k v a = a"

definition add_assoc_zval :: "attr_engine \<Rightarrow> string \<Rightarrow> zval \<Rightarrow> zval \<Rightarrow> zval" where
  "add_assoc_zval ae key v a = array_update (symtable_key ae key) v a"

definition span_args :: "attr_engine \<Rightarrow> int \<Rightarrow> WithSpanMetadata \<Rightarrow> zval" where
  "span_args ae empty_next meta =
     (let a = Arr [] empty_next;
          a = (case spanName meta of None \<Rightarrow> a | Some s \<Rightarrow> add_assoc_zval ae ''name'' (Str s False) a)
      in case spanKind meta of None \<Rightarrow> a | Some k \<Rightarrow> add_assoc_zval ae ''span_kind'' (Long k) a)"

text \<open>The argument \<open>attributes\<close> of the attribute in the source, string keys only.\<close>

definition static_attributes :: "attr_engine \<Rightarrow> call_frame \<Rightarrow> zval \<Rightarrow> zval" where
  "static_attributes ae fr a =
     (case cf_attributes fr of
        None \<Rightarrow> a
      | Some attrs \<Rightarrow> (case get_attribute_str ae attrs withSpanLcName of
          None \<Rightarrow> a
        | Some ws \<Rightarrow> (case attr_argument ae ws (cf_scope fr) 2 ''attributes'' of
            Some (Arr es _) \<Rightarrow>
              fold (\<lambda>(k, v) a. case k of Str_Key s \<Rightarrow> array_update (Str_Key s) v a | Int_Key _ \<Rightarrow> a) es a
          | _ \<Rightarrow> a)))"

definition add_param_attribute :: "attr_engine \<Rightarrow> call_frame \<Rightarrow> SpanAttributeParam \<Rightarrow> zval \<Rightarrow> zval" where
  "add_param_attribute ae fr p a =
     (if argIndex p < cf_num_args fr \<and> cf_slots fr (argIndex p) \<noteq> Undef
      then add_assoc_zval ae (par_attrKey p) (cf_slots fr (argIndex p)) a else a)"

definition add_prop_attribute :: "attr_engine \<Rightarrow> call_frame \<Rightarrow> SpanAttributeProp \<Rightarrow> zval \<Rightarrow> zval" where
  "add_prop_attribute ae fr p a =
     (case read_property ae (cf_this fr) (propName p) of
        None \<Rightarrow> a
      | Some v \<Rightarrow> if v = Undef then a else add_assoc_zval ae (prop_attrKey p) v a)"

definition span_attributes :: "attr_engine \<Rightarrow> int \<Rightarrow> call_frame \<Rightarrow> WithSpanMetadata \<Rightarrow> zval" where
  "span_attributes ae empty_next fr meta =
     (let a = static_attributes ae fr (Arr [] empty_next);
          a = fold (add_param_attribute ae fr) (paramAttributes meta) a
      in if propAttributes meta \<noteq> [] \<and> isObject (cf_this fr)
         then fold (add_prop_attribute ae fr) (propAttributes meta) a else a)"

definition handler_name :: "attr_engine \<Rightarrow> bool \<Rightarrow> string \<Rightarrow> string" where
  "handler_name ae scoped f =
     (if scoped then ae_scoper_prefix ae else [])
       @ php_name [''OpenTelemetry'', ''API'', ''Instrumentation'', ''WithSpanHandler::''] @ f"

text \<open>
  The free function \<open>callMethod\<close> for a static method: it sets the exception state aside for
  the call, so that the caller sees none of it.
\<close>

definition call_static :: "attr_engine \<Rightarrow> string \<Rightarrow> zval list \<Rightarrow> eg_state \<Rightarrow> eg_state" where
  "call_static ae method params eg =
     (let (saved, eg) = saveExceptionState eg
      in restoreExceptionState saved (eg\<lparr>eg_exception := static_call ae method params\<rparr>))"

record observer_config =
  isFunctional :: bool
  scoped_deps_enabled :: bool
  attr_hooks_enabled :: bool
  debug_instrument_all :: bool

definition callWithSpanHandlerPre ::
    "hook_engine \<Rightarrow> attr_engine \<Rightarrow> observer_config \<Rightarrow> WithSpanMetadata \<Rightarrow> call_frame \<times> eg_state
       \<Rightarrow> call_event list \<times> (call_frame \<times> eg_state)" where
  "callWithSpanHandlerPre he ae cfg meta s =
     (if \<not> isFunctional cfg then ([], s)
      else let fr = fst s;
               params = [getScopeNameOrThis fr, getCallArguments (empty_next_free he) fr, getFunctionDeclaringScope fr,
                 getFunctionName fr, getFunctionDeclarationFileName fr, getFunctionDeclarationLineNo fr,
                 span_args ae (empty_next_free he) meta, span_attributes ae (empty_next_free he) fr meta];
               handlerName = handler_name ae (scoped_deps_enabled cfg) ''pre'';
               (saved, eg) = saveExceptionState (snd s)
           in ([With_Span_Pre handlerName params], (fr, restoreExceptionState saved (call_static ae handlerName params eg))))"

definition callWithSpanHandlerPost ::
    "hook_engine \<Rightarrow> attr_engine \<Rightarrow> observer_config \<Rightarrow> object_id option \<Rightarrow> call_frame \<times> eg_state
       \<Rightarrow> call_event list \<times> (call_frame \<times> eg_state)" where
  "callWithSpanHandlerPost he ae cfg exc s =
     (if \<not> isFunctional cfg then ([], s)
      else let fr = fst s;
               params = [getScopeNameOrThis fr, getCallArguments (empty_next_free he) fr,
                 getFunctionReturnValue (cf_return fr), getCurrentException he exc];
               handlerName = handler_name ae (scoped_deps_enabled cfg) ''post'';
               (saved, eg) = saveExceptionState (snd s)
           in ([With_Span_Post handlerName params], (fr, restoreExceptionState saved (call_static ae handlerName params eg))))"

subsection \<open>Observer handlers\<close>

type_synonym observer_state = "HooksStorage \<times> WithSpanMetadata AttrStorage"

definition observerFcallBeginHandler ::
    "hook_engine \<Rightarrow> attr_engine \<Rightarrow> observer_config \<Rightarrow> observer_state \<Rightarrow> call_frame \<times> eg_state
       \<Rightarrow> call_event list \<times> (call_frame \<times> eg_state)" where
  "observerFcallBeginHandler he ae cfg st s =
     (let hash = getClassAndFunctionHashFromExecuteData (fst s);
          callbacks = hooks_find (fst st) hash;
          pres = (case callbacks of None \<Rightarrow> [] | Some l \<Rightarrow> map fst l);
          s1 = fold (run_prehook he) pres s
      in case attr_find (snd st) hash of
           Some meta \<Rightarrow> (let (evs, s2) = callWithSpanHandlerPre he ae cfg meta s1 in (map Pre pres @ evs, s2))
         | None \<Rightarrow> (map Pre pres @ (if callbacks = None then [Missing_Hooks] else []), s1))"

definition observerFcallEndHandler ::
    "hook_engine \<Rightarrow> attr_engine \<Rightarrow> observer_config \<Rightarrow> observer_state \<Rightarrow> call_frame \<times> eg_state
       \<Rightarrow> call_event list \<times> (call_frame \<times> eg_state)" where
  "observerFcallEndHandler he ae cfg st s =
     (let hash = getClassAndFunctionHashFromExecuteData (fst s);
          callbacks = hooks_find (fst st) hash;
          posts = (case callbacks of None \<Rightarrow> [] | Some l \<Rightarrow> map snd l);
          s1 = fold (run_posthook he) posts s
      in case attr_find (snd st) hash of
           Some meta \<Rightarrow>
             (let (saved, eg) = saveExceptionState (snd s1);
                  (evs, s2) = callWithSpanHandlerPost he ae cfg (eg_exception saved) (fst s1, eg)
              in (map Post posts @ evs, (fst s2, restoreExceptionState saved (snd s2))))
         | None \<Rightarrow> (map Post posts @ (if callbacks = None then [Missing_Hooks] else []), s1))"

subsection \<open>Which functions are observed\<close>

fun interface_hooks :: "HooksStorage \<Rightarrow> string \<Rightarrow> string list \<Rightarrow> hook_pairs option" where
  "interface_hooks hooks funcName [] = None"
| "interface_hooks hooks funcName (i # is) =
     (case hooks_find hooks (hashClassAndFunctionNameLowercase i funcName) of
        Some l \<Rightarrow> Some l
      | None \<Rightarrow> interface_hooks hooks funcName is)"

definition inherit_hooks :: "zend_ulong \<Rightarrow> call_frame \<Rightarrow> HooksStorage \<Rightarrow> hook_pairs option \<times> HooksStorage" where
  "inherit_hooks hash fr hooks =
     (case hooks_find hooks hash of
        Some l \<Rightarrow> (Some l, hooks)
      | None \<Rightarrow> (case cf_scope fr of
          None \<Rightarrow> (None, hooks)
        | Some ce \<Rightarrow> (case interface_hooks hooks (snd (getClassAndFunctionName fr)) (ci_interfaces ce) of
            None \<Rightarrow> (None, hooks)
          | Some l \<Rightarrow> (Some l, fold (\<lambda>item. hooks_store hash [item]) l hooks))))"

definition debug_hook :: "attr_engine \<Rightarrow> bool \<Rightarrow> string \<Rightarrow> zval" where
  "debug_hook ae scoped f =
     Str ((if scoped then ae_scoper_prefix ae else [])
       @ php_name [''OpenTelemetry'', ''Distro'', ''PhpPartFacade::''] @ f) False"

definition wants_debug_hooks :: "observer_config \<Rightarrow> call_frame \<Rightarrow> bool" where
  "wants_debug_hooks cfg fr \<longleftrightarrow> debug_instrument_all cfg \<and> isFunctional cfg \<and> \<not> cf_closure fr
     \<and> \<not> sublist ''/opentelemetry/php/distro/'' (cf_filename fr) \<and> \<not> sublist ''/open-telemetry/'' (cf_filename fr)"

definition add_debug_hooks ::
    "attr_engine \<Rightarrow> observer_config \<Rightarrow> zend_ulong \<Rightarrow> call_frame \<Rightarrow> hook_pairs option \<times> HooksStorage \<Rightarrow> hook_pairs option \<times> HooksStorage" where
  "add_debug_hooks ae cfg hash fr r =
     (if wants_debug_hooks cfg fr then
        let hooks = hooks_storeFront hash [(debug_hook ae (scoped_deps_enabled cfg) ''debugPreHook'',
                      debug_hook ae (scoped_deps_enabled cfg) ''debugPostHook'')] (snd r)
        in (hooks_find hooks hash, hooks)
      else r)"

definition add_attr_hook ::
    "attr_engine \<Rightarrow> observer_config \<Rightarrow> zend_ulong \<Rightarrow> call_frame \<Rightarrow> WithSpanMetadata AttrStorage \<Rightarrow> bool \<times> WithSpanMetadata AttrStorage" where
  "add_attr_hook ae cfg hash fr attrs =
     (if attr_hooks_enabled cfg \<and> hasWithSpanAttribute ae fr then
        case readWithSpanMetadata ae fr of
          Some meta \<Rightarrow> (True, attr_store hash meta attrs)
        | None \<Rightarrow> (False, attrs)
      else (False, attrs))"

text \<open>The two results tell whether a begin and an end handler are installed.\<close>

definition registerObserverHandlers ::
    "attr_engine \<Rightarrow> observer_config \<Rightarrow> call_frame \<Rightarrow> observer_state \<Rightarrow> (bool \<times> bool) \<times> observer_state" where
  "registerObserverHandlers ae cfg fr st =
     (if cf_internal fr then ((False, False), st)
      else let hash = getClassAndFunctionHashFromExecuteData fr
        in if hash = 0 then ((False, False), st)
           else let (callbacks, hooks) = add_debug_hooks ae cfg hash fr (inherit_hooks hash fr (fst st));
                    (haveAttrHook, attrs) = add_attr_hook ae cfg hash fr (snd st)
                in (case callbacks of
                      None \<Rightarrow> (haveAttrHook, haveAttrHook)
                    | Some l \<Rightarrow> (haveAttrHook \<or> (\<exists>item \<in> set l. \<not> isNull (fst item)),
                                 haveAttrHook \<or> (\<exists>item \<in> set l. \<not> isNull (snd item))),
                    (hooks, attrs)))"

subsection \<open>Observers find what was registered\<close>

lemma copied_hooks:
  "hooks_find (fold (\<lambda>item. hooks_store k [item]) l hooks) k =
     (if l = [] then hooks_find hooks k else Some ((case hooks_find hooks k of None \<Rightarrow> [] | Some l' \<Rightarrow> l') @ l))"
  by (induction l arbitrary: hooks) (auto simp: hooks.find_store split: option.split)

text \<open>No stored list is empty: every \<open>store\<close> adds a pair.\<close>

definition hooks_wf :: "HooksStorage \<Rightarrow> bool" where
  "hooks_wf hooks \<longleftrightarrow> (\<forall>k. hooks_find hooks k \<noteq> Some [])"

lemma hooks_wf_empty: "hooks_wf Map.empty"
  by (simp add: hooks_wf_def hooks_find_def)

lemma hooks_wf_store: "hooks_wf hooks \<Longrightarrow> pairs \<noteq> [] \<Longrightarrow> hooks_wf (hooks_store k pairs hooks)"
  by (simp add: hooks_wf_def hooks.find_store)

lemma hooks_wf_storeFront: "hooks_wf hooks \<Longrightarrow> pairs \<noteq> [] \<Longrightarrow> hooks_wf (hooks_storeFront k pairs hooks)"
  by (simp add: hooks_wf_def hooks_front.find_store)

lemma hooks_wf_instrumentFunction:
  "hooks_wf (hooksStorage st) \<Longrightarrow> hooks_wf (hooksStorage (snd (instrumentFunction c f pre post st)))"
  by (simp add: instrumentFunction_def Let_def hooks_wf_store split: option.split)

lemma interface_hooks_stored:
  "interface_hooks hooks f is = Some l \<Longrightarrow> \<exists>k. hooks_find hooks k = Some l"
  by (induction "is") (auto split: option.splits)

lemma inherited_hooks_found:
  assumes "hooks_wf hooks" "inherit_hooks k fr hooks = (r, hooks')"
  shows "hooks_find hooks' k = r" "hooks_wf hooks'"
proof -
  have wf: "hooks_wf (fold (\<lambda>item. hooks_store k [item]) l h)" if "hooks_wf h" for l h
    using that by (induction l arbitrary: h) (simp_all add: hooks_wf_store)
  have ne: "interface_hooks hooks f is \<noteq> Some []" for f "is"
    using interface_hooks_stored [of hooks f "is" "[]"] assms(1) by (auto simp: hooks_wf_def)
  show "hooks_find hooks' k = r" "hooks_wf hooks'"
    using assms(2) ne [of "snd (getClassAndFunctionName fr)"] wf [OF assms(1)] assms(1)
    by (auto simp: inherit_hooks_def copied_hooks split: option.splits if_splits) metis
qed

lemma debug_hooks_found:
  assumes "hooks_wf hooks" "hooks_find hooks k = r" "add_debug_hooks ae cfg k fr (r, hooks) = (r', hooks')"
  shows "hooks_find hooks' k = r'" "hooks_wf hooks'"
  using assms by (auto simp: add_debug_hooks_def Let_def hooks_wf_storeFront split: if_splits)

lemma attr_hook_found:
  "add_attr_hook ae cfg k fr attrs = (True, attrs') \<Longrightarrow> attr_find attrs' k \<noteq> None"
  by (auto simp: add_attr_hook_def attrs.find_store split: if_splits option.splits)

lemma attr_hook_iff:
  "fst (add_attr_hook ae cfg k fr attrs) \<longleftrightarrow> attr_hooks_enabled cfg \<and> hasWithSpanAttribute ae fr"
  by (auto simp: add_attr_hook_def hasWithSpanAttribute_def readWithSpanMetadata_def split: option.split)

lemma call_static_eg [simp]: "call_static ae m ps eg = eg"
  using restored [of "(snd (saveExceptionState eg))\<lparr>eg_exception := static_call ae m ps\<rparr>" eg]
  by (simp add: call_static_def saveExceptionState_def Let_def)

lemma restored_self [simp]: "restoreExceptionState eg (snd (saveExceptionState eg)) = eg"
  using restored [of "snd (saveExceptionState eg)" eg] by (simp add: saveExceptionState_def)

lemma with_span_pre:
  "callWithSpanHandlerPre he ae cfg meta s = (evs, s') \<Longrightarrow> s' = s \<and>
     (if isFunctional cfg then \<exists>ps. evs = [With_Span_Pre (handler_name ae (scoped_deps_enabled cfg) ''pre'') ps] else evs = [])"
  using restored_self [of "snd s"]
  by (auto simp: callWithSpanHandlerPre_def Let_def saveExceptionState_def split: if_splits)

lemma with_span_post:
  "callWithSpanHandlerPost he ae cfg exc s = (evs, s') \<Longrightarrow> s' = s \<and>
     (if isFunctional cfg then \<exists>ps. evs = [With_Span_Post (handler_name ae (scoped_deps_enabled cfg) ''post'') ps] else evs = [])"
  using restored_self [of "snd s"]
  by (auto simp: callWithSpanHandlerPost_def Let_def saveExceptionState_def split: if_splits)

text \<open>
  The hooks a user function should run in a request: the debug hooks if asked for, then its own
  or, where it has none, those of the first interface of its class that has some.
\<close>

definition observed_hooks :: "attr_engine \<Rightarrow> observer_config \<Rightarrow> call_frame \<Rightarrow> HooksStorage \<Rightarrow> hook_pairs" where
  "observed_hooks ae cfg fr hooks =
     (if wants_debug_hooks cfg fr
      then [(debug_hook ae (scoped_deps_enabled cfg) ''debugPreHook'', debug_hook ae (scoped_deps_enabled cfg) ''debugPostHook'')]
      else [])
     @ (case hooks_find hooks (getClassAndFunctionHashFromExecuteData fr) of
          Some l \<Rightarrow> l
        | None \<Rightarrow> (case cf_scope fr of
            None \<Rightarrow> []
          | Some ce \<Rightarrow> (case interface_hooks hooks (snd (getClassAndFunctionName fr)) (ci_interfaces ce) of
              None \<Rightarrow> [] | Some l \<Rightarrow> l)))"

lemma registered_hooks:
  assumes "hooks_wf (fst st)" "\<not> cf_internal fr" "getClassAndFunctionHashFromExecuteData fr \<noteq> 0"
    "registerObserverHandlers ae cfg fr st = ((pre, post), st')"
  defines "k \<equiv> getClassAndFunctionHashFromExecuteData fr" and "l \<equiv> observed_hooks ae cfg fr (fst st)"
    and "ws \<equiv> attr_hooks_enabled cfg \<and> hasWithSpanAttribute ae fr"
  shows "hooks_find (fst st') k = (if l = [] then None else Some l)" "hooks_wf (fst st')"
    "ws \<Longrightarrow> attr_find (snd st') k \<noteq> None"
    "pre \<longleftrightarrow> ws \<or> (\<exists>p \<in> set l. \<not> isNull (fst p))" "post \<longleftrightarrow> ws \<or> (\<exists>p \<in> set l. \<not> isNull (snd p))"
proof -
  obtain r hooks1 where inh: "inherit_hooks k fr (fst st) = (r, hooks1)" by fastforce
  obtain r' hooks' where dbg: "add_debug_hooks ae cfg k fr (r, hooks1) = (r', hooks')" by fastforce
  obtain w attrs' where att: "add_attr_hook ae cfg k fr (snd st) = (w, attrs')" by fastforce
  note f1 = inherited_hooks_found [OF assms(1) inh]
  note f2 = debug_hooks_found [OF f1(2,1) dbg]
  have ne: "hooks_find (fst st) k' \<noteq> Some []" for k' using assms(1) by (simp add: hooks_wf_def)
  have nei: "interface_hooks (fst st) f is \<noteq> Some []" for f "is"
    using interface_hooks_stored [of "fst st" f "is" "[]"] ne by auto
  have r: "r = (if drop (of_bool (wants_debug_hooks cfg fr)) l = [] then None else Some (drop (of_bool (wants_debug_hooks cfg fr)) l))"
    using inh ne [of k] nei [of "snd (getClassAndFunctionName fr)"]
    by (auto simp: l_def observed_hooks_def inherit_hooks_def k_def [symmetric] split: option.splits if_splits)
  have "r' = (if l = [] then None else Some l)"
    using dbg f1(1) r
    by (auto simp: add_debug_hooks_def Let_def hooks_front.find_store l_def observed_hooks_def split: if_splits)
  moreover have st': "st' = (hooks', attrs')"
    and "pre = (case r' of None \<Rightarrow> w | Some l \<Rightarrow> w \<or> (\<exists>p \<in> set l. \<not> isNull (fst p)))"
    and "post = (case r' of None \<Rightarrow> w | Some l \<Rightarrow> w \<or> (\<exists>p \<in> set l. \<not> isNull (snd p)))"
    using assms(2-4) inh dbg att by (auto simp: registerObserverHandlers_def k_def Let_def split: option.splits)
  moreover have "w = ws" using attr_hook_iff [of ae cfg k fr "snd st"] att by (simp add: ws_def)
  ultimately show "hooks_find (fst st') k = (if l = [] then None else Some l)" "hooks_wf (fst st')"
    "ws \<Longrightarrow> attr_find (snd st') k \<noteq> None"
    "pre \<longleftrightarrow> ws \<or> (\<exists>p \<in> set l. \<not> isNull (fst p))" "post \<longleftrightarrow> ws \<or> (\<exists>p \<in> set l. \<not> isNull (snd p))"
    using f2 attr_hook_found [of ae cfg k fr "snd st" attrs'] att by auto
qed

lemma begin_handler:
  assumes "hooks_find (fst st) (getClassAndFunctionHashFromExecuteData fr) = (if l = [] then None else Some l)"
    "l = [] \<longrightarrow> attr_find (snd st) (getClassAndFunctionHashFromExecuteData fr) \<noteq> None"
    "ws \<Longrightarrow> attr_find (snd st) (getClassAndFunctionHashFromExecuteData fr) \<noteq> None"
  shows "\<exists>spans. fst (observerFcallBeginHandler he ae cfg st (fr, eg)) = map Pre (map fst l) @ spans
    \<and> Missing_Hooks \<notin> set spans
    \<and> (ws \<and> isFunctional cfg \<longrightarrow> (\<exists>ps. spans = [With_Span_Pre (handler_name ae (scoped_deps_enabled cfg) ''pre'') ps]))
    \<and> snd (snd (observerFcallBeginHandler he ae cfg st (fr, eg))) = eg"
proof -
  obtain fr1 where "fold (run_prehook he) (map fst l) (fr, eg) = (fr1, eg)"
    using fold_hooks_eg(1) [of he "map fst l" "(fr, eg)"] by (metis prod.collapse snd_conv)
  with assms show ?thesis
    by (auto simp: observerFcallBeginHandler_def Let_def split: option.splits prod.splits if_splits dest!: with_span_pre)
qed

lemma end_handler:
  assumes "hooks_find (fst st) (getClassAndFunctionHashFromExecuteData fr) = (if l = [] then None else Some l)"
    "l = [] \<longrightarrow> attr_find (snd st) (getClassAndFunctionHashFromExecuteData fr) \<noteq> None"
    "ws \<Longrightarrow> attr_find (snd st) (getClassAndFunctionHashFromExecuteData fr) \<noteq> None"
  shows "\<exists>spans. fst (observerFcallEndHandler he ae cfg st (fr, eg)) = map Post (map snd l) @ spans
    \<and> Missing_Hooks \<notin> set spans
    \<and> (ws \<and> isFunctional cfg \<longrightarrow> (\<exists>ps. spans = [With_Span_Post (handler_name ae (scoped_deps_enabled cfg) ''post'') ps]))
    \<and> snd (snd (observerFcallEndHandler he ae cfg st (fr, eg))) = eg"
proof -
  obtain fr1 where "fold (run_posthook he) (map snd l) (fr, eg) = (fr1, eg)"
    using fold_hooks_eg(2) [of he "map snd l" "(fr, eg)"] by (metis prod.collapse snd_conv)
  with assms restored_self [of eg] show ?thesis
    by (auto simp: observerFcallEndHandler_def Let_def saveExceptionState_def
        split: option.splits prod.splits if_splits dest!: with_span_post)
qed

text \<open>
  C19. A user function is observed exactly if it has a hook that is not null, its own or, having
  none, of the first interface of its class with hooks, a debug hook or, with
  attribute hooks enabled, the attribute \<open>WithSpan\<close>. The handlers installed then find
  everything again: begin runs the entry hooks in order, end the exit hooks, each
  followed by the handler of \<open>WithSpan\<close> in an instrumented request, neither ever misses its
  hooks, and the pending exception is the one of the call.
\<close>

theorem observed_functions_run_their_hooks:
  assumes "hooks_wf (fst st)" "\<not> cf_internal fr" "getClassAndFunctionHashFromExecuteData fr \<noteq> 0"
    "registerObserverHandlers ae cfg fr st = ((pre, post), st')"
    "getClassAndFunctionHashFromExecuteData fr' = getClassAndFunctionHashFromExecuteData fr"
  shows "let l = observed_hooks ae cfg fr (fst st); ws = (attr_hooks_enabled cfg \<and> hasWithSpanAttribute ae fr);
      (begin_events, _, begin_eg) = observerFcallBeginHandler he ae cfg st' (fr', eg);
      (end_events, _, end_eg) = observerFcallEndHandler he ae cfg st' (fr', eg)
    in (pre \<longleftrightarrow> ws \<or> (\<exists>p \<in> set l. \<not> isNull (fst p))) \<and> (post \<longleftrightarrow> ws \<or> (\<exists>p \<in> set l. \<not> isNull (snd p)))
      \<and> (pre \<longrightarrow> begin_eg = eg \<and> (\<exists>spans. begin_events = map Pre (map fst l) @ spans \<and> Missing_Hooks \<notin> set spans
          \<and> (ws \<and> isFunctional cfg \<longrightarrow> (\<exists>ps. spans = [With_Span_Pre (handler_name ae (scoped_deps_enabled cfg) ''pre'') ps]))))
      \<and> (post \<longrightarrow> end_eg = eg \<and> (\<exists>spans. end_events = map Post (map snd l) @ spans \<and> Missing_Hooks \<notin> set spans
          \<and> (ws \<and> isFunctional cfg \<longrightarrow> (\<exists>ps. spans = [With_Span_Post (handler_name ae (scoped_deps_enabled cfg) ''post'') ps]))))"
proof -
  let ?l = "observed_hooks ae cfg fr (fst st)" and ?ws = "attr_hooks_enabled cfg \<and> hasWithSpanAttribute ae fr"
  note reg = registered_hooks [OF assms(1-4)]
  have found: "hooks_find (fst st') (getClassAndFunctionHashFromExecuteData fr') = (if ?l = [] then None else Some ?l)"
    "?ws \<Longrightarrow> attr_find (snd st') (getClassAndFunctionHashFromExecuteData fr') \<noteq> None"
    using reg(1,3) by (simp_all add: assms(5))
  have b: "pre \<Longrightarrow> ?l = [] \<longrightarrow> attr_find (snd st') (getClassAndFunctionHashFromExecuteData fr') \<noteq> None"
    and e: "post \<Longrightarrow> ?l = [] \<longrightarrow> attr_find (snd st') (getClassAndFunctionHashFromExecuteData fr') \<noteq> None"
    using reg(4,5) found(2) by auto
  note begins = begin_handler [OF found(1) b, of ?ws he ae cfg eg, OF _ found(2)]
    and ends = end_handler [OF found(1) e, of ?ws he ae cfg eg, OF _ found(2)]
  show ?thesis
    unfolding Let_def case_prod_beta
    by (intro conjI impI) (use begins in blast | use ends in blast | rule reg(4) | rule reg(5))+
qed

text \<open>An engine without attributes, and a method of a class whose interface has an entry hook.\<close>

definition demo_attrs :: attr_engine where
  "demo_attrs = \<lparr>get_attribute_str = (\<lambda>as n. case as of [] \<Rightarrow> None | a # _ \<Rightarrow> if attr_lcname a = n then Some a else None),
     get_parameter_attribute_str = (\<lambda>as n i. None), get_attribute_value = (\<lambda>a i sc. arg_value (attr_args a ! i)),
     symtable_key = Str_Key, read_property = (\<lambda>_ _. None), static_call = (\<lambda>_ _. None), ae_scoper_prefix = []\<rparr>"

definition demo_method :: call_frame where
  "demo_method = demo_frame\<lparr>cf_internal := False,
     cf_scope := Some \<lparr>ci_name = ''C'', ci_interfaces = [''I''], ci_properties = []\<rparr>, cf_name := Some ''f''\<rparr>"

lemma demo_hash:
  "getClassAndFunctionHashFromExecuteData demo_method = hashClassAndFunctionNameLowercase ''C'' ''f''"
  "hashClassAndFunctionNameLowercase ''C'' ''f'' \<noteq> 0"
  "hashClassAndFunctionNameLowercase ''C'' ''f'' \<noteq> hashClassAndFunctionNameLowercase ''I'' ''f''"
  by (simp add: getClassAndFunctionHashFromExecuteData_def demo_method_def getClassAndFunctionName_def) code_simp+

theorem observed_functions_run_their_hooks_witness:
  "let cfg = \<lparr>isFunctional = True, scoped_deps_enabled = False, attr_hooks_enabled = True, debug_instrument_all = False\<rparr>;
       st = ([hashClassAndFunctionNameLowercase ''I'' ''f'' \<mapsto> [(Long 5, Null)]], Map.empty);
       ((pre, post), st') = registerObserverHandlers demo_attrs cfg demo_method st
   in pre \<and> \<not> post \<and> Pre (Long 5) \<in> set (fst (observerFcallBeginHandler demo_hooks demo_attrs cfg st' (demo_method, demo_eg)))"
proof -
  let ?cfg = "\<lparr>isFunctional = True, scoped_deps_enabled = False, attr_hooks_enabled = True, debug_instrument_all = False\<rparr>"
  let ?st = "([hashClassAndFunctionNameLowercase ''I'' ''f'' \<mapsto> [(Long 5, Null)]], Map.empty) :: observer_state"
  obtain pre post st' where reg: "registerObserverHandlers demo_attrs ?cfg demo_method ?st = ((pre, post), st')"
    by (metis prod.collapse)
  have frame: "cf_scope demo_method = Some \<lparr>ci_name = ''C'', ci_interfaces = [''I''], ci_properties = []\<rparr>"
    "snd (getClassAndFunctionName demo_method) = ''f''" "\<not> cf_internal demo_method" "cf_attributes demo_method = None"
    by (simp_all add: demo_method_def getClassAndFunctionName_def demo_frame_def)
  have l: "observed_hooks demo_attrs ?cfg demo_method (fst ?st) = [(Long 5, Null)]"
    using demo_hash frame by (simp add: observed_hooks_def wants_debug_hooks_def hooks_find_def)
  have wf: "hooks_wf (fst ?st)" by (simp add: hooks_wf_def hooks_find_def)
  have nz: "getClassAndFunctionHashFromExecuteData demo_method \<noteq> 0" using demo_hash by simp
  have nws: "\<not> hasWithSpanAttribute demo_attrs demo_method" by (simp add: hasWithSpanAttribute_def frame)
  show ?thesis
    using observed_functions_run_their_hooks [OF wf frame(3) nz reg refl, of demo_hooks demo_eg] l nws reg
    by (auto simp: Let_def)
qed

text \<open>
  The metadata of an attribute outlives the request, and the handlers of a later request that has
  attribute hooks disabled, but hooks on the same function, still find it.
\<close>

lemma stale_metadata_is_used:
  assumes "attr_find attrs (getClassAndFunctionHashFromExecuteData fr) = Some meta" "\<not> attr_hooks_enabled cfg"
    "hooks_find hooks (getClassAndFunctionHashFromExecuteData fr) = Some [(pre, post)]" "isFunctional cfg"
  shows "\<exists>n ps. With_Span_Pre n ps \<in> set (fst (observerFcallBeginHandler he ae cfg (hooks, attrs) (fr, eg)))"
  using assms(1,3,4) by (auto simp: observerFcallBeginHandler_def Let_def callWithSpanHandlerPre_def split: prod.splits)

subsection \<open>The attributes of a span\<close>

lemma entry_update_map_of: "map_of (entry_update k v es) = (map_of es)(k \<mapsto> v)"
  by (induction es) auto

lemma entry_update_keys: "fst ` set (entry_update k v es) = insert k (fst ` set es)"
  by (simp add: dom_map_of_conv_image_fst [symmetric] entry_update_map_of)

lemma entry_update_distinct: "distinct (map fst es) \<Longrightarrow> distinct (map fst (entry_update k v es))"
  by (induction es) (auto simp: entry_update_keys)

text \<open>Entries stored one after the other.\<close>

definition put_all :: "(zkey \<times> zval) list \<Rightarrow> zval \<Rightarrow> zval" where
  "put_all kvs a = fold (\<lambda>(k, v). array_update k v) kvs a"

lemma put_all_append: "put_all (xs @ ys) a = put_all ys (put_all xs a)"
  by (simp add: put_all_def)

lemma put_all_entries:
  assumes "distinct (map fst es)"
  shows "\<exists>es' nxt'. put_all kvs (Arr es nxt) = Arr es' nxt' \<and> distinct (map fst es') \<and> map_of es' = map_of es ++ map_of (rev kvs)"
  using assms
proof (induction kvs arbitrary: es nxt)
  case Nil
  then show ?case by (simp add: put_all_def)
next
  case (Cons kv kvs)
  obtain k v where kv: "kv = (k, v)" by fastforce
  obtain es1 nxt1 where one: "array_update k v (Arr es nxt) = Arr es1 nxt1" "es1 = entry_update k v es" by simp
  with Cons.prems have "distinct (map fst es1)" by (simp add: entry_update_distinct)
  moreover have "map_of es ++ map_of (rev (kv # kvs)) = map_of es1 ++ map_of (rev kvs)"
    by (simp add: kv one(2)) (simp only: entry_update_map_of)
  moreover have "put_all (kv # kvs) (Arr es nxt) = put_all kvs (Arr es1 nxt1)"
    unfolding put_all_def by (simp only: kv fold_simps comp_apply prod.case one(1))
  ultimately show ?case using Cons.IH [of es1 nxt1] by simp
qed

text \<open>The three sources of attributes, in the order in which the code adds them.\<close>

definition static_entries :: "attr_engine \<Rightarrow> call_frame \<Rightarrow> (zkey \<times> zval) list" where
  "static_entries ae fr =
     (case cf_attributes fr of
        None \<Rightarrow> []
      | Some attrs \<Rightarrow> (case get_attribute_str ae attrs withSpanLcName of
          None \<Rightarrow> []
        | Some ws \<Rightarrow> (case attr_argument ae ws (cf_scope fr) 2 ''attributes'' of
            Some (Arr es _) \<Rightarrow> filter (\<lambda>(k, v). \<exists>s. k = Str_Key s) es
          | _ \<Rightarrow> [])))"

definition param_entries :: "attr_engine \<Rightarrow> call_frame \<Rightarrow> WithSpanMetadata \<Rightarrow> (zkey \<times> zval) list" where
  "param_entries ae fr meta =
     map (\<lambda>p. (symtable_key ae (par_attrKey p), cf_slots fr (argIndex p)))
       (filter (\<lambda>p. argIndex p < cf_num_args fr \<and> cf_slots fr (argIndex p) \<noteq> Undef) (paramAttributes meta))"

definition prop_entries :: "attr_engine \<Rightarrow> call_frame \<Rightarrow> WithSpanMetadata \<Rightarrow> (zkey \<times> zval) list" where
  "prop_entries ae fr meta =
     (if isObject (cf_this fr) then
        concat (map (\<lambda>p. case read_property ae (cf_this fr) (propName p) of
            Some v \<Rightarrow> if v = Undef then [] else [(symtable_key ae (prop_attrKey p), v)] | None \<Rightarrow> []) (propAttributes meta))
      else [])"

lemma static_put_all: "static_attributes ae fr a = put_all (static_entries ae fr) a"
proof -
  have "fold (\<lambda>(k, v) a. case k of Str_Key s \<Rightarrow> array_update (Str_Key s) v a | Int_Key _ \<Rightarrow> a) es a =
    put_all (filter (\<lambda>(k, v). \<exists>s. k = Str_Key s) es) a" for es
    by (induction es arbitrary: a) (auto simp: put_all_def split: zkey.split)
  then show ?thesis
    by (simp add: static_attributes_def static_entries_def put_all_def split: option.split zval.split)
qed

lemma params_put_all: "fold (add_param_attribute ae fr) ps a =
    put_all (map (\<lambda>p. (symtable_key ae (par_attrKey p), cf_slots fr (argIndex p)))
       (filter (\<lambda>p. argIndex p < cf_num_args fr \<and> cf_slots fr (argIndex p) \<noteq> Undef) ps)) a"
  by (induction ps arbitrary: a) (auto simp: put_all_def add_param_attribute_def add_assoc_zval_def)

lemma props_put_all: "fold (add_prop_attribute ae fr) ps a =
    put_all (concat (map (\<lambda>p. case read_property ae (cf_this fr) (propName p) of
            Some v \<Rightarrow> if v = Undef then [] else [(symtable_key ae (prop_attrKey p), v)] | None \<Rightarrow> []) ps)) a"
  by (induction ps arbitrary: a) (auto simp: put_all_def add_prop_attribute_def add_assoc_zval_def split: option.split)

text \<open>
  C27. The attributes handed to \<open>WithSpanHandler::pre\<close> are those of the attribute's argument, of the
  annotated parameters that were given a value and, on an object, of the annotated
  properties that have one; under each key stands one value, the one of the last of them:
  properties win over parameters and parameters over the static attributes.
\<close>

theorem span_attributes_are_merged:
  "\<exists>es nxt. span_attributes ae n fr meta = Arr es nxt \<and> distinct (map fst es)
     \<and> map_of es = map_of (rev (static_entries ae fr)) ++ map_of (rev (param_entries ae fr meta)) ++ map_of (rev (prop_entries ae fr meta))"
proof -
  have "span_attributes ae n fr meta =
      put_all (static_entries ae fr @ param_entries ae fr meta @ prop_entries ae fr meta) (Arr [] n)"
    by (simp add: span_attributes_def Let_def static_put_all params_put_all props_put_all put_all_append
        param_entries_def prop_entries_def) (simp add: put_all_def)
  then show ?thesis
    using put_all_entries [of "[]" "static_entries ae fr @ param_entries ae fr meta @ prop_entries ae fr meta" n] by simp
qed

end
