(* ===== verification/PhpBridge.thy ===== *)
theory PhpBridge
  imports WithSpan
begin

section \<open>The bridge to the PHP part\<close>

text \<open>
  libphpbridge/code/PhpBridge.cpp, Exceptions.cpp and OpCache.cpp: how the native part loads
  the PHP part, calls its facade class and tells whether opcache forbids to do so. The
  engine (its class table, the compiler, the call of a static method, the INI entries) is a
  parameter. Shown: none of these calls changes the exception state of the request, whatever PHP
  code throws.
\<close>

subsection \<open>Exceptions as text\<close>

text \<open>
  What the engine tells of an exception object: whether it is a \<open>Throwable\<close>, the name of its
  class and its properties.
\<close>

record throwable =
  ex_instance :: bool
  ex_class_name :: string
  ex_property :: "string \<Rightarrow> zval option"

fun zvalToOptionalStringView :: "zval option \<Rightarrow> string option" where
  "zvalToOptionalStringView (Some (Str s _)) = Some s"
| "zvalToOptionalStringView _ = None"

definition getExceptionMessage :: "throwable \<Rightarrow> string option" where
  "getExceptionMessage x = zvalToOptionalStringView (ex_property x ''message'')"

definition getExceptionFileName :: "throwable \<Rightarrow> string option" where
  "getExceptionFileName x = zvalToOptionalStringView (ex_property x ''file'')"

definition getExceptionLine :: "throwable \<Rightarrow> int option" where
  "getExceptionLine x = (case ex_property x ''line'' of Some (Long n) \<Rightarrow> Some n | _ \<Rightarrow> Some (- 1))"

definition getExceptionCode :: "throwable \<Rightarrow> int option" where
  "getExceptionCode x = (case ex_property x ''code'' of Some (Long n) \<Rightarrow> Some n | _ \<Rightarrow> None)"

definition getExceptionClass :: "throwable \<Rightarrow> string option" where
  "getExceptionClass x = zvalToOptionalStringView (ex_property x ''class'')"

definition getExceptionStringStackTrace :: "throwable \<Rightarrow> string option" where
  "getExceptionStringStackTrace x = zvalToOptionalStringView (ex_property x ''string'')"

definition quoted :: "string \<Rightarrow> string" where
  "quoted s = CHR 0x27 # s @ [CHR 0x27]"

definition exceptionToString :: "throwable option \<Rightarrow> string" where
  "exceptionToString exception =
     (case exception of
        None \<Rightarrow> []
      | Some x \<Rightarrow>
          if \<not> ex_instance x then []
          else (case getExceptionClass x of Some c \<Rightarrow> c | None \<Rightarrow> ex_class_name x) @ '' thrown''
            @ (case getExceptionMessage x of Some m \<Rightarrow> '' with message '' @ quoted m | None \<Rightarrow> [])
            @ (case getExceptionCode x of Some c \<Rightarrow> if c \<noteq> 0 then '' with code '' @ int_to_string c else [] | None \<Rightarrow> [])
            @ (case getExceptionFileName x of
                 Some f \<Rightarrow> '' in '' @ f @ (case getExceptionLine x of Some l \<Rightarrow> CHR '':'' # int_to_string l | None \<Rightarrow> [])
               | None \<Rightarrow> [])
            @ (case getExceptionStringStackTrace x of
                 Some s \<Rightarrow> if s \<noteq> [] then '' stacktrace: '' @ quoted s else [] | None \<Rightarrow> []))"

subsection \<open>Calling the facade\<close>

text \<open>
  The class table by lower-case names; a static call with its result (whether the engine
  accepted it) and the exception it leaves; the exception objects; the prefix of scoped
  namespaces and its lower-case form; the version string of the build.
\<close>

record facade_engine =
  class_exists :: "string \<Rightarrow> bool"
  call_user_function :: "string \<Rightarrow> zval list \<Rightarrow> bool \<times> object_id option"
  exception_object :: "object_id \<Rightarrow> throwable"
  php_scoper_prefix :: string
  php_scoper_prefix_lc :: string
  distro_version :: string

definition getFacadeClassName :: "facade_engine \<Rightarrow> bool \<Rightarrow> string" where
  "getFacadeClassName e scoped =
     (if scoped then php_scoper_prefix_lc e else []) @ php_name [''opentelemetry'', ''distro'', ''phppartfacade'']"

definition facade_method :: "facade_engine \<Rightarrow> bool \<Rightarrow> string \<Rightarrow> string" where
  "facade_method e scoped m =
     (if scoped then php_scoper_prefix e else []) @ php_name [''OpenTelemetry'', ''Distro'', ''PhpPartFacade::''] @ m"

definition php_callMethod :: "facade_engine \<Rightarrow> string \<Rightarrow> zval list \<Rightarrow> eg_state \<Rightarrow> bool \<times> eg_state" where
  "php_callMethod e methodName arguments eg =
     (let (saved, eg1) = saveExceptionState eg;
          (ok, exc) = call_user_function e methodName arguments
      in (ok, restoreExceptionState saved (eg1\<lparr>eg_exception := exc\<rparr>)))"

definition call_facade :: "facade_engine \<Rightarrow> bool \<Rightarrow> string \<Rightarrow> zval list \<Rightarrow> eg_state \<Rightarrow> bool \<times> eg_state" where
  "call_facade e scoped m arguments eg =
     (if class_exists e (getFacadeClassName e scoped)
      then php_callMethod e (facade_method e scoped m) arguments eg else (False, eg))"

definition callPHPSideEntryPoint :: "facade_engine \<Rightarrow> bool \<Rightarrow> LogLevel \<Rightarrow> int \<Rightarrow> eg_state \<Rightarrow> bool \<times> eg_state" where
  "callPHPSideEntryPoint e scoped logLevel requestInitStart_us eg =
     call_facade e scoped ''bootstrap''
       [AutoZval_set (Cpp_String (distro_version e)), AutoZval_set (Cpp_Integer (int (level_code logLevel))),
        AutoZval_set (Cpp_Float (double_of_long requestInitStart_us))] eg"

definition callPHPSideExitPoint :: "facade_engine \<Rightarrow> bool \<Rightarrow> eg_state \<Rightarrow> bool \<times> eg_state" where
  "callPHPSideExitPoint e scoped eg = call_facade e scoped ''shutdown'' [] eg"

definition callPHPSideErrorHandler ::
    "facade_engine \<Rightarrow> bool \<Rightarrow> int \<Rightarrow> string \<Rightarrow> nat \<Rightarrow> string \<Rightarrow> eg_state \<Rightarrow> bool \<times> eg_state" where
  "callPHPSideErrorHandler e scoped type errorFilename errorLineno message eg =
     call_facade e scoped ''handleError''
       [AutoZval_set (Cpp_Integer type), AutoZval_set (Cpp_String errorFilename),
        AutoZval_set (Cpp_Integer (int errorLineno)), AutoZval_set (Cpp_String message)] eg"

definition callInferredSpans :: "facade_engine \<Rightarrow> bool \<Rightarrow> int \<Rightarrow> bool \<Rightarrow> eg_state \<Rightarrow> bool \<times> eg_state" where
  "callInferredSpans e scoped duration internal eg =
     call_facade e scoped ''inferredSpans'' [AutoZval_set (Cpp_Integer duration), AutoZval_set (Cpp_Bool internal)] eg"

subsection \<open>Loading a file\<close>

text \<open>
  Whether the file opens; whether it compiles, with the exception the compiler leaves; the
  exception its execution leaves.
\<close>

record php_compiler =
  stream_open :: "string \<Rightarrow> bool"
  zend_compile_file :: "string \<Rightarrow> bool \<times> object_id option"
  zend_execute :: "string \<Rightarrow> object_id option"

definition open_compile_execute :: "facade_engine \<Rightarrow> php_compiler \<Rightarrow> string \<Rightarrow> eg_state \<Rightarrow> unit result \<times> eg_state" where
  "open_compile_execute e c fileName eg =
     (let message = (\<lambda>x. exceptionToString (map_option (exception_object e) x))
      in if \<not> stream_open c fileName
         then (Inl (Runtime_Error (''Unable to open file for compilation '' @ quoted fileName)), eg)
         else let (opArray, x) = zend_compile_file c fileName; eg1 = eg\<lparr>eg_exception := x\<rparr>
           in if \<not> opArray
              then (Inl (Runtime_Error (''Error during compilation of file '' @ quoted fileName @ '' '' @ message x)), eg1)
              else let y = zend_execute c fileName; eg2 = eg1\<lparr>eg_exception := y\<rparr>
                in (if y \<noteq> None
                    then Inl (Runtime_Error (''Error during execution of file '' @ quoted fileName @ ''. '' @ message y))
                    else Inr (), eg2))"

definition compileAndExecuteFile :: "facade_engine \<Rightarrow> php_compiler \<Rightarrow> string \<Rightarrow> eg_state \<Rightarrow> unit result \<times> eg_state" where
  "compileAndExecuteFile e c fileName eg =
     (if fileName = []
      then (Inl (Invalid_Argument ''File name provided for compilation and execution cannot be empty''), eg)
      else let (exceptionState, eg1) = saveExceptionState eg;
               (r, eg2) = open_compile_execute e c fileName eg1
           in (r, restoreExceptionState exceptionState (eg2\<lparr>eg_exception := None\<rparr>)))"

subsection \<open>Opcache\<close>

text \<open>INI entries, which callbacks the SAPI module has, the script, and \<open>opcache_get_status\<close>.\<close>

record opcache_env =
  sapi_name :: string
  ini_opcache_enable :: bool
  ini_opcache_enable_cli :: bool
  ini_preload :: "string option"
  ini_restrict_api :: "string option"
  sapi_activate :: bool
  sapi_deactivate :: bool
  sapi_register_server_variables :: bool
  sapi_getenv :: bool
  path_translated :: "string option"
  status_function_exists :: bool
  opcache_get_status :: "bool \<times> zval"

definition isOpcacheEnabled :: "opcache_env \<Rightarrow> bool" where
  "isOpcacheEnabled oc = (if sapi_name oc = ''cli'' then ini_opcache_enable_cli oc else ini_opcache_enable oc)"

definition detectOpcachePreload :: "opcache_env \<Rightarrow> bool" where
  "detectOpcachePreload oc =
     (if \<not> isOpcacheEnabled oc then False
      else case ini_preload oc of
             None \<Rightarrow> False
           | Some v \<Rightarrow> if v = [] then False else \<not> sapi_activate oc \<and> \<not> sapi_deactivate oc
               \<and> \<not> sapi_register_server_variables oc \<and> \<not> sapi_getenv oc)"

definition isScriptRestricedByOpcacheAPI :: "opcache_env \<Rightarrow> bool" where
  "isScriptRestricedByOpcacheAPI oc =
     (if \<not> isOpcacheEnabled oc then False
      else case ini_restrict_api oc of
             None \<Rightarrow> False
           | Some restrict_api \<Rightarrow>
               if restrict_api = [] then False
               else (case path_translated oc of
                   None \<Rightarrow> True
                 | Some path \<Rightarrow> length path < length restrict_api \<or> take (length restrict_api) path \<noteq> restrict_api))"

definition detectOpcacheRestartPending :: "opcache_env \<Rightarrow> bool" where
  "detectOpcacheRestartPending oc =
     (if \<not> isOpcacheEnabled oc then False
      else if \<not> status_function_exists oc then False
      else case opcache_get_status oc of
             (True, Arr es _) \<Rightarrow> map_of es (Str_Key ''restart_pending'') = Some (Bool True)
           | _ \<Rightarrow> False)"

subsection \<open>PHP code cannot disturb the exception state\<close>

lemma php_callMethod_eg: "snd (php_callMethod e m ps eg) = eg"
  using restored [of "(snd (saveExceptionState eg))\<lparr>eg_exception := snd (call_user_function e m ps)\<rparr>" eg]
  by (simp add: php_callMethod_def saveExceptionState_def Let_def case_prod_beta)

lemma call_facade_eg [simp]: "snd (call_facade e scoped m ps eg) = eg"
  by (simp add: call_facade_def php_callMethod_eg)

lemma open_compile_execute_opline:
  "eg_opline (snd (open_compile_execute e c f eg)) = eg_opline eg"
  by (simp add: open_compile_execute_def Let_def split: prod.split)

lemma compile_eg [simp]: "snd (compileAndExecuteFile e c f eg) = eg"
proof (cases "f = []")
  case False
  let ?eg2 = "snd (open_compile_execute e c f (snd (saveExceptionState eg)))\<lparr>eg_exception := None\<rparr>"
  have "(eg_opline ?eg2 = None) = (eg_opline eg = None)"
    by (simp add: open_compile_execute_opline) (simp add: saveExceptionState_def)
  from restored [OF this] show ?thesis
    using False by (simp add: compileAndExecuteFile_def saveExceptionState_def Let_def case_prod_beta)
qed (simp add: compileAndExecuteFile_def)

text \<open>
  Calling the facade of the PHP part (its entry point, exit point, error handler and inferred
  spans) and loading a file leave the engine's exception state as it was, whatever
  the PHP code throws; loading a file succeeds exactly if it has a name, opens, compiles, and runs
  without leaving an exception.
\<close>

lemma bridge_calls_keep_exception_state:
  "snd (compileAndExecuteFile e c fileName eg) = eg \<and> snd (callPHPSideEntryPoint e scoped lvl start eg) = eg
   \<and> snd (callPHPSideExitPoint e scoped eg) = eg \<and> snd (callPHPSideErrorHandler e scoped t fn lineno msg eg) = eg
   \<and> snd (callInferredSpans e scoped d internal eg) = eg
   \<and> (fst (compileAndExecuteFile e c fileName eg) = Inr () \<longleftrightarrow>
        fileName \<noteq> [] \<and> stream_open c fileName \<and> fst (zend_compile_file c fileName) \<and> zend_execute c fileName = None)"
  by (simp add: callPHPSideEntryPoint_def callPHPSideExitPoint_def callPHPSideErrorHandler_def callInferredSpans_def)
    (auto simp: compileAndExecuteFile_def open_compile_execute_def Let_def split: prod.split)

subsection \<open>Classes, objects and the platform\<close>

text \<open>
  The class table of the engine, by lower-case names, and its functions that read properties are
  parameters; the platform is a string or missing.
\<close>

definition findClassEntry :: "(string \<rightharpoonup> 'c) \<Rightarrow> string \<Rightarrow> 'c option" where
  "findClassEntry class_table className = class_table className"

definition getClassStaticPropertyValue :: "('c \<Rightarrow> string \<Rightarrow> zval option) \<Rightarrow> 'c option \<Rightarrow> string \<Rightarrow> zval option" where
  "getClassStaticPropertyValue zend_read_static ce propertyName =
     (case ce of None \<Rightarrow> None | Some c \<Rightarrow> zend_read_static c propertyName)"

definition getClassPropertyValue :: "php_engine \<Rightarrow> zval \<Rightarrow> string \<Rightarrow> zval option" where
  "getClassPropertyValue e object propertyName =
     (if isObject object then zend_read_property e object propertyName else None)"

definition isObjectOfClass :: "zval option \<Rightarrow> string \<Rightarrow> bool" where
  "isObjectOfClass object className =
     (case object of Some (Obj cls _) \<Rightarrow> cls = className | _ \<Rightarrow> False)"

definition getCurrentExceptionMessage :: "throwable option \<Rightarrow> string option" where
  "getCurrentExceptionMessage current =
     (case current of None \<Rightarrow> None | Some x \<Rightarrow> getExceptionMessage x)"

definition phpUname :: "(char \<Rightarrow> string option) \<Rightarrow> char \<Rightarrow> string" where
  "phpUname php_get_uname mode = (case php_get_uname mode of Some s \<Rightarrow> s | None \<Rightarrow> [])"

text \<open>The two tests for the class of a value agree where the stricter one does not throw.\<close>

lemma isObjectOfClass_instanceOf:
  "isObjectOfClass (Some v) cls \<longleftrightarrow> instanceOf v cls = Inr True"
  by (cases v) (auto simp: isObjectOfClass_def)

lemma property_of_object:
  "getClassPropertyValue e v n \<noteq> None \<Longrightarrow> readProperty e v n = Inr (the (getClassPropertyValue e v n))"
  by (auto simp: getClassPropertyValue_def readProperty_def AutoZval_of_pointer_def split: if_splits option.splits)

end
