(* ===== verification/AutoloaderGuard.thy ===== *)
theory AutoloaderGuard
  imports Prelude "HOL-Library.Sublist" "HOL-Library.List_Lexorder" "HOL-Library.Char_ord"
begin

section \<open>The dependency autoloader guard\<close>

text \<open>
  \<open>DependencyAutoLoaderGuard\<close> keeps an application from compiling its own copy of a library
  file that the distribution has already loaded. It remembers which files of its vendor
  directory were compiled, by reading the engine's class and function tables from where it
  stopped the last time (\<open>PhpBridge::getNewlyCompiledFiles\<close>), and discards the compilation of a
  file that lies at the same place below another \<open>vendor\<close> directory. The main result says that
  the incremental reading never makes a difference: every answer depends on the current
  tables only.
\<close>

subsection \<open>The engine's tables\<close>

text \<open>
  A table is read in bucket order; \<open>None\<close> is a bucket whose entry was deleted. An entry is
  a class or a function, with the file of a user-defined one.
\<close>

record table_entry =
  user_defined :: bool
  entry_file :: "string option"

type_synonym zend_table = "table_entry option list"

record php_tables =
  class_table :: zend_table
  function_table :: zend_table

fun table_files :: "zend_table \<Rightarrow> string list" where
  "table_files [] = []"
| "table_files (None # tbl) = table_files tbl"
| "table_files (Some e # tbl) =
     (case entry_file e of
        Some f \<Rightarrow> if user_defined e then f # table_files tbl else table_files tbl
      | None \<Rightarrow> table_files tbl)"

definition getCompiledFiles :: "php_tables \<Rightarrow> string list" where
  "getCompiledFiles t = table_files (class_table t) @ table_files (function_table t)"

text \<open>
  The loop starts at bucket \<open>from\<close> and counts the entries it meets, not the buckets: after a
  deleted bucket the count lags behind and some entries are read again.
\<close>

definition scan_table :: "zend_table \<Rightarrow> nat \<Rightarrow> string list \<times> nat" where
  "scan_table tbl from =
     (table_files (drop from tbl), from + length (filter (\<lambda>b. b \<noteq> None) (drop from tbl)))"

definition getNewlyCompiledFiles :: "php_tables \<Rightarrow> nat \<Rightarrow> nat \<Rightarrow> string list \<times> nat \<times> nat" where
  "getNewlyCompiledFiles t lastClassIndex lastFunctionIndex =
     (let (cfiles, lastClass) = scan_table (class_table t) lastClassIndex;
          (ffiles, lastFunction) = scan_table (function_table t) lastFunctionIndex
      in (cfiles @ ffiles, lastClass, lastFunction))"

subsection \<open>The guard\<close>

text \<open>\<open>std::set<std::string_view>\<close> is a list without duplicates in ascending byte order.\<close>

record DependencyAutoLoaderGuard =
  compiledFiles :: "string list"
  lastClass :: nat
  lastFunction :: nat
  vendorPath :: string

definition DependencyAutoLoaderGuard_ctor :: DependencyAutoLoaderGuard where
  "DependencyAutoLoaderGuard_ctor = \<lparr>compiledFiles = [], lastClass = 0, lastFunction = 0, vendorPath = []\<rparr>"

definition guard_clear :: "DependencyAutoLoaderGuard \<Rightarrow> DependencyAutoLoaderGuard" where
  "guard_clear g = g\<lparr>lastClass := 0, lastFunction := 0, compiledFiles := []\<rparr>"

text \<open>\<open>std::filesystem::path::parent_path\<close> and \<open>operator/=\<close> with a relative path, on POSIX.\<close>

definition parent_path :: "string \<Rightarrow> string" where
  "parent_path s =
     (if \<forall>c \<in> set s. c = CHR ''/'' then s
      else let upto_slash = rev (dropWhile (\<lambda>c. c \<noteq> CHR ''/'') (rev s));
               dir = rev (dropWhile (\<lambda>c. c = CHR ''/'') (rev upto_slash))
           in if dir = [] then take 1 upto_slash else dir)"

definition path_append :: "string \<Rightarrow> string \<Rightarrow> string" where
  "path_append d x = (if d = [] \<or> last d = CHR ''/'' then d @ x else d @ CHR ''/'' # x)"

definition setBootstrapPath :: "nat \<Rightarrow> nat \<Rightarrow> string \<Rightarrow> DependencyAutoLoaderGuard \<Rightarrow> DependencyAutoLoaderGuard" where
  "setBootstrapPath major minor bootstrapFilePath g =
     g\<lparr>vendorPath := c_str (path_append (parent_path bootstrapFilePath)
         (nat_to_string major @ nat_to_string minor @ ''/vendor''))\<rparr>"

text \<open>The callback that \<open>getNewlyCompiledFiles\<close> calls for each file.\<close>

definition record_file :: "string \<Rightarrow> string \<Rightarrow> string list \<Rightarrow> string list" where
  "record_file vp name files =
     (if starts_with name vp then
        (if starts_with (drop (length vp) name) ''/composer/'' then files else insort_insert name files)
      else files)"

text \<open>\<open>std::find_if\<close> over the set; the \<open>substr\<close> in the predicate may throw.\<close>

fun find_stored :: "string \<Rightarrow> nat \<Rightarrow> string list \<Rightarrow> bool result" where
  "find_stored afterVendor bootstrapLen [] = Inr False"
| "find_stored afterVendor bootstrapLen (f # fs) =
     bind_result (substr_from f (bootstrapLen + 1))
       (\<lambda>fileView. if fileView = afterVendor then Inr True else find_stored afterVendor bootstrapLen fs)"

definition wasDeliveredByDistro :: "string \<Rightarrow> DependencyAutoLoaderGuard \<Rightarrow> bool result" where
  "wasDeliveredByDistro fileName g =
     (case find_sub ''/vendor/'' fileName of
        None \<Rightarrow> Inr False
      | Some vendorPos \<Rightarrow>
          find_stored (drop (vendorPos + 8) fileName) (length (vendorPath g)) (compiledFiles g))"

text \<open>
  \<open>resolve\<close> is what the file system makes of the name: the canonical path if the file exists,
  the name if not, or an exception. Every \<open>std::exception\<close> is caught and answered with false.
\<close>

definition shouldDiscardFileCompilation ::
    "(string \<Rightarrow> string result) \<Rightarrow> php_tables \<Rightarrow> string \<Rightarrow> DependencyAutoLoaderGuard \<Rightarrow> bool \<times> DependencyAutoLoaderGuard" where
  "shouldDiscardFileCompilation resolve t fileName g =
     (case resolve fileName of
        Inl _ \<Rightarrow> (False, g)
      | Inr compiledFilePath \<Rightarrow>
          if starts_with compiledFilePath (vendorPath g) then (False, g)
          else let (files, lc, lf) = getNewlyCompiledFiles t (lastClass g) (lastFunction g);
                   g' = g\<lparr>compiledFiles := fold (record_file (vendorPath g)) files (compiledFiles g),
                          lastClass := lc, lastFunction := lf\<rparr>
               in (case wasDeliveredByDistro compiledFilePath g' of Inl _ \<Rightarrow> False | Inr b \<Rightarrow> b, g'))"

subsection \<open>What the guard promises\<close>

definition distro_files :: "string \<Rightarrow> php_tables \<Rightarrow> string set" where
  "distro_files vp t = {f \<in> set (getCompiledFiles t).
     starts_with f vp \<and> \<not> starts_with (drop (length vp) f) ''/composer/''}"

text \<open>
  A path is a duplicate when it is outside the distribution's vendor directory and what
  follows its first \<open>/vendor/\<close> is what follows the vendor directory and one more character in a
  compiled file of the distribution. A compiled file named like the directory itself spoils
  the search.
\<close>

definition duplicate_of_distro :: "string \<Rightarrow> php_tables \<Rightarrow> string \<Rightarrow> bool" where
  "duplicate_of_distro vp t p \<longleftrightarrow> \<not> starts_with p vp \<and> vp \<notin> distro_files vp t \<and>
     (\<exists>pos. find_sub ''/vendor/'' p = Some pos \<and> (\<exists>f \<in> distro_files vp t. \<exists>c. f = vp @ c # drop (pos + 8) p))"

definition tables_grow :: "php_tables \<Rightarrow> php_tables \<Rightarrow> bool" where
  "tables_grow t t' \<longleftrightarrow> prefix (class_table t) (class_table t') \<and> prefix (function_table t) (function_table t')"

text \<open>The calls of one request: what the file system says, the tables, and the file name.\<close>

type_synonym guard_call = "(string \<Rightarrow> string result) \<times> php_tables \<times> string"

fun guard_run :: "guard_call list \<Rightarrow> DependencyAutoLoaderGuard \<Rightarrow> DependencyAutoLoaderGuard" where
  "guard_run [] g = g"
| "guard_run ((resolve, t, f) # calls) g = guard_run calls (snd (shouldDiscardFileCompilation resolve t f g))"

subsection \<open>Reading the tables piece by piece\<close>

lemma table_files_append [simp]: "table_files (a @ b) = table_files a @ table_files b"
  by (induction a rule: table_files.induct) (auto split: option.splits)

lemma record_file_sorted [simp]: "sorted fs \<and> distinct fs \<Longrightarrow> sorted (record_file vp f fs) \<and> distinct (record_file vp f fs)"
  by (simp add: record_file_def sorted_insort_insert distinct_insort_insert)

lemma fold_record_sorted:
  "sorted fs \<and> distinct fs \<Longrightarrow> sorted (fold (record_file vp) xs fs) \<and> distinct (fold (record_file vp) xs fs)"
  by (induction xs arbitrary: fs) simp_all

lemma fold_record_set:
  "set (fold (record_file vp) xs fs) = set fs \<union>
     {f \<in> set xs. starts_with f vp \<and> \<not> starts_with (drop (length vp) f) ''/composer/''}"
  by (induction xs arbitrary: fs) (auto simp: record_file_def set_insort_insert)

lemma scan_complete:
  assumes "prefix old tbl" "from \<le> length old"
  shows "set (table_files old) \<union> set (table_files (drop from tbl)) = set (table_files tbl)"
proof -
  from assms obtain rest where tbl: "tbl = old @ rest" by (auto simp: prefix_def)
  have "set (table_files old) = set (table_files (take from old)) \<union> set (table_files (drop from old))"
    by (metis append_take_drop_id set_append table_files_append)
  with assms(2) show ?thesis by (auto simp: tbl)
qed

lemma scan_bound: "from \<le> length tbl \<Longrightarrow> snd (scan_table tbl from) \<le> length tbl"
  using length_filter_le [of "\<lambda>b. b \<noteq> None" "drop from tbl"] by (simp add: scan_table_def)

text \<open>The invariant: the guard holds the distribution's files of some earlier tables.\<close>

definition guard_inv :: "php_tables \<Rightarrow> DependencyAutoLoaderGuard \<Rightarrow> bool" where
  "guard_inv t g \<longleftrightarrow> sorted (compiledFiles g) \<and> distinct (compiledFiles g) \<and>
     (\<exists>t0. tables_grow t0 t \<and> set (compiledFiles g) = distro_files (vendorPath g) t0 \<and>
        lastClass g \<le> length (class_table t0) \<and> lastFunction g \<le> length (function_table t0))"

lemma guard_inv_clear: "guard_inv t (guard_clear g)"
proof -
  have "tables_grow \<lparr>class_table = [], function_table = []\<rparr> t" by (simp add: tables_grow_def)
  then show ?thesis unfolding guard_inv_def
    by (intro conjI exI [where x = "\<lparr>class_table = [], function_table = []\<rparr>"])
      (simp_all add: guard_clear_def distro_files_def getCompiledFiles_def)
qed

lemma guard_inv_grow: "guard_inv t g \<Longrightarrow> tables_grow t t' \<Longrightarrow> guard_inv t' g"
  unfolding guard_inv_def tables_grow_def by (meson prefix_order.trans)

text \<open>A call that reads the tables knows them completely afterwards.\<close>

lemma guard_reads_all:
  assumes inv: "guard_inv t g"
    and reads: "resolve f = Inr p" "\<not> starts_with p (vendorPath g)"
  shows "set (compiledFiles (snd (shouldDiscardFileCompilation resolve t f g))) = distro_files (vendorPath g) t"
    "guard_inv t (snd (shouldDiscardFileCompilation resolve t f g))"
    "vendorPath (snd (shouldDiscardFileCompilation resolve t f g)) = vendorPath g"
proof -
  let ?g = "snd (shouldDiscardFileCompilation resolve t f g)"
  from inv obtain t0 where t0: "tables_grow t0 t" "set (compiledFiles g) = distro_files (vendorPath g) t0"
      "lastClass g \<le> length (class_table t0)" "lastFunction g \<le> length (function_table t0)"
    and sd: "sorted (compiledFiles g) \<and> distinct (compiledFiles g)"
    by (auto simp: guard_inv_def)
  let ?new = "table_files (drop (lastClass g) (class_table t)) @ table_files (drop (lastFunction g) (function_table t))"
  have g: "compiledFiles ?g = fold (record_file (vendorPath g)) ?new (compiledFiles g)"
      "lastClass ?g = snd (scan_table (class_table t) (lastClass g))"
      "lastFunction ?g = snd (scan_table (function_table t) (lastFunction g))"
    and vp: "vendorPath ?g = vendorPath g"
    using reads by (simp_all add: shouldDiscardFileCompilation_def getNewlyCompiledFiles_def scan_table_def Let_def)
  have "set (getCompiledFiles t0) \<union> set ?new = set (getCompiledFiles t)"
    using scan_complete [of "class_table t0" "class_table t"] scan_complete [of "function_table t0" "function_table t"] t0
    by (auto simp: getCompiledFiles_def tables_grow_def)
  then show files: "set (compiledFiles ?g) = distro_files (vendorPath g) t"
    by (auto simp: g fold_record_set t0(2) distro_files_def)
  show "vendorPath ?g = vendorPath g" by (rule vp)
  have "lastClass g \<le> length (class_table t)" "lastFunction g \<le> length (function_table t)"
    using t0 by (auto simp: tables_grow_def dest: prefix_length_le)
  then show "guard_inv t ?g"
    unfolding guard_inv_def using files fold_record_sorted [OF sd]
    by (intro conjI exI [where x = t]) (simp_all only: g vp scan_bound tables_grow_def prefix_order.refl simp_thms)
qed

lemma guard_step:
  assumes "guard_inv t g"
  shows "guard_inv t (snd (shouldDiscardFileCompilation resolve t f g))"
    "vendorPath (snd (shouldDiscardFileCompilation resolve t f g)) = vendorPath g"
proof -
  let ?g = "snd (shouldDiscardFileCompilation resolve t f g)"
  have "guard_inv t ?g \<and> vendorPath ?g = vendorPath g"
  proof (cases "\<exists>p. resolve f = Inr p \<and> \<not> starts_with p (vendorPath g)")
    case True
    then show ?thesis using guard_reads_all [OF assms, where resolve = resolve and f = f] by blast
  next
    case False
    then show ?thesis using assms
      by (cases "resolve f") (simp_all add: shouldDiscardFileCompilation_def)
  qed
  then show "guard_inv t ?g" "vendorPath ?g = vendorPath g" by blast+
qed

lemma guard_run_inv:
  assumes "guard_inv t0 g" "sorted_wrt tables_grow (map (\<lambda>c. fst (snd c)) (calls @ [c]))"
    "\<forall>c' \<in> set (calls @ [c]). tables_grow t0 (fst (snd c'))"
  shows "guard_inv (fst (snd c)) (guard_run calls g) \<and> vendorPath (guard_run calls g) = vendorPath g"
  using assms
proof (induction calls arbitrary: g t0)
  case Nil
  then show ?case by (auto intro: guard_inv_grow)
next
  case (Cons call calls)
  obtain resolve t f where call: "call = (resolve, t, f)" by (rule prod_cases3)
  have inv: "guard_inv t g" using Cons.prems by (auto simp: call intro: guard_inv_grow)
  from Cons.prems have "sorted_wrt tables_grow (map (\<lambda>c. fst (snd c)) (calls @ [c]))"
    "\<forall>c' \<in> set (calls @ [c]). tables_grow t (fst (snd c'))"
    by (auto simp: call)
  from Cons.IH [OF guard_step(1) [OF inv, where resolve = resolve and f = f] this] guard_step(2) [OF inv, where resolve = resolve and f = f]
  show ?case by (simp add: call)
qed

subsection \<open>The search in the ordered set\<close>

lemma starts_with_split: "starts_with f vp \<longleftrightarrow> (\<exists>r. f = vp @ r)"
  by (metis append_eq_conv_conj starts_with_def)

lemma prefix_least: "(vp :: string) \<le> vp @ r"
  by (induction vp) simp_all

text \<open>The vendor directory's own name, if it was recorded, is the first element and throws.\<close>

lemma find_stored_throws:
  assumes "sorted fs" "vp \<in> set fs" "\<forall>f \<in> set fs. starts_with f vp"
  shows "\<exists>e. find_stored a (length vp) fs = Inl e"
proof (cases fs)
  case Nil
  with assms show ?thesis by simp
next
  case (Cons f rest)
  with assms have "f \<le> vp" "vp \<le> f" by (auto simp: starts_with_split prefix_least)
  then have "f = vp" by simp
  then show ?thesis by (simp add: Cons substr_from_def bind_result_def)
qed

lemma find_stored_finds:
  assumes "vp \<notin> set fs" "\<forall>f \<in> set fs. starts_with f vp"
  shows "find_stored a (length vp) fs = Inr (\<exists>f \<in> set fs. \<exists>c. f = vp @ c # a)"
  using assms
proof (induction fs)
  case Nil
  then show ?case by simp
next
  case (Cons f fs)
  then obtain r where "f = vp @ r" "r \<noteq> []" by (auto simp: starts_with_split)
  then obtain c r' where "f = vp @ c # r'" by (auto simp: neq_Nil_conv)
  with Cons show ?case by (auto simp: substr_from_def bind_result_def)
qed

lemma wasDelivered_iff:
  assumes "guard_inv t' g" "set (compiledFiles g) = distro_files (vendorPath g) t" "\<not> starts_with p (vendorPath g)"
  shows "(case wasDeliveredByDistro p g of Inl _ \<Rightarrow> False | Inr b \<Rightarrow> b) = duplicate_of_distro (vendorPath g) t p"
proof (cases "find_sub ''/vendor/'' p")
  case None
  then show ?thesis by (simp add: wasDeliveredByDistro_def duplicate_of_distro_def)
next
  case (Some pos)
  let ?vp = "vendorPath g" and ?fs = "compiledFiles g"
  have sorted: "sorted ?fs" and all: "\<forall>f \<in> set ?fs. starts_with f ?vp"
    using assms by (auto simp: guard_inv_def distro_files_def)
  show ?thesis
  proof (cases "?vp \<in> set ?fs")
    case True
    from find_stored_throws [OF sorted True all] obtain e
      where "find_stored (drop (pos + 8) p) (length ?vp) ?fs = Inl e" by blast
    with True Some assms show ?thesis by (simp add: wasDeliveredByDistro_def duplicate_of_distro_def)
  next
    case False
    from find_stored_finds [OF False all] False Some assms show ?thesis
      by (simp add: wasDeliveredByDistro_def duplicate_of_distro_def)
  qed
qed

text \<open>
  C24. Within one request, whatever files were asked about before, while the engine's tables only
  grow: \<open>shouldDiscardFileCompilation\<close> answers true exactly for the duplicates of a distribution
  file that is compiled by now. A file of the distribution itself, a file outside every
  \<open>vendor\<close> directory, a counterpart of a composer file, and a path the file system cannot
  resolve are never discarded.
\<close>

theorem guard_discards_exactly_duplicates:
  assumes "sorted_wrt tables_grow (map (\<lambda>c. fst (snd c)) (calls @ [(resolve, t, f)]))"
  shows "fst (shouldDiscardFileCompilation resolve t f (guard_run calls (guard_clear g))) =
    (case resolve f of Inl _ \<Rightarrow> False | Inr p \<Rightarrow> duplicate_of_distro (vendorPath g) t p)"
proof -
  let ?g = "guard_run calls (guard_clear g)" and ?e = "\<lparr>class_table = [], function_table = []\<rparr>"
  have "\<forall>c \<in> set (calls @ [(resolve, t, f)]). tables_grow ?e (fst (snd c))" by (simp add: tables_grow_def)
  from guard_run_inv [OF guard_inv_clear assms this] have inv: "guard_inv t ?g" and vp: "vendorPath ?g = vendorPath g"
    by (simp_all add: guard_clear_def)
  show ?thesis
  proof (cases "\<exists>p. resolve f = Inr p \<and> \<not> starts_with p (vendorPath ?g)")
    case True
    then obtain p where p: "resolve f = Inr p" "\<not> starts_with p (vendorPath ?g)" by blast
    note g = guard_reads_all [where resolve = resolve and f = f, OF inv p]
    from p have "fst (shouldDiscardFileCompilation resolve t f ?g) =
      (case wasDeliveredByDistro p (snd (shouldDiscardFileCompilation resolve t f ?g)) of Inl _ \<Rightarrow> False | Inr b \<Rightarrow> b)"
      by (simp add: shouldDiscardFileCompilation_def Let_def split: prod.splits)
    also have "\<dots> = duplicate_of_distro (vendorPath g) t p"
      using wasDelivered_iff [OF g(2)] g(1,3) p vp by simp
    finally show ?thesis by (simp add: p)
  next
    case False
    then show ?thesis
      by (cases "resolve f") (simp_all add: shouldDiscardFileCompilation_def duplicate_of_distro_def vp)
  qed
qed

definition demo_entry :: "string \<Rightarrow> table_entry option" where
  "demo_entry f = Some \<lparr>user_defined = True, entry_file = Some f\<rparr>"

theorem guard_discards_exactly_duplicates_witness:
  "let t1 = \<lparr>class_table = [demo_entry ''/d/84/vendor/a/x.php'', None], function_table = []\<rparr>;
       t2 = \<lparr>class_table = [demo_entry ''/d/84/vendor/a/x.php'', None, demo_entry ''/d/84/vendor/b.php''], function_table = []\<rparr>;
       g = guard_run [(Inr, t1, ''/app/i.php'')] (guard_clear (setBootstrapPath 8 4 ''/d/boot.php'' DependencyAutoLoaderGuard_ctor))
   in fst (shouldDiscardFileCompilation Inr t2 ''/app/vendor/b.php'' g)"
proof -
  have calls: "sorted_wrt tables_grow (map (\<lambda>c :: guard_call. fst (snd c))
    ([(Inr, \<lparr>class_table = [demo_entry ''/d/84/vendor/a/x.php'', None], function_table = []\<rparr>, ''/app/i.php'')] @
     [(Inr, \<lparr>class_table = [demo_entry ''/d/84/vendor/a/x.php'', None, demo_entry ''/d/84/vendor/b.php''], function_table = []\<rparr>, ''/app/vendor/b.php'')]))"
    by (simp add: tables_grow_def)
  have "vendorPath (setBootstrapPath 8 4 ''/d/boot.php'' DependencyAutoLoaderGuard_ctor) = ''/d/84/vendor''"
    by code_simp
  then show ?thesis
    unfolding Let_def guard_discards_exactly_duplicates [OF calls]
    by (simp add: duplicate_of_distro_def distro_files_def getCompiledFiles_def demo_entry_def starts_with_def,
        intro exI [where x = "''/d/84/vendor/b.php''"], simp)
qed

end
