(* ===== verification/UrlCodec.thy ===== *)
theory UrlCodec
  imports TextUtils
begin

text \<open>
  The parts of \<open>CommonUtils.cpp\<close> that read what users and servers write about HTTP:
  percent-encoded header lists, URLs, and \<open>Retry-After\<close> values. The Boost regular
  expression of \<open>getConnectionDetailsFromURL\<close> and the date scanner behind
  \<open>std::get_time\<close> are parameters.
\<close>

subsection \<open>percentDecode\<close>

text \<open>The index \<open>i\<close> of the loop is the length of what has been consumed.\<close>

fun percentDecode :: "string \<Rightarrow> string" where
  "percentDecode (c # h # l # rest) =
     (if c = CHR ''%'' \<and> isxdigit h \<and> isxdigit l
      then char_of (xdigit_value h * 16 + xdigit_value l) # percentDecode rest
      else c # percentDecode (h # l # rest))"
| "percentDecode [a, b] = [a, b]"
| "percentDecode [a] = [a]"
| "percentDecode [] = []"

subsection \<open>parseUrlEncodedKeyValueString\<close>

text \<open>\<open>std::map::insert\<close> leaves an existing key alone.\<close>

definition insert_pair :: "string \<Rightarrow> (string \<rightharpoonup> string) \<Rightarrow> (string \<rightharpoonup> string)" where
  "insert_pair pair result =
     (case find_char (CHR ''='') pair of
        None \<Rightarrow> result
      | Some equal_pos \<Rightarrow> emplace result (take equal_pos pair) (percentDecode (drop (equal_pos + 1) pair)))"

function kv_loop :: "(string \<rightharpoonup> string) \<Rightarrow> string \<Rightarrow> (string \<rightharpoonup> string)" where
  "kv_loop result input =
     (if input = [] then result
      else case find_char (CHR '','') input of
        None \<Rightarrow> insert_pair input result
      | Some commaPos \<Rightarrow> kv_loop (insert_pair (take commaPos input) result) (drop (commaPos + 1) input))"
  by pat_completeness auto
termination
  by (relation "measure (length \<circ> snd)") (auto dest: find_char_SomeD)

declare kv_loop.simps [simp del]

definition parseUrlEncodedKeyValueString :: "string \<Rightarrow> (string \<rightharpoonup> string)" where
  "parseUrlEncodedKeyValueString input = kv_loop Map.empty input"

subsection \<open>parseUrl\<close>

record ParsedURL =
  protocol :: string
  host :: string
  port :: "string option"
  query :: "string option"

text \<open>The character classes of the ECMAScript pattern: \<open>[\w.-]\<close> and the dot.\<close>

definition is_alpha :: "char \<Rightarrow> bool" where
  "is_alpha c = (in_range 65 90 c \<or> in_range 97 122 c)"

definition host_char :: "char \<Rightarrow> bool" where
  "host_char c = (is_alpha c \<or> isdigit c \<or> c = CHR ''_'' \<or> c = CHR ''.'' \<or> c = CHR ''-'')"

definition dot_char :: "char \<Rightarrow> bool" where
  "dot_char c = (char_code c \<noteq> 10 \<and> char_code c \<noteq> 13)"

text \<open>
  \<open>(http|https)://([\w.-]+)(?::(\d+))?(?:/(.*))?\<close>, matched against the whole text. Each
  group is followed by a character it cannot contain, so the match is the greedy one.
\<close>

definition match_path :: "string \<Rightarrow> string option option" where
  "match_path s = (case s of
       [] \<Rightarrow> Some None
     | c # cs \<Rightarrow> if c = CHR ''/'' \<and> list_all dot_char cs then Some (Some cs) else None)"

definition match_port :: "string \<Rightarrow> (string option \<times> string option) option" where
  "match_port s = (case s of
       c # cs \<Rightarrow>
         if c = CHR '':'' then
           (let ds = takeWhile isdigit cs in
            if ds = [] then None
            else map_option (\<lambda>q. (Some ds, q)) (match_path (dropWhile isdigit cs)))
         else map_option (\<lambda>q. (None, q)) (match_path s)
     | [] \<Rightarrow> Some (None, None))"

definition match_authority :: "string \<Rightarrow> string \<Rightarrow> ParsedURL option" where
  "match_authority proto s =
     (let h = takeWhile host_char s in
      if h = [] then None
      else map_option (\<lambda>(p, q). \<lparr>protocol = proto, host = h, port = p, query = q\<rparr>)
             (match_port (dropWhile host_char s)))"

definition parseUrl :: "string \<Rightarrow> ParsedURL option" where
  "parseUrl url =
     (if starts_with url ''http://'' then match_authority ''http'' (drop 7 url)
      else if starts_with url ''https://'' then match_authority ''https'' (drop 8 url)
      else None)"

subsection \<open>getConnectionDetailsFromURL\<close>

text \<open>
  \<open>regex_search\<close> stands for \<open>boost::regex_search\<close> with the pattern of the function: the
  text of group 1 and, when group 4 matched, its text.
\<close>

definition getConnectionDetailsFromURL ::
    "(string \<Rightarrow> (string \<times> string option) option) \<Rightarrow> string \<Rightarrow> string option" where
  "getConnectionDetailsFromURL regex_search url =
     (case regex_search url of
        None \<Rightarrow> None
      | Some (m1, m4) \<Rightarrow> Some (case m4 of Some p \<Rightarrow> m1 @ '':'' @ p | None \<Rightarrow> m1))"

subsection \<open>parseRetryAfter\<close>

record tm =
  tm_year :: int
  tm_mon :: int
  tm_mday :: int
  tm_hour :: int
  tm_min :: int
  tm_sec :: int

text \<open>
  \<open>std::chrono::sys_days\<close> of a civil date: days since 1970-01-01 in the proleptic
  Gregorian calendar, counting years from March.
\<close>

definition sys_days :: "int \<Rightarrow> int \<Rightarrow> int \<Rightarrow> int" where
  "sys_days year month day =
     (let y = (if month \<le> 2 then year - 1 else year);
          era = y div 400; yoe = y - era * 400;
          mp = (month + 9) mod 12;
          doy = (153 * mp + 2) div 5 + day - 1;
          doe = yoe * 365 + yoe div 4 - yoe div 100 + doy
      in era * 146097 + doe - 719468)"

definition tm_seconds :: "tm \<Rightarrow> int" where
  "tm_seconds t =
     sys_days (tm_year t + 1900) (tm_mon t + 1) (tm_mday t) * 86400
       + tm_hour t * 3600 + tm_min t * 60 + tm_sec t"

text \<open>
  \<open>value.data()\<close> is not cut at the end of the view: \<open>after\<close> is what follows it in the
  header buffer. \<open>now\<close> is the system clock in seconds, rounded down.
\<close>

definition parseRetryAfter :: "(string \<Rightarrow> tm option) \<Rightarrow> int \<Rightarrow> string \<Rightarrow> string \<Rightarrow> msec option" where
  "parseRetryAfter get_time now value after =
     (let as_date =
        (case get_time (c_str (value @ after)) of
           None \<Rightarrow> None
         | Some t \<Rightarrow>
             let target = tm_seconds t in
             if target \<le> now then Some 0 else Some ((target - now) * 1000))
      in case stoi_idx (value @ after) of
           Inr (seconds, idx) \<Rightarrow>
             if idx = length value \<and> 0 \<le> seconds then Some (seconds * 1000) else as_date
         | Inl _ \<Rightarrow> as_date)"

subsection \<open>Percent-encoding round trips\<close>

text \<open>
  The reference encoder: it escapes every percent sign and whatever else \<open>esc\<close> selects,
  with digits in the letter case \<open>up\<close> selects.
\<close>

definition hex_digit :: "bool \<Rightarrow> nat \<Rightarrow> char" where
  "hex_digit up n = char_of (if n < 10 then 48 + n else if up then 55 + n else 87 + n)"

definition percentEncode :: "bool \<Rightarrow> (char \<Rightarrow> bool) \<Rightarrow> string \<Rightarrow> string" where
  "percentEncode up esc s =
     concat (map (\<lambda>c. if c = CHR ''%'' \<or> esc c
                      then [CHR ''%'', hex_digit up (char_code c div 16), hex_digit up (char_code c mod 16)]
                      else [c]) s)"

lemma hex_digit:
  assumes "n < 16"
  shows "isxdigit (hex_digit up n)" "xdigit_value (hex_digit up n) = n"
    "hex_digit up n \<noteq> CHR '',''"
proof -
  have code: "char_code (hex_digit up n) = (if n < 10 then 48 + n else if up then 55 + n else 87 + n)"
    using assms by (auto simp: hex_digit_def intro!: char_code_char_of)
  then show "isxdigit (hex_digit up n)" "xdigit_value (hex_digit up n) = n"
    using assms by (auto simp: isxdigit_def isdigit_def in_range_def xdigit_value_def)
  show "hex_digit up n \<noteq> CHR '',''"
  proof
    assume "hex_digit up n = CHR '',''"
    then have "char_code (hex_digit up n) = 44" by (simp add: char_code_def)
    with code show False by (auto split: if_splits)
  qed
qed

lemma percentDecode_plain: "c \<noteq> CHR ''%'' \<Longrightarrow> percentDecode (c # s) = c # percentDecode s"
  by (cases s rule: percentDecode.cases) auto

lemma percentDecode_escape:
  "m < 16 \<Longrightarrow> n < 16 \<Longrightarrow>
     percentDecode (CHR ''%'' # hex_digit up m # hex_digit up n # s) = char_of (m * 16 + n) # percentDecode s"
  by (simp add: hex_digit)

lemma percentDecode_Encode: "percentDecode (percentEncode up esc s) = s"
proof (induction s)
  case Nil
  then show ?case by (simp add: percentEncode_def)
next
  case (Cons c s)
  have "char_code c div 16 < 16" "char_code c div 16 * 16 + char_code c mod 16 = char_code c"
    using char_code_bound [of c] by (simp_all del: char_code_bound)
  with Cons show ?case
    by (auto simp: percentEncode_def percentDecode_plain percentDecode_escape simp del: percentDecode.simps(1))
qed

text \<open>
  \<open>utils::percentDecode\<close> undoes percent-encoding, whichever characters beside the
  percent sign the encoder escapes and in whichever letter case it writes the digits.
\<close>

lemma percentDecode_inverts_encoding: "percentDecode (percentEncode up esc s) = s"
  by (rule percentDecode_Encode)

lemma percentEncode_no_comma:
  assumes "esc (CHR '','')"
  shows "CHR '','' \<notin> set (percentEncode up esc s)"
proof
  assume "CHR '','' \<in> set (percentEncode up esc s)"
  then obtain c where "CHR '','' \<in> {hex_digit up (char_code c div 16), hex_digit up (char_code c mod 16)}"
    using assms by (auto simp: percentEncode_def split: if_splits)
  moreover have "char_code c div 16 < 16" "char_code c mod 16 < 16"
    using char_code_bound [of c] by (simp_all del: char_code_bound)
  ultimately show False using hex_digit(3) by fastforce
qed

subsection \<open>Header lists\<close>

definition kv_item :: "bool \<Rightarrow> (char \<Rightarrow> bool) \<Rightarrow> string \<times> string \<Rightarrow> string" where
  "kv_item up esc kv = fst kv @ CHR ''='' # percentEncode up esc (snd kv)"

fun kv_render :: "bool \<Rightarrow> (char \<Rightarrow> bool) \<Rightarrow> (string \<times> string) list \<Rightarrow> string" where
  "kv_render up esc [] = []"
| "kv_render up esc [kv] = kv_item up esc kv"
| "kv_render up esc (kv # kvs) = kv_item up esc kv @ CHR '','' # kv_render up esc kvs"

definition plain_key :: "string \<Rightarrow> bool" where
  "plain_key k = (CHR '','' \<notin> set k \<and> CHR ''='' \<notin> set k)"

lemma emplace_add_map: "kvs ++ emplace m k v = (kvs(k \<mapsto> v)) ++ m"
  by (auto simp: fun_eq_iff emplace_def map_add_def split: option.splits)

lemma insert_pair_item:
  "plain_key (fst kv) \<Longrightarrow> insert_pair (kv_item up esc kv) m = emplace m (fst kv) (snd kv)"
  by (simp add: insert_pair_def kv_item_def find_char_append plain_key_def percentDecode_Encode)

lemma kv_loop_last: "CHR '','' \<notin> set s \<Longrightarrow> s \<noteq> [] \<Longrightarrow> kv_loop m s = insert_pair s m"
  by (subst kv_loop.simps) (simp add: find_char_None [THEN iffD2] del: find_char_None)

lemma kv_loop_next: "CHR '','' \<notin> set a \<Longrightarrow> kv_loop m (a @ CHR '','' # s) = kv_loop (insert_pair a m) s"
  by (subst kv_loop.simps) (simp add: find_char_append)

lemma kv_item_nonempty [simp]: "kv_item up esc kv \<noteq> []"
  by (simp add: kv_item_def)

lemma kv_item_no_comma: "plain_key (fst kv) \<Longrightarrow> esc (CHR '','') \<Longrightarrow> CHR '','' \<notin> set (kv_item up esc kv)"
  by (simp add: kv_item_def plain_key_def percentEncode_no_comma)

lemma kv_loop_render:
  assumes "esc (CHR '','')" "\<forall>kv \<in> set kvs. plain_key (fst kv)"
  shows "kv_loop m (kv_render up esc kvs) = map_of kvs ++ m"
  using assms(2)
proof (induction kvs arbitrary: m)
  case Nil
  then show ?case by (simp add: kv_loop.simps)
next
  case (Cons kv kvs)
  then have kv: "plain_key (fst kv)" "\<forall>kv \<in> set kvs. plain_key (fst kv)" by simp_all
  note item = insert_pair_item [OF kv(1)] kv_item_no_comma [where esc = esc, OF kv(1) assms(1)]
  show ?case
  proof (cases kvs)
    case Nil
    then show ?thesis
      using kv_loop_last [OF item(2), of up m] emplace_add_map [of Map.empty m "fst kv" "snd kv"] kv_item_nonempty
      by (simp add: item(1) fun_upd_def)
  next
    case (Cons v vs)
    then have "kv_loop m (kv_render up esc (kv # kvs)) = kv_loop (emplace m (fst kv) (snd kv)) (kv_render up esc kvs)"
      by (simp add: kv_loop_next item)
    then show ?thesis by (simp add: Cons.IH [OF kv(2)] emplace_add_map fun_upd_def)
  qed
qed

text \<open>
  C34. A list of headers written as \<open>key=percent-encoded value\<close> items with commas between
  them is read back by \<open>utils::parseUrlEncodedKeyValueString\<close> as the map of its pairs; of
  two items with one key the first counts.
\<close>

theorem parseUrlEncodedKeyValueString_reads_back:
  assumes "esc (CHR '','')" "\<forall>kv \<in> set kvs. plain_key (fst kv)"
  shows "parseUrlEncodedKeyValueString (kv_render up esc kvs) = map_of kvs"
  unfolding parseUrlEncodedKeyValueString_def by (subst kv_loop_render) (use assms in simp_all)

theorem parseUrlEncodedKeyValueString_reads_back_witness:
  "parseUrlEncodedKeyValueString
     (kv_render True (\<lambda>c. c = CHR '','') [(''authorization'', ''Bearer a,b%''), (''x'', ''1''), (''x'', ''2'')])
   = map_of [(''authorization'', ''Bearer a,b%''), (''x'', ''1''), (''x'', ''2'')]"
  by (rule parseUrlEncodedKeyValueString_reads_back) (simp_all add: plain_key_def)

subsection \<open>URLs\<close>

text \<open>What a URL must look like for the groups of the pattern.\<close>

definition wf_url :: "ParsedURL \<Rightarrow> bool" where
  "wf_url u = (protocol u \<in> set [''http'', ''https''] \<and> host u \<noteq> [] \<and> list_all host_char (host u)
     \<and> (case port u of None \<Rightarrow> True | Some p \<Rightarrow> p \<noteq> [] \<and> list_all isdigit p)
     \<and> (case query u of None \<Rightarrow> True | Some q \<Rightarrow> list_all dot_char q))"

definition print_url :: "ParsedURL \<Rightarrow> string" where
  "print_url u = protocol u @ ''://'' @ host u
     @ (case port u of None \<Rightarrow> [] | Some p \<Rightarrow> CHR '':'' # p)
     @ (case query u of None \<Rightarrow> [] | Some q \<Rightarrow> CHR ''/'' # q)"

lemma not_host_char [simp]: "\<not> host_char (CHR '':'')" "\<not> host_char (CHR ''/'')"
  "\<not> isdigit (CHR ''/'')"
  by (simp_all add: host_char_def is_alpha_def char_eval)

lemma match_path_iff: "match_path s = Some q \<longleftrightarrow>
    (case q of None \<Rightarrow> s = [] | Some cs \<Rightarrow> s = CHR ''/'' # cs \<and> list_all dot_char cs)"
  by (auto simp: match_path_def split: list.splits option.splits)

lemma digits_rest:
  "dropWhile isdigit t = [] \<Longrightarrow> t = takeWhile isdigit t"
  "dropWhile isdigit t = c # r \<Longrightarrow> t = takeWhile isdigit t @ c # r"
  using takeWhile_dropWhile_id [of isdigit t] by (metis append_Nil2)+

lemma match_port_iff:
  "match_port s = Some (p, q) \<longleftrightarrow>
     s = (case p of None \<Rightarrow> [] | Some ds \<Rightarrow> CHR '':'' # ds) @ (case q of None \<Rightarrow> [] | Some r \<Rightarrow> CHR ''/'' # r)
     \<and> (case p of None \<Rightarrow> True | Some ds \<Rightarrow> ds \<noteq> [] \<and> list_all isdigit ds)
     \<and> (case q of None \<Rightarrow> True | Some r \<Rightarrow> list_all dot_char r)"
  (is "?l \<longleftrightarrow> ?r")
proof
  assume ?l
  moreover note digits_rest
  ultimately show ?r
    by (cases s) (auto simp: match_port_def match_path_iff Let_def list_all_iff
        split: if_splits option.splits dest: set_takeWhileD simp del: takeWhile_dropWhile_id dropWhile_eq_Nil_conv)
next
  assume r: ?r
  have tail: "dropWhile isdigit (ds @ t) = t" "takeWhile isdigit (ds @ t) = ds"
    if "list_all isdigit ds" "t = [] \<or> hd t = CHR ''/''" for ds t
    using that by (cases t; auto simp: list_all_iff)+
  have "takeWhile isdigit ds = ds" "dropWhile isdigit ds = []" if "list_all isdigit ds" for ds
    using tail [OF that, of "[]"] by simp_all
  with r show ?l
    by (cases p; cases q) (auto simp: match_port_def match_path_def tail simp del: dropWhile_eq_Nil_conv takeWhile_eq_all_conv)
qed

lemma match_authority_iff:
  "match_authority pr s = Some u \<longleftrightarrow>
     protocol u = pr \<and> host u \<noteq> [] \<and> list_all host_char (host u)
     \<and> (\<exists>t. s = host u @ t \<and> match_port t = Some (port u, query u))"
  (is "?l \<longleftrightarrow> ?r")
proof
  assume ?l
  then show ?r
    by (auto simp: match_authority_def Let_def list_all_iff split: if_splits dest: set_takeWhileD
        intro!: exI [of _ "dropWhile host_char s"])
next
  assume ?r
  then obtain t where t: "s = host u @ t" "match_port t = Some (port u, query u)" by auto
  then have "t = [] \<or> \<not> host_char (hd t)"
    by (auto simp: match_port_iff split: option.splits)
  with \<open>?r\<close> t have "takeWhile host_char s = host u" "dropWhile host_char s = t"
    using takeWhile_all_append [of "host u" host_char t] dropWhile_all_append [of "host u" host_char t]
    by (auto simp: list_all_iff)
  with \<open>?r\<close> t show ?l by (simp add: match_authority_def)
qed

lemma parseUrl_iff: "parseUrl url = Some u \<longleftrightarrow> wf_url u \<and> url = print_url u"
proof -
  have split: "parseUrl url = Some u \<longleftrightarrow>
      (\<exists>s. url = ''http://'' @ s \<and> match_authority ''http'' s = Some u)
      \<or> (\<exists>s. url = ''https://'' @ s \<and> match_authority ''https'' s = Some u)"
    by (auto simp: parseUrl_def starts_with_iff)
  show ?thesis
    unfolding split match_authority_iff match_port_iff wf_url_def print_url_def by auto
qed

text \<open>
  C35. \<open>utils::parseUrl\<close> is exact: it yields the parts \<open>u\<close> just for the texts that are
  those parts printed, with an http or https scheme, a non-empty host of letters, digits,
  dots, dashes and underscores, an all-digit port if any, and a path without line ends.
\<close>

theorem parseUrl_exact: "parseUrl url = Some u \<longleftrightarrow> wf_url u \<and> url = print_url u"
  by (rule parseUrl_iff)

subsection \<open>Retry-After\<close>

lemma stoi_idx_nat:
  assumes "n < 2 ^ 31" "t = [] \<or> \<not> isdigit (hd t)"
  shows "stoi_idx (nat_to_string n @ t) = Inr (int n, length (nat_to_string n))"
proof -
  have ds: "takeWhile isdigit (nat_to_string n @ t) = nat_to_string n"
    using nat_to_string_digits assms(2) by (rule takeWhile_all_append)
  then have "takeWhile isdigit (nat_to_string n @ t) \<noteq> []" by simp
  from scan_leading_digits [OF this] show ?thesis
    using assms(1) by (simp add: stoi_idx_def takeWhile_isdigit_c_str ds Let_def)
qed

lemma parseRetryAfter_delta:
  assumes "n < 2 ^ 31" "t = [] \<or> \<not> isdigit (hd t)"
  shows "parseRetryAfter gt now (nat_to_string n) t = Some (int n * 1000)"
  using stoi_idx_nat [OF assms] by (simp add: parseRetryAfter_def)

lemma parseRetryAfter_date:
  assumes "\<not> is_ok (stoi_idx (v @ t))" "gt (c_str (v @ t)) = Some d"
  shows "parseRetryAfter gt now v t = Some (max 0 (tm_seconds d - now) * 1000)"
  using assms by (auto simp: parseRetryAfter_def Let_def max_def split: sum.splits)

text \<open>
  \<open>utils::parseRetryAfter\<close> on a \<open>Retry-After\<close> header as it stands in the receive buffer,
  before its line end: a count of seconds that fits an \<open>int\<close> gives that many seconds;
  a value that is no integer and scans as a date gives the time left until that date, and
  zero when it has passed. The date scanner is arbitrary.
\<close>

lemma parseRetryAfter_two_forms:
  fixes gt :: "string \<Rightarrow> tm option"
  defines "crlf \<equiv> [CHR 0x0D, CHR 0x0A]"
  shows "(n < 2 ^ 31 \<longrightarrow> parseRetryAfter gt now (nat_to_string n) crlf = Some (int n * 1000))
    \<and> (\<not> is_ok (stoi_idx (v @ crlf)) \<and> gt (c_str (v @ crlf)) = Some d \<longrightarrow>
         parseRetryAfter gt now v crlf = Some (max 0 (tm_seconds d - now) * 1000))"
proof -
  have "\<not> isdigit (hd crlf)" by (simp add: crlf_def char_eval)
  then show ?thesis
    using parseRetryAfter_delta [of n crlf] parseRetryAfter_date [of v crlf] by blast
qed

lemma parseRetryAfter_two_forms_witness:
  "parseRetryAfter (\<lambda>_. None) 0 (nat_to_string 120) [CHR 0x0D, CHR 0x0A] = Some 120000
   \<and> parseRetryAfter
        (\<lambda>_. Some \<lparr>tm_year = 126, tm_mon = 0, tm_mday = 2, tm_hour = 0, tm_min = 0, tm_sec = 30\<rparr>)
        1767312000 ''Fri, 02 Jan 2026 00:00:30 GMT'' [CHR 0x0D, CHR 0x0A] = Some 30000"
proof -
  let ?d = "\<lparr>tm_year = 126, tm_mon = 0, tm_mday = 2, tm_hour = 0, tm_min = 0, tm_sec = 30\<rparr>"
  have "tm_seconds ?d = 1767312030" by code_simp
  moreover have "\<not> is_ok (stoi_idx (''Fri, 02 Jan 2026 00:00:30 GMT'' @ [CHR 0x0D, CHR 0x0A]))" by code_simp
  ultimately show ?thesis
    using parseRetryAfter_two_forms [of 120 "\<lambda>_. None" 0 "[]" ?d]
      parseRetryAfter_two_forms [of 0 "\<lambda>_. Some ?d" 1767312000 "''Fri, 02 Jan 2026 00:00:30 GMT''" ?d]
    by simp
qed

end
