(* ===== verification/Transport.thy ===== *)
theory Transport
  imports UrlCodec
begin

text \<open>
  Sending telemetry over HTTP: \<open>HttpEndpoint.h\<close>, \<open>HttpEndpoints.h\<close>, \<open>CurlSender.cpp\<close> and
  \<open>HttpTransportAsync.h\<close> with its queue, its sender thread and the fork handlers. libcurl, the
  Boost pattern and \<open>std::hash\<close> are parameters.
\<close>

subsection \<open>Endpoints\<close>

record HttpEndpointSSLOptions =
  insecureSkipVerify :: bool
  ssl_caInfo :: string
  ssl_cert :: string
  ssl_certKey :: string
  ssl_certKeyPassword :: string

record HttpEndpoint =
  endpoint_url :: string
  maxRetries :: size_t
  retryDelay :: msec
  connectionId :: size_t
  curlHeaders :: "string list"

type_synonym endpointHeaders = "(string \<times> string) list"

definition fillCurlHeaders :: "string \<Rightarrow> endpointHeaders \<Rightarrow> string list" where
  "fillCurlHeaders contentType headers =
     (if contentType = [] then [] else [c_str (''Content-Type: '' @ contentType)])
     @ map (\<lambda>(name, val). c_str (name @ '': '' @ val)) headers"

text \<open>\<open>regex_search\<close> is the Boost match of \<open>getConnectionDetailsFromURL\<close>, \<open>hash\<close> is \<open>std::hash\<close>.\<close>

record externals =
  regex_search :: "string \<Rightarrow> (string \<times> string option) option"
  hash :: "string \<Rightarrow> size_t"
  curl_easy_init :: bool
  trace_logging :: bool

definition HttpEndpoint_ctor ::
    "externals \<Rightarrow> string \<Rightarrow> string \<Rightarrow> endpointHeaders \<Rightarrow> size_t \<Rightarrow> msec \<Rightarrow> HttpEndpoint result" where
  "HttpEndpoint_ctor x url contentType headers retries delay =
     (case getConnectionDetailsFromURL (regex_search x) url of
        None \<Rightarrow> Inl (Runtime_Error (''Unable to parse connection details from endpoint: '' @ url))
      | Some details \<Rightarrow>
          Inr \<lparr>endpoint_url = url, maxRetries = retries, retryDelay = delay,
               connectionId = hash x details, curlHeaders = fillCurlHeaders contentType headers\<rparr>)"

subsection \<open>CurlSender\<close>

text \<open>The options a handle keeps from its construction on.\<close>

record CurlSender =
  opt_SSL_VERIFYHOST :: int
  opt_SSL_VERIFYPEER :: int
  opt_CAINFO :: "string option"
  opt_SSLCERT :: "string option"
  opt_SSLKEY :: "string option"
  opt_KEYPASSWD :: "string option"
  opt_TIMEOUT_MS :: msec
  opt_CONNECTTIMEOUT_MS :: msec
  opt_FOLLOWLOCATION :: int
  opt_FORBID_REUSE :: int
  opt_VERBOSE :: bool

definition unless_empty :: "string \<Rightarrow> string option" where
  "unless_empty s = (if s = [] then None else Some (c_str s))"

definition CurlSender_ctor :: "externals \<Rightarrow> msec \<Rightarrow> HttpEndpointSSLOptions \<Rightarrow> CurlSender result" where
  "CurlSender_ctor x timeout ssl =
     (if \<not> curl_easy_init x then Inl (Runtime_Error ''curl_easy_init() failed'')
      else Inr \<lparr>opt_SSL_VERIFYHOST = (if insecureSkipVerify ssl then 0 else 2),
                opt_SSL_VERIFYPEER = (if insecureSkipVerify ssl then 0 else 1),
                opt_CAINFO = unless_empty (ssl_caInfo ssl), opt_SSLCERT = unless_empty (ssl_cert ssl),
                opt_SSLKEY = unless_empty (ssl_certKey ssl),
                opt_KEYPASSWD = unless_empty (ssl_certKeyPassword ssl),
                opt_TIMEOUT_MS = timeout, opt_CONNECTTIMEOUT_MS = timeout,
                opt_FOLLOWLOCATION = 1, opt_FORBID_REUSE = 0, opt_VERBOSE = trace_logging x\<rparr>)"

text \<open>
  What \<open>curl_easy_perform\<close> sees and what comes of it: the header lines and body pieces it passes
  to the callbacks, and an error text or the response code.
\<close>

record curl_request =
  req_handle :: CurlSender
  req_url :: string
  req_headers :: "string list"
  req_post :: "byte list"
  req_headerdata :: bool
  req_writedata :: bool

record curl_outcome =
  header_lines :: "string list"
  body_parts :: "byte list list"
  curl_status :: "string + int"

text \<open>\<open>CurlHeaderFunc\<close>: the line without its last two characters, and what follows it.\<close>

definition CurlHeaderFunc :: "string \<Rightarrow> (string \<times> string) result" where
  "CurlHeaderFunc line =
     (if length line < 2 then Inl (Undefined_Behaviour ''header line'')
      else Inr (take (length line - 2) line, drop (length line - 2) line))"

definition CurlWriteFunc :: "byte list \<Rightarrow> byte list \<Rightarrow> byte list" where
  "CurlWriteFunc part buffer = buffer @ part"

text \<open>The response code is returned as an \<open>int16_t\<close>.\<close>

definition int16_of :: "int \<Rightarrow> int" where
  "int16_of n = (n + 2 ^ 15) mod 2 ^ 16 - 2 ^ 15"

text \<open>
  \<open>perform\<close> acts on the network. The header callback changes the caller's state \<open>'s\<close>, also
  when the transfer fails later.
\<close>

definition CurlSender_sendPayload ::
    "('n \<Rightarrow> curl_request \<Rightarrow> curl_outcome \<times> 'n) \<Rightarrow> CurlSender \<Rightarrow> string \<Rightarrow> string list \<Rightarrow> byte list
       \<Rightarrow> (string \<times> string \<Rightarrow> 's \<Rightarrow> 's result) option \<Rightarrow> bool \<Rightarrow> 's \<Rightarrow> 'n
       \<Rightarrow> (int \<times> byte list) result \<times> 's \<times> 'n" where
  "CurlSender_sendPayload perform conn url headers payload headerCallback wantBody s n =
     (let (out, n') = perform n \<lparr>req_handle = conn, req_url = c_str url, req_headers = headers,
              req_post = payload, req_headerdata = headerCallback \<noteq> None, req_writedata = wantBody\<rparr>;
          after_headers = (case headerCallback of
              None \<Rightarrow> Inr s
            | Some cb \<Rightarrow> fold (\<lambda>line r. bind_result r (\<lambda>s. bind_result (CurlHeaderFunc line) (\<lambda>h. cb h s)))
                           (header_lines out) (Inr s));
          buffer = (if wantBody then fold CurlWriteFunc (body_parts out) [] else [])
      in case after_headers of
           Inl e \<Rightarrow> (Inl e, s, n')
         | Inr s' \<Rightarrow>
             (case curl_status out of
                Inl err \<Rightarrow> (Inl (Runtime_Error (''sendPayload failed: '' @ err)), s', n')
              | Inr code \<Rightarrow> (Inr (int16_of code, buffer), s', n')))"

subsection \<open>HttpEndpoints\<close>

record HttpEndpoints =
  endpoints :: "size_t \<rightharpoonup> HttpEndpoint"
  connections :: "size_t \<rightharpoonup> CurlSender"

text \<open>
  Two \<open>try_emplace\<close>: the first leaves a known endpoint alone, the second a known connection.
  When the sender cannot be built, the endpoint stays.
\<close>

definition endpoints_add ::
    "externals \<Rightarrow> string \<Rightarrow> size_t \<Rightarrow> string \<Rightarrow> endpointHeaders \<Rightarrow> msec \<Rightarrow> size_t \<Rightarrow> msec
       \<Rightarrow> HttpEndpointSSLOptions \<Rightarrow> HttpEndpoints \<Rightarrow> bool result \<times> HttpEndpoints" where
  "endpoints_add x url endpointHash contentType headers timeout retries delay ssl eps =
     (case (case endpoints eps endpointHash of
              Some ep \<Rightarrow> Inr ep
            | None \<Rightarrow> HttpEndpoint_ctor x url contentType headers retries delay) of
        Inl e \<Rightarrow> (Inl e, eps)
      | Inr ep \<Rightarrow>
          (let eps1 = eps\<lparr>endpoints := (endpoints eps)(endpointHash \<mapsto> ep)\<rparr> in
           case connections eps1 (connectionId ep) of
             Some _ \<Rightarrow> (Inr False, eps1)
           | None \<Rightarrow>
               (case CurlSender_ctor x timeout ssl of
                  Inl e \<Rightarrow> (Inl e, eps1)
                | Inr s \<Rightarrow> (Inr True, eps1\<lparr>connections := (connections eps1)(connectionId ep \<mapsto> s)\<rparr>))))"

definition getConnection ::
    "size_t \<Rightarrow> HttpEndpoints \<Rightarrow> (string \<times> string list \<times> size_t \<times> CurlSender \<times> size_t \<times> msec) result" where
  "getConnection endpointHash eps =
     (case endpoints eps endpointHash of
        None \<Rightarrow> Inl (Runtime_Error ''HttpEnpoints missing enpointHash'')
      | Some ep \<Rightarrow>
          (case connections eps (connectionId ep) of
             None \<Rightarrow> Inl (Runtime_Error ''HttpEndpoints missing connectionId'')
           | Some conn \<Rightarrow>
               Inr (endpoint_url ep, curlHeaders ep, connectionId ep, conn, max 1 (maxRetries ep), retryDelay ep)))"

definition endpoints_updateRetryDelay :: "size_t \<Rightarrow> msec \<Rightarrow> HttpEndpoints \<Rightarrow> HttpEndpoints result" where
  "endpoints_updateRetryDelay endpointHash delay eps =
     (case endpoints eps endpointHash of
        None \<Rightarrow> Inl (Runtime_Error ''HttpEnpoints missing enpointHash'')
      | Some ep \<Rightarrow> Inr (eps\<lparr>endpoints := (endpoints eps)(endpointHash \<mapsto> ep\<lparr>retryDelay := delay\<rparr>)\<rparr>))"

subsection \<open>HttpTransportAsync: state\<close>

text \<open>A queued payload: endpoint, bytes, and the response callback (by number) if there is one.\<close>

record queued =
  q_hash :: size_t
  q_payload :: "byte list"
  q_callback :: "nat option"

text \<open>
  Where the sender thread is: no thread object, just started, in the wait of \<open>asyncSender\<close>, at
  the loop head of \<open>send\<close>, transferring a payload with the lock released, or returned.
\<close>

datatype sender_thread = No_Thread | Started | At_Wait | In_Send | Transferring queued | Returned

record HttpTransportAsync =
  transport_endpoints :: HttpEndpoints
  payloadsToSend :: "queued list"
  payloadsByteUsage :: size_t
  thread :: sender_thread
  working :: bool
  forceFlushOnDestruction :: bool
  shutdownStart :: msec

record transport_config =
  max_send_queue_size :: size_t
  async_transport_shutdown_timeout :: msec

definition no_endpoints :: HttpEndpoints where
  "no_endpoints = \<lparr>endpoints = Map.empty, connections = Map.empty\<rparr>"

definition HttpTransportAsync_ctor :: HttpTransportAsync where
  "HttpTransportAsync_ctor =
     \<lparr>transport_endpoints = no_endpoints, payloadsToSend = [], payloadsByteUsage = 0, thread = No_Thread,
      working = True, forceFlushOnDestruction = False, shutdownStart = 0\<rparr>"

subsection \<open>HttpTransportAsync: the calls of the main thread\<close>

definition startThread :: "HttpTransportAsync \<Rightarrow> HttpTransportAsync" where
  "startThread t = (if thread t = No_Thread then t\<lparr>thread := Started\<rparr> else t)"

definition initializeConnection ::
    "externals \<Rightarrow> string \<Rightarrow> size_t \<Rightarrow> string \<Rightarrow> endpointHeaders \<Rightarrow> msec \<Rightarrow> size_t \<Rightarrow> msec
       \<Rightarrow> HttpEndpointSSLOptions \<Rightarrow> HttpTransportAsync \<Rightarrow> HttpTransportAsync" where
  "initializeConnection x url endpointHash contentType headers timeout retries delay ssl t =
     (case endpoints_add x url endpointHash contentType headers timeout retries delay ssl (transport_endpoints t) of
        (Inl error, eps) \<Rightarrow> t\<lparr>transport_endpoints := eps\<rparr>
      | (Inr _, eps) \<Rightarrow> startThread (t\<lparr>transport_endpoints := eps\<rparr>))"

definition enqueue :: "transport_config \<Rightarrow> queued \<Rightarrow> HttpTransportAsync \<Rightarrow> HttpTransportAsync" where
  "enqueue cfg item t =
     (let n = word_of_nat (length (q_payload item)) in
      if payloadsByteUsage t + n > max_send_queue_size cfg then t
      else t\<lparr>payloadsToSend := payloadsToSend t @ [item], payloadsByteUsage := payloadsByteUsage t + n\<rparr>)"

text \<open>
  \<open>shutdownThread\<close> up to the join, and what follows once the thread has returned. The fork
  handlers and the destructor are these two and their own part.
\<close>

definition shutdownThread_begin :: "HttpTransportAsync \<Rightarrow> HttpTransportAsync" where
  "shutdownThread_begin t = t\<lparr>working := False\<rparr>"

definition shutdownThread_end :: "HttpTransportAsync \<Rightarrow> HttpTransportAsync" where
  "shutdownThread_end t = t\<lparr>thread := No_Thread\<rparr>"

definition transport_postfork :: "bool \<Rightarrow> HttpTransportAsync \<Rightarrow> HttpTransportAsync" where
  "transport_postfork child t =
     (let t1 = (if child \<and> payloadsToSend t \<noteq> [] then t\<lparr>payloadsToSend := []\<rparr> else t)
      in startThread (t1\<lparr>working := True\<rparr>))"

definition destructor_begin :: "msec \<Rightarrow> HttpTransportAsync \<Rightarrow> HttpTransportAsync" where
  "destructor_begin now t =
     shutdownThread_begin (t\<lparr>shutdownStart := now, forceFlushOnDestruction := True\<rparr>)"

definition transport_updateRetryDelay :: "size_t \<Rightarrow> msec \<Rightarrow> HttpTransportAsync \<Rightarrow> HttpTransportAsync" where
  "transport_updateRetryDelay endpointHash delay t =
     (case endpoints_updateRetryDelay endpointHash delay (transport_endpoints t) of
        Inl error \<Rightarrow> t
      | Inr eps \<Rightarrow> t\<lparr>transport_endpoints := eps\<rparr>)"

subsection \<open>HttpTransportAsync: one payload\<close>

text \<open>
  What the world sees of a transfer. The network state \<open>'n\<close> also holds the clocks.
\<close>

datatype send_event =
  Attempt size_t "byte list"
| Callback nat int "byte list"
| Sleep msec

record 'n network =
  perform :: "'n \<Rightarrow> curl_request \<Rightarrow> curl_outcome \<times> 'n"
  get_time :: "string \<Rightarrow> tm option"
  system_seconds :: "'n \<Rightarrow> int"
  steady_now :: "'n \<Rightarrow> msec"

definition headerCallback ::
    "(string \<Rightarrow> tm option) \<Rightarrow> int \<Rightarrow> size_t \<Rightarrow> string \<times> string \<Rightarrow> HttpEndpoints \<Rightarrow> HttpEndpoints result" where
  "headerCallback gt now endpointHash h eps =
     (let header = fst h; prefix = ''Retry-After: '' in
      if ci_starts_with header prefix then
        (case parseRetryAfter gt now (drop (length prefix) header) (snd h) of
           Some v \<Rightarrow> if v > 0 then endpoints_updateRetryDelay endpointHash v eps else Inr eps
         | None \<Rightarrow> Inr eps)
      else Inr eps)"

definition is_success :: "int \<Rightarrow> bool" where
  "is_success code = (code \<ge> 200 \<and> code < 300)"

definition is_permanent :: "int \<Rightarrow> bool" where
  "is_permanent code = (code \<ge> 400 \<and> code < 500 \<and> code \<noteq> 408 \<and> code \<noteq> 429)"

definition run_callback :: "nat option \<Rightarrow> int \<Rightarrow> byte list \<Rightarrow> send_event list" where
  "run_callback callback code body = (case callback of Some i \<Rightarrow> [Callback i code body] | None \<Rightarrow> [])"

text \<open>The retry loop; its first argument counts what is left of \<open>maxRetries\<close>.\<close>

fun send_attempts ::
    "nat \<Rightarrow> 'n network \<Rightarrow> queued \<Rightarrow> string \<times> string list \<times> size_t \<times> CurlSender \<times> size_t \<times> msec
       \<Rightarrow> HttpEndpoints \<Rightarrow> 'n \<Rightarrow> unit result \<times> send_event list \<times> HttpEndpoints \<times> 'n" where
  "send_attempts 0 net item c eps n = (Inr (), [], eps, n)"
| "send_attempts (Suc left) net item (url, headers, connId, conn, retries, delay) eps n =
     (case CurlSender_sendPayload (perform net) conn url headers (q_payload item)
             (if q_callback item = None then None
              else Some (headerCallback (get_time net) (system_seconds net n) (q_hash item)))
             (q_callback item \<noteq> None) eps n of
        (Inl e, eps', n') \<Rightarrow> (Inl e, [Attempt (q_hash item) (q_payload item)], eps', n')
      | (Inr (code, body), eps', n') \<Rightarrow>
          let attempt = Attempt (q_hash item) (q_payload item) in
          if is_success code then (Inr (), attempt # run_callback (q_callback item) code body, eps', n')
          else if is_permanent code then
            (Inl (Runtime_Error (''server returned with code '' @ int_to_string code)),
             attempt # run_callback (q_callback item) code body, eps', n')
          else
            (case send_attempts left net item (url, headers, connId, conn, retries, delay) eps' n' of
               (r, evs, eps'', n'') \<Rightarrow> (r, attempt # Sleep delay # evs, eps'', n'')))"

text \<open>
  The body of the loop of \<open>send\<close> between unlock and lock: a missing connection and a failed
  transfer are caught and logged.
\<close>

definition send_payload ::
    "'n network \<Rightarrow> queued \<Rightarrow> HttpEndpoints \<Rightarrow> 'n \<Rightarrow> send_event list \<times> HttpEndpoints \<times> 'n" where
  "send_payload net item eps n =
     (case getConnection (q_hash item) eps of
        Inl e \<Rightarrow> ([], eps, n)
      | Inr (url, headers, connId, conn, retries, delay) \<Rightarrow>
          snd (send_attempts (unat retries) net item (url, headers, connId, conn, retries, delay) eps n))"

subsection \<open>HttpTransportAsync: the sender thread\<close>

definition pop_payload :: "HttpTransportAsync \<Rightarrow> HttpTransportAsync" where
  "pop_payload t = (case payloadsToSend t of
       [] \<Rightarrow> t
     | item # rest \<Rightarrow> t\<lparr>payloadsToSend := rest,
         payloadsByteUsage := payloadsByteUsage t - word_of_nat (length (q_payload item)),
         thread := Transferring item\<rparr>)"

definition flush_timed_out :: "transport_config \<Rightarrow> msec \<Rightarrow> HttpTransportAsync \<Rightarrow> bool" where
  "flush_timed_out cfg now t =
     (forceFlushOnDestruction t \<and> payloadsToSend t \<noteq> [] \<and> async_transport_shutdown_timeout cfg > 0
      \<and> now - shutdownStart t \<ge> async_transport_shutdown_timeout cfg)"

text \<open>The head of the loop \<open>while (working_)\<close> of \<open>asyncSender\<close>.\<close>

definition loop_head :: "HttpTransportAsync \<Rightarrow> HttpTransportAsync" where
  "loop_head t = t\<lparr>thread := if working t then At_Wait else Returned\<rparr>"

text \<open>The next step of the sender thread, \<open>asyncSender\<close> and \<open>send\<close>; \<open>None\<close> when it waits or is not there.\<close>

definition sender_step ::
    "transport_config \<Rightarrow> 'n network \<Rightarrow> HttpTransportAsync \<times> 'n
       \<Rightarrow> (send_event list \<times> HttpTransportAsync \<times> 'n) option" where
  "sender_step cfg net s = (case s of (t, n) \<Rightarrow>
     (case thread t of
        No_Thread \<Rightarrow> None
      | Returned \<Rightarrow> None
      | Started \<Rightarrow> Some ([], loop_head t, n)
      | At_Wait \<Rightarrow>
          if payloadsToSend t = [] \<and> working t then None
          else if \<not> working t \<and> \<not> forceFlushOnDestruction t then Some ([], t\<lparr>thread := Returned\<rparr>, n)
          else Some ([], t\<lparr>thread := In_Send\<rparr>, n)
      | In_Send \<Rightarrow> if payloadsToSend t = [] then Some ([], loop_head t, n) else Some ([], pop_payload t, n)
      | Transferring item \<Rightarrow>
          (case send_payload net item (transport_endpoints t) n of
             (evs, eps, n') \<Rightarrow>
               let t' = t\<lparr>transport_endpoints := eps\<rparr> in
               Some (evs, if flush_timed_out cfg (steady_now net n') t' then loop_head t'
                          else t'\<lparr>thread := In_Send\<rparr>, n'))))"

text \<open>The thread alone, until it waits or returns; \<open>None\<close> when \<open>fuel\<close> steps were not enough.\<close>

fun run_sender ::
    "nat \<Rightarrow> transport_config \<Rightarrow> 'n network \<Rightarrow> HttpTransportAsync \<times> 'n
       \<Rightarrow> (send_event list \<times> HttpTransportAsync \<times> 'n) option" where
  "run_sender fuel cfg net s =
     (case sender_step cfg net s of
        None \<Rightarrow> Some ([], s)
      | Some (evs, s') \<Rightarrow>
          (case fuel of
             0 \<Rightarrow> None
           | Suc fuel' \<Rightarrow> map_option (\<lambda>(evs', s''). (evs @ evs', s'')) (run_sender fuel' cfg net s')))"

declare run_sender.simps [simp del]

subsection \<open>Transfers\<close>

text \<open>What one transfer may look like: failed attempts with a pause after each, then a last one.\<close>

definition transfer_shape :: "queued \<Rightarrow> nat \<Rightarrow> msec \<Rightarrow> send_event list \<Rightarrow> bool" where
  "transfer_shape item retries delay evs =
     (\<exists>k last. evs = concat (replicate k [Attempt (q_hash item) (q_payload item), Sleep delay]) @ last
        \<and> (k = retries \<and> last = []
           \<or> k < retries \<and> (\<exists>code body. last = [Attempt (q_hash item) (q_payload item)]
              \<or> last = Attempt (q_hash item) (q_payload item) # run_callback (q_callback item) code body
                 \<and> (is_success code \<or> is_permanent code))))"

lemma transfer_shape_more:
  assumes "transfer_shape item n delay evs"
  shows "transfer_shape item (Suc n) delay (Attempt (q_hash item) (q_payload item) # Sleep delay # evs)"
proof -
  from assms obtain k last where k: "evs = concat (replicate k [Attempt (q_hash item) (q_payload item), Sleep delay]) @ last"
    and l: "k = n \<and> last = [] \<or> k < n \<and> (\<exists>code body. last = [Attempt (q_hash item) (q_payload item)]
              \<or> last = Attempt (q_hash item) (q_payload item) # run_callback (q_callback item) code body
                 \<and> (is_success code \<or> is_permanent code))"
    by (auto simp: transfer_shape_def)
  show ?thesis
    unfolding transfer_shape_def
    by (intro exI [of _ "Suc k"] exI [of _ last]) (use k l in auto)
qed

lemma transfer_shape_last:
  "transfer_shape item (Suc n) delay [Attempt (q_hash item) (q_payload item)]"
  "is_success code \<or> is_permanent code \<Longrightarrow>
     transfer_shape item (Suc n) delay (Attempt (q_hash item) (q_payload item) # run_callback (q_callback item) code body)"
  unfolding transfer_shape_def by (rule exI [of _ 0], auto)+

lemma send_attempts_shape:
  "transfer_shape item k delay (fst (snd (send_attempts k net item (url, headers, cid, conn, retries, delay) eps n)))"
proof (induction k arbitrary: eps n)
  case 0
  then show ?case by (simp add: transfer_shape_def)
next
  case (Suc k)
  let ?c = "(url, headers, cid, conn, retries, delay)"
  obtain res eps' n' where s: "CurlSender_sendPayload (perform net) conn url headers (q_payload item)
             (if q_callback item = None then None
              else Some (headerCallback (get_time net) (system_seconds net n) (q_hash item)))
             (q_callback item \<noteq> None) eps n = (res, eps', n')"
    using prod_cases3 by blast
  show ?case
  proof (cases res)
    case (Inl e)
    with s show ?thesis by (simp add: transfer_shape_last)
  next
    case (Inr r)
    obtain code body where r: "r = (code, body)" by fastforce
    obtain r2 evs eps2 n2 where rest: "send_attempts k net item ?c eps' n' = (r2, evs, eps2, n2)"
      using prod_cases4 by blast
    with Suc [of eps' n'] have "transfer_shape item k delay evs" by simp
    with s Inr r rest show ?thesis
      by (simp add: Let_def transfer_shape_last transfer_shape_more)
  qed
qed


subsection \<open>Endpoints and connections\<close>

definition connected :: "HttpEndpoints \<Rightarrow> bool" where
  "connected eps = (\<forall>h ep. endpoints eps h = Some ep \<longrightarrow> connections eps (connectionId ep) \<noteq> None)"

lemma connected_add [inv_intros]:
  "connected eps \<Longrightarrow> curl_easy_init x \<Longrightarrow>
     connected (snd (endpoints_add x url h ct hs timeout retries delay ssl eps))"
  by (auto simp: endpoints_add_def connected_def CurlSender_ctor_def Let_def split: option.splits sum.splits)

lemma connected_updateRetryDelay [inv_intros]:
  "connected eps \<Longrightarrow> endpoints_updateRetryDelay h d eps = Inr eps' \<Longrightarrow> connected eps'"
  by (auto simp: endpoints_updateRetryDelay_def connected_def split: option.splits if_splits)

text \<open>
  Registering an endpoint, as long as libcurl gives handles: an endpoint whose URL is
  understood has a connection from then on; its URL, headers, retry count and connection are those of
  its first registration and never change; and a connection that exists is shared as it is,
  so later timeouts and SSL options for the same host and port have no effect.
\<close>

lemma endpoint_registration:
  assumes "connected eps" "curl_easy_init x"
  shows "let (r, eps') = endpoints_add x url h ct hs timeout retries delay ssl eps in
    connected eps'
    \<and> (\<forall>g ep. endpoints eps g = Some ep \<longrightarrow> endpoints eps' g = Some ep)
    \<and> (\<forall>c conn. connections eps c = Some conn \<longrightarrow> connections eps' c = Some conn)
    \<and> is_ok r = is_ok (getConnection h eps')
    \<and> (is_ok r \<longleftrightarrow> endpoints eps h \<noteq> None \<or> regex_search x url \<noteq> None)"
proof (cases "endpoints eps h")
  case (Some ep)
  then obtain conn where "connections eps (connectionId ep) = Some conn"
    using assms(1) by (auto simp: connected_def)
  moreover have "eps\<lparr>endpoints := (endpoints eps)(h \<mapsto> ep)\<rparr> = eps" using Some by (simp add: fun_upd_idem)
  ultimately have "endpoints_add x url h ct hs timeout retries delay ssl eps = (Inr False, eps)"
    "is_ok (getConnection h eps)"
    using Some by (simp_all add: endpoints_add_def getConnection_def Let_def)
  with assms(1) Some show ?thesis by simp
next
  case None
  show ?thesis
  proof (cases "HttpEndpoint_ctor x url ct hs retries delay")
    case (Inl e)
    then have "regex_search x url = None"
      by (auto simp: HttpEndpoint_ctor_def getConnectionDetailsFromURL_def split: option.splits)
    with None Inl assms(1) show ?thesis by (simp add: endpoints_add_def getConnection_def)
  next
    case (Inr ep)
    then have "regex_search x url \<noteq> None"
      by (auto simp: HttpEndpoint_ctor_def getConnectionDetailsFromURL_def split: option.splits)
    moreover obtain s where "CurlSender_ctor x timeout ssl = Inr s"
      using assms(2) by (simp add: CurlSender_ctor_def)
    ultimately show ?thesis
      using None Inr connected_add [OF assms, of url h ct hs timeout retries delay ssl]
      by (cases "connections eps (connectionId ep)")
        (auto simp: endpoints_add_def getConnection_def Let_def)
  qed
qed

lemma endpoint_registration_witness:
  "let x = \<lparr>regex_search = (\<lambda>u. if u = ''http://h/v1'' then Some (''http://h'', None) else None),
            hash = (\<lambda>s. word_of_nat (length s)), curl_easy_init = True, trace_logging = False\<rparr>;
       ssl = \<lparr>insecureSkipVerify = False, ssl_caInfo = [], ssl_cert = [], ssl_certKey = [], ssl_certKeyPassword = []\<rparr>;
       (r, eps') = endpoints_add x ''http://h/v1'' 7 [] [] 1000 3 10 ssl no_endpoints
   in is_ok r \<and> is_ok (getConnection 7 eps')"
proof -
  let ?x = "\<lparr>regex_search = (\<lambda>u. if u = ''http://h/v1'' then Some (''http://h'', None) else None),
            hash = (\<lambda>s. word_of_nat (length s)), curl_easy_init = True, trace_logging = False\<rparr>"
  let ?ssl = "\<lparr>insecureSkipVerify = False, ssl_caInfo = [], ssl_cert = [], ssl_certKey = [], ssl_certKeyPassword = []\<rparr>"
  have "connected no_endpoints" by (simp add: connected_def no_endpoints_def)
  from endpoint_registration [OF this, of ?x "''http://h/v1''" 7 "[]" "[]" 1000 3 10 ?ssl]
  show ?thesis by (auto simp: Let_def)
qed

subsection \<open>The queue over time\<close>

definition queued_bytes :: "HttpTransportAsync \<Rightarrow> nat" where
  "queued_bytes t = sum_len (map q_payload (payloadsToSend t))"

text \<open>
  Everything that happens to a transport, by the main thread and by the sender thread.
  \<open>acc\<close> are the payloads the queue took, \<open>out\<close> those the sender thread took out of it. The
  child of a fork does not own what was queued before; \<open>left\<close> counts the bytes that were
  queued when this process came out of a fork as a child.
\<close>

inductive transport_run ::
    "transport_config \<Rightarrow> 'n network \<Rightarrow> HttpTransportAsync \<times> 'n \<Rightarrow> queued list \<Rightarrow> queued list \<Rightarrow> nat \<Rightarrow> bool"
  for cfg net where
  start: "transport_run cfg net (HttpTransportAsync_ctor, n) [] [] 0"
| connect: "transport_run cfg net (t, n) acc out left \<Longrightarrow>
    transport_run cfg net (initializeConnection x url h ct hs timeout retries delay ssl t, n) acc out left"
| enqueue: "transport_run cfg net (t, n) acc out left \<Longrightarrow> length (q_payload item) < 2 ^ 63 \<Longrightarrow>
    transport_run cfg net (enqueue cfg item t, n)
      (if payloadsToSend (enqueue cfg item t) = payloadsToSend t then acc else acc @ [item]) out left"
| delay: "transport_run cfg net (t, n) acc out left \<Longrightarrow> transport_run cfg net (transport_updateRetryDelay h d t, n) acc out left"
| sender: "transport_run cfg net (t, n) acc out left \<Longrightarrow> sender_step cfg net (t, n) = Some (evs, s') \<Longrightarrow>
    transport_run cfg net s' acc
      (if thread t = In_Send \<and> payloadsToSend t \<noteq> [] then out @ [hd (payloadsToSend t)] else out) left"
| shutdown: "transport_run cfg net (t, n) acc out left \<Longrightarrow> transport_run cfg net (shutdownThread_begin t, n) acc out left"
| joined: "transport_run cfg net (t, n) acc out left \<Longrightarrow> thread t = Returned \<or> thread t = No_Thread \<Longrightarrow>
    transport_run cfg net (shutdownThread_end t, n) acc out left"
| parent: "transport_run cfg net (t, n) acc out left \<Longrightarrow> thread t = No_Thread \<Longrightarrow>
    transport_run cfg net (transport_postfork False t, n) acc out left"
| child: "transport_run cfg net (t, n) acc out left \<Longrightarrow> thread t = No_Thread \<Longrightarrow>
    transport_run cfg net (transport_postfork True t, n) out out (left + queued_bytes t)"
| destroy: "transport_run cfg net (t, n) acc out left \<Longrightarrow> transport_run cfg net (destructor_begin now t, n) acc out left"
| network: "transport_run cfg net (t, n) acc out left \<Longrightarrow> transport_run cfg net (t, n') acc out left"

definition queue_inv :: "transport_config \<Rightarrow> HttpTransportAsync \<Rightarrow> queued list \<Rightarrow> queued list \<Rightarrow> nat \<Rightarrow> bool" where
  "queue_inv cfg t acc out left =
     (acc = out @ payloadsToSend t \<and> unat (payloadsByteUsage t) = queued_bytes t + left
      \<and> payloadsByteUsage t \<le> max_send_queue_size cfg)"

text \<open>The steps that touch neither the queue nor its counter.\<close>

lemma queue_inv_same:
  "queue_inv cfg t acc out left \<Longrightarrow> payloadsToSend t' = payloadsToSend t \<Longrightarrow>
     payloadsByteUsage t' = payloadsByteUsage t \<Longrightarrow> queue_inv cfg t' acc out left"
  by (simp add: queue_inv_def queued_bytes_def)

lemma same_queue [simp]:
  "payloadsToSend (startThread t) = payloadsToSend t"
  "payloadsByteUsage (startThread t) = payloadsByteUsage t"
  "payloadsToSend (initializeConnection x url h ct hs timeout retries delay ssl t) = payloadsToSend t"
  "payloadsByteUsage (initializeConnection x url h ct hs timeout retries delay ssl t) = payloadsByteUsage t"
  "payloadsToSend (transport_updateRetryDelay h d t) = payloadsToSend t"
  "payloadsByteUsage (transport_updateRetryDelay h d t) = payloadsByteUsage t"
  "payloadsToSend (loop_head t) = payloadsToSend t"
  "payloadsByteUsage (loop_head t) = payloadsByteUsage t"
  by (simp_all add: startThread_def initializeConnection_def transport_updateRetryDelay_def loop_head_def
      split: sum.split prod.split)

lemma queue_inv_enqueue:
  assumes "queue_inv cfg t acc out left" "length (q_payload item) < 2 ^ 63" "unat (max_send_queue_size cfg) < 2 ^ 63"
  shows "queue_inv cfg (enqueue cfg item t)
    (if payloadsToSend (enqueue cfg item t) = payloadsToSend t then acc else acc @ [item]) out left"
proof (cases "payloadsByteUsage t + word_of_nat (length (q_payload item)) > max_send_queue_size cfg")
  case True
  with assms(1) show ?thesis by (simp add: enqueue_def)
next
  case False
  have n: "unat (word_of_nat (length (q_payload item)) :: size_t) = length (q_payload item)"
    using assms(2) by (simp add: unat_of_nat take_bit_nat_eq_self)
  have "unat (payloadsByteUsage t) \<le> unat (max_send_queue_size cfg)"
    using assms(1) by (simp add: queue_inv_def word_le_nat_alt)
  then have "unat (payloadsByteUsage t) + length (q_payload item) < 2 ^ LENGTH(64)"
    using assms(2,3) by simp
  then have "unat (payloadsByteUsage t + word_of_nat (length (q_payload item)))
      = unat (payloadsByteUsage t) + length (q_payload item)"
    by (simp add: unat_plus_if' n)
  with False assms(1) show ?thesis
    by (auto simp: enqueue_def queue_inv_def queued_bytes_def Let_def)
qed

lemma queue_inv_pop:
  assumes "queue_inv cfg t acc out left" "payloadsToSend t = item # rest"
  shows "queue_inv cfg (pop_payload t) acc (out @ [item]) left"
proof -
  let ?n = "word_of_nat (length (q_payload item)) :: size_t"
  have "length (q_payload item) \<le> unat (payloadsByteUsage t)"
    using assms by (simp add: queue_inv_def queued_bytes_def)
  moreover have "unat (payloadsByteUsage t) < 2 ^ LENGTH(64)" by (rule unsigned_less)
  ultimately have n: "unat ?n = length (q_payload item)"
    by (simp add: unat_of_nat take_bit_nat_eq_self)
  then have "?n \<le> payloadsByteUsage t" using \<open>length _ \<le> _\<close> by (simp add: word_le_nat_alt)
  then have "unat (payloadsByteUsage t - ?n) = unat (payloadsByteUsage t) - length (q_payload item)"
    by (simp add: unat_sub n)
  with assms show ?thesis
    by (auto simp: queue_inv_def queued_bytes_def pop_payload_def word_le_nat_alt)
qed

lemma queue_inv_sender:
  assumes "queue_inv cfg t acc out left" "sender_step cfg net (t, n) = Some (evs, t', n')"
  shows "queue_inv cfg t' acc
    (if thread t = In_Send \<and> payloadsToSend t \<noteq> [] then out @ [hd (payloadsToSend t)] else out) left"
proof (cases "thread t = In_Send \<and> payloadsToSend t \<noteq> []")
  case True
  then obtain item rest where q: "payloadsToSend t = item # rest" by (auto simp: neq_Nil_conv)
  with True assms(2) have "t' = pop_payload t" by (simp add: sender_step_def)
  with queue_inv_pop [OF assms(1) q] True q show ?thesis by simp
next
  case False
  have "payloadsToSend t' = payloadsToSend t \<and> payloadsByteUsage t' = payloadsByteUsage t"
    using assms(2) False
    by (auto simp: sender_step_def Let_def split: sender_thread.splits if_splits prod.splits)
  with queue_inv_same [OF assms(1)] False show ?thesis by auto
qed

lemma transport_run_inv:
  assumes "transport_run cfg net s acc out left" "unat (max_send_queue_size cfg) < 2 ^ 63"
  shows "queue_inv cfg (fst s) acc out left"
  using assms
proof (induction rule: transport_run.induct)
  case (start n)
  then show ?case by (simp add: queue_inv_def queued_bytes_def HttpTransportAsync_ctor_def)
next
  case (enqueue t n acc out left item)
  then show ?case using queue_inv_enqueue by simp
next
  case (sender t n acc out left evs s')
  obtain t' n' where s': "s' = (t', n')" by fastforce
  have "queue_inv cfg t acc out left" using sender by simp
  from queue_inv_sender [OF this sender.hyps(2) [unfolded s']] show ?case by (simp add: s')
next
  case (child t n acc out left)
  then show ?case
    by (auto simp: queue_inv_def queued_bytes_def transport_postfork_def Let_def split: if_splits)
qed (auto simp: shutdownThread_begin_def shutdownThread_end_def transport_postfork_def destructor_begin_def
    Let_def elim!: queue_inv_same)


abbreviation demo_cfg :: transport_config where
  "demo_cfg \<equiv> \<lparr>max_send_queue_size = 10, async_transport_shutdown_timeout = 0\<rparr>"

abbreviation demo_net :: "nat network" where
  "demo_net \<equiv> \<lparr>perform = (\<lambda>n r. (\<lparr>header_lines = [], body_parts = [], curl_status = Inr 200\<rparr>, n)),
     get_time = (\<lambda>_. None), system_seconds = (\<lambda>_. 0), steady_now = (\<lambda>_. 0)\<rparr>"

abbreviation demo_item :: "nat \<Rightarrow> queued" where
  "demo_item k \<equiv> \<lparr>q_hash = 1, q_payload = replicate k 0, q_callback = None\<rparr>"


text \<open>
  A forked child empties the queue it inherited, so that only the parent sends those
  payloads, but it does not reset the byte counter: a later payload that would fit the empty
  queue is dropped whenever the inherited count leaves no room for it.
\<close>

lemma forked_child_keeps_byte_usage:
  assumes "payloadsToSend t \<noteq> []"
    "payloadsByteUsage t + word_of_nat (length (q_payload item)) > max_send_queue_size cfg"
  shows "payloadsToSend (transport_postfork True t) = []
    \<and> payloadsByteUsage (transport_postfork True t) = payloadsByteUsage t
    \<and> enqueue cfg item (transport_postfork True t) = transport_postfork True t"
  using assms by (simp add: transport_postfork_def enqueue_def Let_def)

lemma forked_child_keeps_byte_usage_witness:
  "let t = transport_postfork True (enqueue demo_cfg (demo_item 6) HttpTransportAsync_ctor)
   in payloadsToSend t = [] \<and> enqueue demo_cfg (demo_item 5) t = t"
  using forked_child_keeps_byte_usage [of "enqueue demo_cfg (demo_item 6) HttpTransportAsync_ctor" demo_cfg "demo_item 5"]
  by (simp add: enqueue_def HttpTransportAsync_ctor_def Let_def)

subsection \<open>Flushing at destruction\<close>

text \<open>The reference: the payloads one after the other, while time permits.\<close>

fun send_until ::
    "transport_config \<Rightarrow> 'n network \<Rightarrow> msec \<Rightarrow> queued list \<Rightarrow> HttpEndpoints \<Rightarrow> 'n
       \<Rightarrow> send_event list \<times> queued list \<times> HttpEndpoints \<times> 'n" where
  "send_until cfg net t0 [] eps n = ([], [], eps, n)"
| "send_until cfg net t0 (item # rest) eps n =
     (case send_payload net item eps n of
        (evs, eps', n') \<Rightarrow>
          if rest \<noteq> [] \<and> async_transport_shutdown_timeout cfg > 0
             \<and> steady_now net n' - t0 \<ge> async_transport_shutdown_timeout cfg
          then (evs, rest, eps', n')
          else (case send_until cfg net t0 rest eps' n' of
                  (evs', left, eps'', n'') \<Rightarrow> (evs @ evs', left, eps'', n'')))"

lemma run_sender_Suc:
  "sender_step cfg net s = Some (evs, s') \<Longrightarrow>
     run_sender (Suc fuel) cfg net s = map_option (\<lambda>(evs', s''). (evs @ evs', s'')) (run_sender fuel cfg net s')"
  by (subst run_sender.simps) simp

lemma run_sender_stop: "sender_step cfg net s = None \<Longrightarrow> run_sender fuel cfg net s = Some ([], s)"
  by (subst run_sender.simps) simp

lemma run_flush:
  assumes "thread t = In_Send" "\<not> working t" "forceFlushOnDestruction t"
  shows "\<exists>t'. run_sender (2 * length (payloadsToSend t) + 1) cfg net (t, n) =
      (case send_until cfg net (shutdownStart t) (payloadsToSend t) (transport_endpoints t) n of
         (evs, left, eps, n') \<Rightarrow> Some (evs, t', n'))
    \<and> thread t' = Returned
    \<and> payloadsToSend t' = fst (snd (send_until cfg net (shutdownStart t) (payloadsToSend t) (transport_endpoints t) n))"
  using assms
proof (induction "payloadsToSend t" arbitrary: t n)
  case Nil
  let ?t = "loop_head t"
  have "sender_step cfg net (t, n) = Some ([], ?t, n)" using Nil by (simp add: sender_step_def)
  moreover have "sender_step cfg net (?t, n) = None"
    using Nil by (simp add: sender_step_def loop_head_def)
  ultimately have "run_sender (Suc 0) cfg net (t, n) = Some ([], ?t, n)"
    by (simp add: run_sender_Suc run_sender_stop)
  with Nil show ?case by (intro exI [of _ ?t]) (simp add: loop_head_def Nil.hyps [symmetric])
next
  case (Cons item rest)
  let ?p = "pop_payload t"
  obtain evs eps n1 where snd: "send_payload net item (transport_endpoints t) n = (evs, eps, n1)"
    using prod_cases3 by blast
  let ?q = "?p\<lparr>transport_endpoints := eps\<rparr>"
  have p: "payloadsToSend ?p = rest" "thread ?p = Transferring item" "\<not> working ?p" "forceFlushOnDestruction ?p"
    "shutdownStart ?p = shutdownStart t" "transport_endpoints ?p = transport_endpoints t"
    using Cons by (simp_all add: pop_payload_def Cons.hyps(2) [symmetric])
  have s1: "sender_step cfg net (t, n) = Some ([], ?p, n)"
    using Cons by (simp add: sender_step_def Cons.hyps(2) [symmetric])
  have s2: "sender_step cfg net (?p, n) = Some (evs, if flush_timed_out cfg (steady_now net n1) ?q
      then loop_head ?q else ?q\<lparr>thread := In_Send\<rparr>, n1)"
    using p by (simp add: sender_step_def snd Let_def)
  have fuel: "2 * length (payloadsToSend t) + 1 = Suc (Suc (2 * length rest + 1))"
    by (simp add: Cons.hyps(2) [symmetric])
  show ?case
  proof (cases "flush_timed_out cfg (steady_now net n1) ?q")
    case True
    have "sender_step cfg net (loop_head ?q, n1) = None" using p by (simp add: sender_step_def loop_head_def)
    with s1 s2 True have "run_sender (2 * length (payloadsToSend t) + 1) cfg net (t, n) = Some (evs, loop_head ?q, n1)"
      unfolding fuel by (simp add: run_sender_Suc run_sender_stop)
    moreover from True have "rest \<noteq> [] \<and> async_transport_shutdown_timeout cfg > 0
        \<and> steady_now net n1 - shutdownStart t \<ge> async_transport_shutdown_timeout cfg"
      using p by (simp add: flush_timed_out_def)
    ultimately show ?thesis
      using p snd by (intro exI [of _ "loop_head ?q"]) (simp add: Cons.hyps(2) [symmetric] loop_head_def)
  next
    case False
    let ?r = "?q\<lparr>thread := In_Send\<rparr>"
    have r: "rest = payloadsToSend ?r" "thread ?r = In_Send" "\<not> working ?r" "forceFlushOnDestruction ?r"
      "shutdownStart ?r = shutdownStart t" "transport_endpoints ?r = eps" using p by simp_all
    from Cons.hyps(1) [OF r(1-4), of n1, folded r(1), unfolded r(5,6)] obtain t' where t':
      "run_sender (2 * length rest + 1) cfg net (?r, n1) =
         (case send_until cfg net (shutdownStart t) rest eps n1 of (evs, left, eps, n') \<Rightarrow> Some (evs, t', n'))"
      "thread t' = Returned" "payloadsToSend t' = fst (snd (send_until cfg net (shutdownStart t) rest eps n1))"
      by blast
    from False have nt: "\<not> (rest \<noteq> [] \<and> async_transport_shutdown_timeout cfg > 0
        \<and> steady_now net n1 - shutdownStart t \<ge> async_transport_shutdown_timeout cfg)"
      using p by (simp add: flush_timed_out_def)
    obtain evs2 left eps2 n2 where su: "send_until cfg net (shutdownStart t) rest eps n1 = (evs2, left, eps2, n2)"
      using prod_cases4 by blast
    have all: "send_until cfg net (shutdownStart t) (item # rest) (transport_endpoints t) n = (evs @ evs2, left, eps2, n2)"
      using nt by (auto simp: snd su)
    have "run_sender (Suc (Suc (2 * length rest + 1))) cfg net (t, n) = Some (evs @ evs2, t', n2)"
      using s1 s2 False t'(1) su by (simp add: run_sender_Suc)
    with t' all su show ?thesis
      unfolding fuel by (intro exI [of _ t']) (simp add: Cons.hyps(2) [symmetric])
  qed
qed

lemma send_until_no_limit:
  "async_transport_shutdown_timeout cfg \<le> 0 \<Longrightarrow> fst (snd (send_until cfg net t0 items eps n)) = []"
  by (induction items arbitrary: eps n) (auto split: prod.split, metis fst_conv snd_conv)

text \<open>
  C14. Destroying a transport whose thread is waiting or between two payloads: the thread
  always returns, and before that it sends the queued payloads in order, all of them when no
  shutdown timeout is set, else up to the first payload that ends after the timeout has passed.
\<close>

theorem destructor_flushes_queue:
  assumes "thread t = At_Wait \<or> thread t = In_Send"
  shows "let (evs, left, eps, n') = send_until cfg net now (payloadsToSend t) (transport_endpoints t) n
    in \<exists>fuel t'. run_sender fuel cfg net (destructor_begin now t, n) = Some (evs, t', n')
      \<and> thread t' = Returned \<and> payloadsToSend t' = left
      \<and> (async_transport_shutdown_timeout cfg \<le> 0 \<longrightarrow> left = [])"
proof -
  let ?d = "destructor_begin now t"
  let ?s = "?d\<lparr>thread := In_Send\<rparr>"
  have s: "thread ?s = In_Send" "\<not> working ?s" "forceFlushOnDestruction ?s" "payloadsToSend ?s = payloadsToSend t"
    "shutdownStart ?s = now" "transport_endpoints ?s = transport_endpoints t"
    by (simp_all add: destructor_begin_def shutdownThread_begin_def)
  obtain evs left eps n' where su:
    "send_until cfg net now (payloadsToSend t) (transport_endpoints t) n = (evs, left, eps, n')"
    using prod_cases4 by blast
  from run_flush [OF s(1-3), where cfg = cfg and net = net and n = n, unfolded s(4-6) su]
  obtain t' where t': "run_sender (2 * length (payloadsToSend t) + 1) cfg net (?s, n) = Some (evs, t', n')"
    "thread t' = Returned" "payloadsToSend t' = left" by auto
  have "\<exists>fuel. run_sender fuel cfg net (?d, n) = Some (evs, t', n')"
  proof (cases "thread t = In_Send")
    case True
    then have "?s = ?d" by (simp add: destructor_begin_def shutdownThread_begin_def)
    with t'(1) show ?thesis by metis
  next
    case False
    then have "sender_step cfg net (?d, n) = Some ([], ?s, n)"
      using assms by (simp add: sender_step_def destructor_begin_def shutdownThread_begin_def)
    from run_sender_Suc [OF this, of "2 * length (payloadsToSend t) + 1"] t'(1) show ?thesis by auto
  qed
  with t' su send_until_no_limit [of cfg net now "payloadsToSend t" "transport_endpoints t" n]
  show ?thesis by auto
qed

theorem destructor_flushes_queue_witness:
  "let t = (enqueue demo_cfg (demo_item 6) HttpTransportAsync_ctor)\<lparr>thread := At_Wait\<rparr>;
       (evs, left, eps, n') = send_until demo_cfg demo_net 100 (payloadsToSend t) (transport_endpoints t) 0
   in \<exists>fuel t'. run_sender fuel demo_cfg demo_net (destructor_begin 100 t, 0) = Some (evs, t', n')
      \<and> thread t' = Returned \<and> payloadsToSend t' = []"
  using destructor_flushes_queue [of "(enqueue demo_cfg (demo_item 6) HttpTransportAsync_ctor)\<lparr>thread := At_Wait\<rparr>"
      demo_cfg demo_net 100 0]
  by (auto simp: Let_def) blast

text \<open>
  The flush at destruction depends on timing: a thread that was created but has not yet
  reached its loop when the destructor clears \<open>working_\<close> returns without sending anything,
  although \<open>forceFlushOnDestruction_\<close> is set.
\<close>

lemma destructor_races_with_thread_start:
  assumes "thread t = Started"
  shows "\<exists>t'. run_sender 1 cfg net (destructor_begin now t, n) = Some ([], t', n)
    \<and> thread t' = Returned \<and> forceFlushOnDestruction t' \<and> payloadsToSend t' = payloadsToSend t"
proof -
  let ?d = "destructor_begin now t"
  have "sender_step cfg net (?d, n) = Some ([], loop_head ?d, n)"
    using assms by (simp add: sender_step_def destructor_begin_def shutdownThread_begin_def)
  moreover have "sender_step cfg net (loop_head ?d, n) = None"
    by (simp add: sender_step_def loop_head_def destructor_begin_def shutdownThread_begin_def)
  ultimately have "run_sender (Suc 0) cfg net (?d, n) = Some ([], loop_head ?d, n)"
    by (simp add: run_sender_Suc run_sender_stop)
  then show ?thesis
    by (intro exI [of _ "loop_head ?d"]) (simp add: loop_head_def destructor_begin_def shutdownThread_begin_def)
qed

lemma destructor_races_with_thread_start_witness:
  "\<exists>t'. run_sender 1 demo_cfg demo_net
       (destructor_begin 5 (startThread (enqueue demo_cfg (demo_item 6) HttpTransportAsync_ctor)), 0) = Some ([], t', 0)
     \<and> thread t' = Returned \<and> payloadsToSend t' = [demo_item 6]"
proof -
  let ?t = "startThread (enqueue demo_cfg (demo_item 6) HttpTransportAsync_ctor)"
  have "thread ?t = Started" "payloadsToSend ?t = [demo_item 6]"
    by (simp_all add: startThread_def enqueue_def HttpTransportAsync_ctor_def Let_def)
  with destructor_races_with_thread_start [of ?t demo_cfg demo_net 5 0] show ?thesis by auto
qed

end
