(* ===== verification/ChunkedMessages.thy ===== *)
theory ChunkedMessages
  imports Prelude "HOL-Library.AList"
begin

text \<open>
  The wire between the PHP workers and the coordinator process:
  \<open>CoordinatorSharedDataQueue.h\<close> (the shared-memory queue and its fixed-size payloads) and
  \<open>ChunkedMessageProcessor\<close>, which cuts a message into payloads and puts the payloads of many
  senders together again. The Boost message queue is a parameter. Allocation failures are not
  modelled.
\<close>

subsection \<open>Payloads and the shared queue\<close>

record CoordinatorPayload =
  senderProcessId :: pid
  msgId :: "64 word"
  payloadTotalSize :: size_t
  payloadOffset :: size_t
  payload :: "byte list"

definition sizeof_payload :: size_t where
  "sizeof_payload = 4064"

text \<open>\<open>offsetof(CoordinatorPayload, payload)\<close>, with \<open>senderProcessId\<close> padded to eight bytes.\<close>

definition offsetof_payload :: size_t where
  "offsetof_payload = 32"

definition maxMqPayloadSize :: size_t where
  "maxMqPayloadSize = offsetof_payload + sizeof_payload"

definition maxQueueSize :: nat where
  "maxQueueSize = 100"

text \<open>
  An element of the queue is a payload and the number of its bytes that were sent; only
  these bytes travel. The operations of \<open>boost::interprocess::message_queue\<close> may throw
  (\<open>Inl\<close>); \<open>try_send\<close> says whether there was room, \<open>timed_receive\<close> whether something came.
\<close>

type_synonym mq_item = "CoordinatorPayload \<times> size_t"

record 'q message_queue =
  try_send :: "'q \<Rightarrow> mq_item \<Rightarrow> unit + bool \<times> 'q"
  timed_receive :: "'q \<Rightarrow> unit + mq_item option \<times> 'q"

definition enqueueMessage :: "'q message_queue \<Rightarrow> 'q \<Rightarrow> mq_item \<Rightarrow> bool \<times> 'q" where
  "enqueueMessage mq q item =
     (case try_send mq q item of Inr (sent, q') \<Rightarrow> (True, q') | Inl ex \<Rightarrow> (False, q))"

definition queue_tryReceiveMessage :: "'q message_queue \<Rightarrow> 'q \<Rightarrow> mq_item option \<times> 'q" where
  "queue_tryReceiveMessage mq q =
     (case timed_receive mq q of Inr r \<Rightarrow> r | Inl ex \<Rightarrow> (None, q))"

subsection \<open>Sending\<close>

text \<open>\<open>memcpy\<close> of \<open>n\<close> bytes of \<open>src\<close> to the start of \<open>dst\<close>.\<close>

definition memcpy :: "byte list \<Rightarrow> byte list \<Rightarrow> nat \<Rightarrow> byte list" where
  "memcpy dst src n = take n src @ drop n dst"

function send_loop ::
    "('q \<Rightarrow> mq_item \<Rightarrow> bool \<times> 'q) \<Rightarrow> byte list \<Rightarrow> size_t \<Rightarrow> CoordinatorPayload \<Rightarrow> 'q \<Rightarrow> bool \<times> 'q" where
  "send_loop enqueue bytes psize chunk q =
     (if payloadOffset chunk < psize then
        let chunkSize = min sizeof_payload (psize - payloadOffset chunk);
            chunk1 = chunk\<lparr>payload := memcpy (payload chunk) (drop (unat (payloadOffset chunk)) bytes) (unat chunkSize)\<rparr>;
            (ok, q') = enqueue q (chunk1, chunkSize + offsetof_payload)
        in if \<not> ok then (False, q')
           else send_loop enqueue bytes psize (chunk1\<lparr>payloadOffset := payloadOffset chunk + chunkSize\<rparr>) q'
      else (True, q))"
  by pat_completeness auto

lemma next_offset:
  fixes off psize :: size_t
  assumes "off < psize"
  defines "n \<equiv> min sizeof_payload (psize - off)"
  shows "unat n = min 4064 (unat psize - unat off)" "unat (off + n) = unat off + unat n" "0 < unat n"
proof -
  have d: "unat (psize - off) = unat psize - unat off" using assms by (simp add: unat_sub)
  show n: "unat n = min 4064 (unat psize - unat off)"
    by (simp add: n_def min_def word_le_nat_alt d sizeof_payload_def)
  show "0 < unat n" using assms(1) by (simp add: n word_less_nat_alt)
  have "unat psize < 2 ^ LENGTH(64)" by (rule unsigned_less)
  moreover have "unat off + min 4064 (unat psize - unat off) \<le> unat psize"
    using assms(1) unfolding word_less_nat_alt by linarith
  ultimately show "unat (off + n) = unat off + unat n"
    by (simp add: unat_plus_if' n)
qed

termination send_loop
proof (relation "measure (\<lambda>(enqueue, bytes, psize, chunk, q). unat psize - unat (payloadOffset chunk))", goal_cases)
  case 1
  then show ?case by simp
next
  case (2 enqueue bytes psize chunk q n c1 r ok q')
  then show ?case
    using next_offset(2,3) [of "payloadOffset chunk" psize] unfolding word_less_nat_alt
    by (simp del: min_less_iff_conj)
qed

declare send_loop.simps [simp del]

text \<open>
  \<open>getpid\<close> is the calling process, \<open>stack\<close> what the uninitialised payload array holds.
  \<open>msgId_\<close> is threaded through.
\<close>

definition sendPayload ::
    "('q \<Rightarrow> mq_item \<Rightarrow> bool \<times> 'q) \<Rightarrow> pid \<Rightarrow> byte list \<Rightarrow> byte list \<Rightarrow> 64 word \<Rightarrow> 'q \<Rightarrow> bool \<times> 64 word \<times> 'q" where
  "sendPayload enqueue getpid stack bytes lastId q =
     (let newId = lastId + 1;
          psize = word_of_nat (length bytes);
          chunk = \<lparr>senderProcessId = getpid, msgId = newId, payloadTotalSize = psize,
                   payloadOffset = 0, payload = stack\<rparr>;
          (ok, q') = send_loop enqueue bytes psize chunk q
      in (ok, newId, q'))"

subsection \<open>Receiving\<close>

record ChunkedMessage =
  totalSize :: size_t
  data :: "byte list"
  lastUpdated :: msec

definition ChunkedMessage_ctor :: "size_t \<Rightarrow> ChunkedMessage" where
  "ChunkedMessage_ctor psize = \<lparr>totalSize = psize, data = [], lastUpdated = 0\<rparr>"

definition getCurrentSize :: "ChunkedMessage \<Rightarrow> size_t" where
  "getCurrentSize m = word_of_nat (length (data m))"

definition addNextChunk :: "msec \<Rightarrow> byte list \<Rightarrow> ChunkedMessage \<Rightarrow> (bool \<times> ChunkedMessage) result" where
  "addNextChunk now chunkData m =
     (if getCurrentSize m + word_of_nat (length chunkData) > totalSize m
      then Inl (Runtime_Error ''ChunkedMessage: chunk exceeds total size'')
      else let m' = m\<lparr>data := data m @ chunkData, lastUpdated := now\<rparr>
           in Inr (getCurrentSize m' = totalSize m', m'))"

text \<open>\<open>std::unordered_map\<close> as association lists, so that \<open>empty()\<close> can be asked.\<close>

type_synonym messages = "(pid \<times> (64 word \<times> ChunkedMessage) list) list"

text \<open>
  What is left in the map when an exception leaves \<open>processReceivedChunk\<close> stays there, so the
  new map is returned beside the outcome: an exception, or the completed message if the chunk
  completed one, which is then passed to \<open>processMessage_\<close>. A size below the header's makes
  \<open>payloadSize\<close> wrap around; bytes past the payload array are not readable.
\<close>

definition processReceivedChunk ::
    "msec \<Rightarrow> CoordinatorPayload \<Rightarrow> size_t \<Rightarrow> messages \<Rightarrow> byte list option result \<times> messages" where
  "processReceivedChunk now chunk chunkSize recieved =
     (let sender = senderProcessId chunk;
          messagesForSender = (case map_of recieved sender of Some ms \<Rightarrow> ms | None \<Rightarrow> []);
          message = (case map_of messagesForSender (msgId chunk) of
                       Some m \<Rightarrow> m | None \<Rightarrow> ChunkedMessage_ctor (payloadTotalSize chunk));
          put = (\<lambda>m. AList.update sender (AList.update (msgId chunk) m messagesForSender) recieved);
          payloadSize = chunkSize - offsetof_payload
      in if getCurrentSize message \<noteq> payloadOffset chunk
         then (Inl (Runtime_Error ''received chunk with unexpected offset''), put message)
         else if payloadOffset chunk + payloadSize > payloadTotalSize chunk
         then (Inl (Runtime_Error ''received chunk exceeds total payload size''), put message)
         else if unat payloadSize > length (payload chunk)
         then (Inl (Undefined_Behaviour ''read past the payload''), put message)
         else case addNextChunk now (take (unat payloadSize) (payload chunk)) message of
           Inl e \<Rightarrow> (Inl e, put message)
         | Inr (complete, m) \<Rightarrow>
             if complete then
               let rest = AList.delete (msgId chunk) messagesForSender
               in (Inr (Some (data m)),
                   if rest = [] then AList.delete sender recieved else AList.update sender rest recieved)
             else (Inr None, put m))"

definition cleanupAbandonedMessages :: "msec \<Rightarrow> msec \<Rightarrow> messages \<Rightarrow> messages" where
  "cleanupAbandonedMessages now maxAge recieved =
     filter (\<lambda>(sender, ms). ms \<noteq> [])
       (map (\<lambda>(sender, ms). (sender, filter (\<lambda>(i, m). \<not> now - lastUpdated m > maxAge) ms)) recieved)"

text \<open>The outcome says whether something was received, and the message it completed.\<close>

definition tryReceiveMessage ::
    "'q message_queue \<Rightarrow> msec \<Rightarrow> messages \<Rightarrow> 'q \<Rightarrow> (bool \<times> byte list option) result \<times> messages \<times> 'q" where
  "tryReceiveMessage mq now recieved q =
     (case queue_tryReceiveMessage mq q of
        (None, q') \<Rightarrow> (Inr (False, None), recieved, q')
      | (Some (chunk, n), q') \<Rightarrow>
          (case processReceivedChunk now chunk n recieved of
             (Inl e, r) \<Rightarrow> (Inl e, r, q')
           | (Inr d, r) \<Rightarrow> (Inr (True, d), r, q')))"

subsection \<open>One map instead of two\<close>

type_synonym msg_key = "pid \<times> 64 word"

definition lookup :: "messages \<Rightarrow> msg_key \<rightharpoonup> ChunkedMessage" where
  "lookup recieved k = Option.bind (map_of recieved (fst k)) (\<lambda>ms. map_of ms (snd k))"

definition chunk_key :: "CoordinatorPayload \<Rightarrow> msg_key" where
  "chunk_key c = (senderProcessId c, msgId c)"

text \<open>The receiver, seen as working on one map from sender and message number.\<close>

definition receive_spec ::
    "msec \<Rightarrow> CoordinatorPayload \<Rightarrow> size_t \<Rightarrow> (msg_key \<rightharpoonup> ChunkedMessage)
       \<Rightarrow> byte list option result \<times> (msg_key \<rightharpoonup> ChunkedMessage)" where
  "receive_spec now c n F =
     (let k = chunk_key c;
          m = (case F k of Some m \<Rightarrow> m | None \<Rightarrow> ChunkedMessage_ctor (payloadTotalSize c));
          d = n - offsetof_payload
      in if getCurrentSize m \<noteq> payloadOffset c
         then (Inl (Runtime_Error ''received chunk with unexpected offset''), F(k \<mapsto> m))
         else if payloadOffset c + d > payloadTotalSize c
         then (Inl (Runtime_Error ''received chunk exceeds total payload size''), F(k \<mapsto> m))
         else if unat d > length (payload c)
         then (Inl (Undefined_Behaviour ''read past the payload''), F(k \<mapsto> m))
         else case addNextChunk now (take (unat d) (payload c)) m of
           Inl e \<Rightarrow> (Inl e, F(k \<mapsto> m))
         | Inr (complete, m') \<Rightarrow>
             if complete then (Inr (Some (data m')), F(k := None)) else (Inr None, F(k \<mapsto> m')))"

lemma lookup_put:
  "lookup (AList.update p (AList.update i m (case map_of r p of Some ms \<Rightarrow> ms | None \<Rightarrow> [])) r)
     = (lookup r)((p, i) \<mapsto> m)"
  by (rule ext) (auto simp: lookup_def update_conv' split: option.splits)

lemma lookup_remove:
  assumes "rest = AList.delete i (case map_of r p of Some ms \<Rightarrow> ms | None \<Rightarrow> [])"
  shows "lookup (if rest = [] then AList.delete p r else AList.update p rest r) = (lookup r)((p, i) := None)"
proof (rule ext)
  fix k :: msg_key
  have "map_of rest = (map_of (case map_of r p of Some ms \<Rightarrow> ms | None \<Rightarrow> []))(i := None)"
    by (simp add: assms delete_conv')
  then have rest: "map_of rest j = (if j = i then None else lookup r (p, j))" for j
    by (cases "map_of r p") (simp_all add: lookup_def)
  show "lookup (if rest = [] then AList.delete p r else AList.update p rest r) k = ((lookup r)((p, i) := None)) k"
  proof (cases "fst k = p")
    case True
    have "lookup (if rest = [] then AList.delete p r else AList.update p rest r) k = map_of rest (snd k)"
      using True by (auto simp: lookup_def update_conv' delete_conv')
    with True rest [of "snd k"] show ?thesis by (cases k) auto
  next
    case False
    then show ?thesis by (cases k) (auto simp: lookup_def update_conv' delete_conv')
  qed
qed

lemma message_lookup:
  "(case map_of (case map_of r (fst k) of Some ms \<Rightarrow> ms | None \<Rightarrow> []) (snd k) of Some m \<Rightarrow> m | None \<Rightarrow> d)
     = (case lookup r k of Some m \<Rightarrow> m | None \<Rightarrow> d)"
  by (cases "map_of r (fst k)") (simp_all add: lookup_def)

lemma processReceivedChunk_refines:
  "(case processReceivedChunk now c n r of (res, r') \<Rightarrow> (res, lookup r')) = receive_spec now c n (lookup r)"
proof -
  let ?k = "(senderProcessId c, msgId c)" and ?d = "n - offsetof_payload"
  define m where "m = (case lookup r ?k of Some m \<Rightarrow> m | None \<Rightarrow> ChunkedMessage_ctor (payloadTotalSize c))"
  have m: "(case map_of (case map_of r (senderProcessId c) of Some ms \<Rightarrow> ms | None \<Rightarrow> []) (msgId c) of
      Some m \<Rightarrow> m | None \<Rightarrow> ChunkedMessage_ctor (payloadTotalSize c)) = m"
    using message_lookup [where r = r and k = ?k] by (simp add: m_def)
  note defs = processReceivedChunk_def receive_spec_def Let_def chunk_key_def m m_def [symmetric] lookup_put
  show ?thesis
  proof (cases "getCurrentSize m \<noteq> payloadOffset c \<or> payloadOffset c + ?d > payloadTotalSize c
      \<or> unat ?d > length (payload c)")
    case True
    then show ?thesis by (auto simp: defs)
  next
    case False
    show ?thesis
    proof (cases "addNextChunk now (take (unat ?d) (payload c)) m")
      case (Inl e)
      with False show ?thesis by (simp add: defs)
    next
      case (Inr r')
      with False show ?thesis
        using lookup_remove [OF refl, of "msgId c" r "senderProcessId c"]
        by (cases r'; cases "fst r'") (simp_all add: defs split del: if_split)
    qed
  qed
qed

subsection \<open>Well-formed maps\<close>

definition wf_messages :: "messages \<Rightarrow> bool" where
  "wf_messages r = (distinct (map fst r) \<and> (\<forall>(p, ms) \<in> set r. ms \<noteq> [] \<and> distinct (map fst ms)))"

lemma AList_set_update: "(k, v) \<in> set (AList.update a b xs) \<Longrightarrow> (k, v) = (a, b) \<or> (k, v) \<in> set xs"
  by (induction xs) (auto split: if_splits)

lemma update_nonempty [simp]: "AList.update k v xs \<noteq> []"
  by (cases xs) auto

lemma wf_put:
  assumes "wf_messages r" "ms \<noteq> []" "distinct (map fst ms)"
  shows "wf_messages (AList.update p ms r)"
  using assms AList_set_update distinct_update [of r p ms]
  by (fastforce simp: wf_messages_def)

lemma wf_remove: "wf_messages r \<Longrightarrow> wf_messages (AList.delete p r)"
  by (auto simp: wf_messages_def AList.delete_eq distinct_map_filter)

lemma wf_inner: "wf_messages r \<Longrightarrow> distinct (map fst (case map_of r p of Some ms \<Rightarrow> ms | None \<Rightarrow> []))"
  by (auto simp: wf_messages_def split: option.split dest: map_of_SomeD)

lemma wf_processReceivedChunk [inv_intros]:
  "wf_messages r \<Longrightarrow> wf_messages (snd (processReceivedChunk now c n r))"
  by (auto simp: processReceivedChunk_def Let_def distinct_update distinct_delete wf_inner
      intro!: wf_put wf_remove split: sum.split)

lemma wf_cleanup [inv_intros]:
  assumes "wf_messages r"
  shows "wf_messages (cleanupAbandonedMessages now maxAge r)"
proof -
  let ?g = "\<lambda>(p, ms). (p :: pid, filter (\<lambda>(i, m). \<not> now - lastUpdated m > maxAge) ms)"
  have "map fst (map ?g r) = map fst r" by auto
  then have "distinct (map fst (map ?g r))" using assms unfolding wf_messages_def by metis
  then have "distinct (map fst (filter (\<lambda>(p, ms). ms \<noteq> []) (map ?g r)))" by (rule distinct_map_filter)
  then show ?thesis
    using assms by (auto simp: wf_messages_def cleanupAbandonedMessages_def intro!: distinct_map_filter)
qed

lemma map_of_filter_inner:
  "distinct (map fst ms) \<Longrightarrow>
     map_of (filter (\<lambda>(i, m). P m) ms) i =
       (case map_of ms i of Some m \<Rightarrow> if P m then Some m else None | None \<Rightarrow> None)"
  by (induction ms) (auto simp: map_of_eq_None_iff image_iff split: option.splits)

lemma map_of_filter_outer:
  "distinct (map fst r) \<Longrightarrow>
     map_of (filter (\<lambda>(p, ms). ms \<noteq> []) (map (\<lambda>(p, ms). (p, f ms)) r)) p =
       (case map_of r p of Some ms \<Rightarrow> if f ms = [] then None else Some (f ms) | None \<Rightarrow> None)"
proof (induction r)
  case Nil
  then show ?case by simp
next
  case (Cons a r)
  then have "fst a \<notin> set (map fst r)" by simp
  then have "map_of r (fst a) = None" by (simp add: map_of_eq_None_iff)
  with Cons show ?case by (cases a) (auto split: option.splits)
qed

lemma lookup_cleanup:
  assumes "wf_messages r"
  shows "lookup (cleanupAbandonedMessages now maxAge r) k =
    (case lookup r k of Some m \<Rightarrow> if now - lastUpdated m > maxAge then None else Some m | None \<Rightarrow> None)"
proof (cases "map_of r (fst k)")
  case None
  then show ?thesis
    using assms by (simp add: lookup_def cleanupAbandonedMessages_def map_of_filter_outer wf_messages_def)
next
  case (Some ms)
  let ?P = "\<lambda>m. \<not> now - lastUpdated m > maxAge"
  have "distinct (map fst ms)" using wf_inner [OF assms, of "fst k"] Some by simp
  then have "map_of (filter (\<lambda>(i, m). ?P m) ms) (snd k)
      = (case map_of ms (snd k) of Some m \<Rightarrow> if ?P m then Some m else None | None \<Rightarrow> None)"
    by (rule map_of_filter_inner)
  moreover have "lookup (cleanupAbandonedMessages now maxAge r) k = map_of (filter (\<lambda>(i, m). ?P m) ms) (snd k)"
    using assms Some by (auto simp: lookup_def cleanupAbandonedMessages_def map_of_filter_outer wf_messages_def)
  ultimately show ?thesis using Some by (auto simp: lookup_def split: option.split)
qed

subsection \<open>What a sender puts on the wire\<close>

definition item_key :: "mq_item \<Rightarrow> msg_key" where
  "item_key x = chunk_key (fst x)"

definition item_data :: "mq_item \<Rightarrow> byte list" where
  "item_data x = take (unat (snd x - offsetof_payload)) (payload (fst x))"

text \<open>The payload \<open>x\<close> carries the bytes of message \<open>p\<close> from position \<open>off\<close> on.\<close>

definition carries :: "msg_key \<Rightarrow> byte list \<Rightarrow> nat \<Rightarrow> mq_item \<Rightarrow> bool" where
  "carries k p off x =
     (item_key x = k \<and> payloadTotalSize (fst x) = word_of_nat (length p)
      \<and> payloadOffset (fst x) = word_of_nat off
      \<and> off + length (item_data x) \<le> length p
      \<and> unat (snd x - offsetof_payload) = length (item_data x) \<and> length (item_data x) \<le> 4064
      \<and> item_data x = take (length (item_data x)) (drop off p))"

fun contiguous :: "msg_key \<Rightarrow> byte list \<Rightarrow> nat \<Rightarrow> mq_item list \<Rightarrow> bool" where
  "contiguous k p off [] = (off = length p)"
| "contiguous k p off (x # xs) =
     (carries k p off x \<and> item_data x \<noteq> [] \<and> contiguous k p (off + length (item_data x)) xs)"

text \<open>The payloads \<open>sendPayload\<close> hands to a queue that takes them all.\<close>

definition outbox :: "byte list \<Rightarrow> msg_key \<Rightarrow> byte list \<Rightarrow> mq_item list" where
  "outbox stack k p = snd (snd (sendPayload (\<lambda>q x. (True, q @ [x])) (fst k) stack p (snd k - 1) []))"

lemma unat_of_len: "n < 2 ^ 63 \<Longrightarrow> unat (word_of_nat n :: size_t) = n"
  by (simp add: unat_of_nat take_bit_nat_eq_self)

lemma send_loop_step:
  assumes "off < length p" "length p < 2 ^ 63" "length (payload chunk) = 4064"
    "payloadOffset chunk = word_of_nat off" "payloadTotalSize chunk = word_of_nat (length p)"
  obtains chunk' n where
    "send_loop enq p (word_of_nat (length p)) chunk q =
       (let (ok, q') = enq q (chunk', n)
        in if \<not> ok then (False, q')
           else send_loop enq p (word_of_nat (length p))
                  (chunk'\<lparr>payloadOffset := word_of_nat (off + length (item_data (chunk', n)))\<rparr>) q')"
    "carries (chunk_key chunk) p off (chunk', n)" "item_data (chunk', n) \<noteq> []"
    "length (payload chunk') = 4064" "chunk_key chunk' = chunk_key chunk"
    "payloadTotalSize chunk' = payloadTotalSize chunk"
proof -
  let ?size = "word_of_nat (length p) :: size_t" and ?off = "word_of_nat off :: size_t"
  have off: "unat ?off = off" and size: "unat ?size = length p"
    using assms by (simp_all add: unat_of_len)
  have less: "?off < ?size" using assms by (simp add: word_less_nat_alt off size)
  define n where "n = min sizeof_payload (?size - ?off)"
  note nx = next_offset [OF less, folded n_def, unfolded off size]
  define c where "c = chunk\<lparr>payload := memcpy (payload chunk) (drop off p) (unat n)\<rparr>"
  have size_n: "unat (n + offsetof_payload - offsetof_payload) = unat n" by simp
  have d: "item_data (c, n + offsetof_payload) = take (unat n) (drop off p)"
    using nx(1) by (simp add: item_data_def c_def memcpy_def)
  have len: "length (item_data (c, n + offsetof_payload)) = unat n" using nx(1) by (simp add: d)
  have next_off: "?off + n = word_of_nat (off + unat n)" by simp
  have "send_loop enq p ?size chunk q =
       (let (ok, q') = enq q (c, n + offsetof_payload)
        in if \<not> ok then (False, q')
           else send_loop enq p ?size (c\<lparr>payloadOffset := word_of_nat (off + length (item_data (c, n + offsetof_payload)))\<rparr>) q')"
    unfolding len using less
    by (subst send_loop.simps) (simp add: assms(4) n_def [symmetric] off c_def Let_def cong: if_cong)
  moreover have "carries (chunk_key chunk) p off (c, n + offsetof_payload)"
    using assms nx(1) len d
    by (simp add: carries_def c_def item_key_def chunk_key_def)
  moreover have "item_data (c, n + offsetof_payload) \<noteq> []" using len nx(3) by auto
  moreover have "length (payload c) = 4064" using assms(3) nx(1) by (simp add: c_def memcpy_def)
  ultimately show ?thesis
    by (intro that [of c "n + offsetof_payload"]) (simp_all add: c_def chunk_key_def)
qed

lemma send_loop_contiguous:
  assumes "off \<le> length p" "length p < 2 ^ 63" "length (payload chunk) = 4064"
    "payloadOffset chunk = word_of_nat off" "payloadTotalSize chunk = word_of_nat (length p)"
  shows "\<exists>xs. send_loop (\<lambda>q x. (True, q @ [x])) p (word_of_nat (length p)) chunk q = (True, q @ xs)
    \<and> contiguous (chunk_key chunk) p off xs"
  using assms
proof (induction "length p - off" arbitrary: off chunk q rule: less_induct)
  case less
  show ?case
  proof (cases "off < length p")
    case False
    then show ?thesis
      using less.prems by (subst send_loop.simps) (simp add: word_less_nat_alt unat_of_len)
  next
    case True
    from True less.prems(2-5) obtain c n where c:
      "send_loop (\<lambda>q x. (True, q @ [x])) p (word_of_nat (length p)) chunk q =
         send_loop (\<lambda>q x. (True, q @ [x])) p (word_of_nat (length p))
           (c\<lparr>payloadOffset := word_of_nat (off + length (item_data (c, n)))\<rparr>) (q @ [(c, n)])"
      "carries (chunk_key chunk) p off (c, n)" "item_data (c, n) \<noteq> []"
      "length (payload c) = 4064" "chunk_key c = chunk_key chunk" "payloadTotalSize c = payloadTotalSize chunk"
      by (rule send_loop_step [where enq = "\<lambda>q x. (True, q @ [x])" and q = q]) simp
    let ?off = "off + length (item_data (c, n))"
    have "0 < length (item_data (c, n))" "?off \<le> length p" using c(2,3) by (simp_all add: carries_def)
    then have "length p - ?off < length p - off" "?off \<le> length p" using True by linarith+
    from less.hyps [OF this(1) this(2) less.prems(2), of "c\<lparr>payloadOffset := word_of_nat ?off\<rparr>" "q @ [(c, n)]"]
    obtain xs where "send_loop (\<lambda>q x. (True, q @ [x])) p (word_of_nat (length p))
          (c\<lparr>payloadOffset := word_of_nat ?off\<rparr>) (q @ [(c, n)]) = (True, (q @ [(c, n)]) @ xs)"
      "contiguous (chunk_key chunk) p ?off xs"
      using c less.prems(5) by (auto simp: chunk_key_def)
    with c show ?thesis by (intro exI [of _ "(c, n) # xs"]) simp
  qed
qed

lemma outbox_contiguous:
  assumes "length p < 2 ^ 63" "length stack = 4064"
  shows "contiguous k p 0 (outbox stack k p)"
  using send_loop_contiguous [of 0 p "\<lparr>senderProcessId = fst k, msgId = snd k,
      payloadTotalSize = word_of_nat (length p), payloadOffset = 0, payload = stack\<rparr>" "[]"] assms
  by (auto simp: outbox_def sendPayload_def Let_def chunk_key_def)

subsection \<open>The receiver on a sender's payloads\<close>

text \<open>What the receiver holds of message \<open>p\<close> is its beginning.\<close>

definition partial_of :: "byte list \<Rightarrow> ChunkedMessage \<Rightarrow> bool" where
  "partial_of p m = (totalSize m = word_of_nat (length p) \<and> length (data m) < length p
     \<and> data m = take (length (data m)) p)"

lemma receive_carried:
  assumes "carries k p off x" "length p < 2 ^ 63" "p \<noteq> []"
    and m: "m = (case F k of Some m \<Rightarrow> m | None \<Rightarrow> ChunkedMessage_ctor (word_of_nat (length p)))"
    and "partial_of p m"
  shows "receive_spec now (fst x) (snd x) F =
    (if length (data m) \<noteq> off then (Inl (Runtime_Error ''received chunk with unexpected offset''), F(k \<mapsto> m))
     else if off + length (item_data x) = length p then (Inr (Some p), F(k := None))
     else (Inr None, F(k \<mapsto> m\<lparr>data := take (off + length (item_data x)) p, lastUpdated := now\<rparr>)))"
proof -
  let ?d = "item_data x"
  have k: "chunk_key (fst x) = k" and off: "payloadOffset (fst x) = word_of_nat off"
    and psize: "payloadTotalSize (fst x) = word_of_nat (length p)"
    and len: "off + length ?d \<le> length p" and n: "unat (snd x - offsetof_payload) = length ?d"
    and d: "?d = take (length ?d) (drop off p)"
    using assms(1) by (auto simp: carries_def item_key_def)
  have fit: "\<not> unat (snd x - offsetof_payload) > length (payload (fst x))"
    using n by (simp add: item_data_def)
  have taken: "take (unat (snd x - offsetof_payload)) (payload (fst x)) = ?d" by (simp add: item_data_def)
  have cur: "unat (getCurrentSize m) = length (data m)"
    using assms(2,5) by (simp add: getCurrentSize_def partial_of_def unat_of_len)
  have m': "(case F k of Some m \<Rightarrow> m | None \<Rightarrow> ChunkedMessage_ctor (payloadTotalSize (fst x))) = m"
    unfolding m psize ..
  show ?thesis
  proof (cases "length (data m) = off")
    case False
    then have "getCurrentSize m \<noteq> payloadOffset (fst x)"
      using cur len assms(2) by (metis off unat_of_len add_leE le_less_trans)
    with False show ?thesis by (simp add: receive_spec_def m' k Let_def)
  next
    case True
    then have same: "getCurrentSize m = payloadOffset (fst x)" by (simp add: off getCurrentSize_def)
    have sum: "word_of_nat off + (snd x - offsetof_payload) = (word_of_nat (off + length ?d) :: size_t)"
      by (simp flip: n)
    have "\<not> word_of_nat (off + length ?d) > (word_of_nat (length p) :: size_t)"
      using len assms(2) by (simp add: word_less_nat_alt unat_of_len del: of_nat_add)
    moreover have "(word_of_nat (off + length ?d) :: size_t) = word_of_nat (length p) \<longleftrightarrow> off + length ?d = length p"
      using len assms(2) by (metis unat_of_len le_less_trans)
    moreover have app: "data m @ ?d = take (off + length ?d) p"
      using assms(5) True d by (metis partial_of_def take_add)
    moreover have "word_of_nat off + word_of_nat (length ?d) = (word_of_nat (off + length ?d) :: size_t)" by simp
    ultimately show ?thesis
      using True assms(5) same sum fit len
      by (simp add: receive_spec_def m' k Let_def taken addNextChunk_def psize off getCurrentSize_def
          partial_of_def del: of_nat_add)
  qed
qed

lemma contiguous_mem: "contiguous k p off xs \<Longrightarrow> x \<in> set xs \<Longrightarrow> \<exists>off'. carries k p off' x \<and> item_data x \<noteq> []"
  by (induction xs arbitrary: off) auto

lemma carries_nonempty: "carries k p off x \<Longrightarrow> item_data x \<noteq> [] \<Longrightarrow> p \<noteq> []"
  by (auto simp: carries_def)

lemma outbox_mem:
  assumes "x \<in> set (outbox stack k p)" "length p < 2 ^ 63" "length stack = 4064"
  obtains off where "carries k p off x" "p \<noteq> []"
  using contiguous_mem [OF outbox_contiguous [OF assms(2,3)] assms(1)] carries_nonempty by blast

lemma partial_of_ctor: "p \<noteq> [] \<Longrightarrow> partial_of p (ChunkedMessage_ctor (word_of_nat (length p)))"
  by (simp add: partial_of_def ChunkedMessage_ctor_def)

subsection \<open>No corruption\<close>

datatype event = Receive msec mq_item | Cleanup msec msec

text \<open>Everything the coordinator does to the map; deliveries carry the key of their message.\<close>

fun run_events :: "event list \<Rightarrow> messages \<Rightarrow> (msg_key \<times> byte list) list \<times> messages" where
  "run_events [] r = ([], r)"
| "run_events (Receive now x # es) r =
     (case processReceivedChunk now (fst x) (snd x) r of
        (Inr (Some d), r') \<Rightarrow> (let (outs, r'') = run_events es r' in ((item_key x, d) # outs, r''))
      | (_, r') \<Rightarrow> run_events es r')"
| "run_events (Cleanup now maxAge # es) r = run_events es (cleanupAbandonedMessages now maxAge r)"

definition genuine_event :: "(msg_key \<rightharpoonup> byte list) \<Rightarrow> event \<Rightarrow> bool" where
  "genuine_event msgs e = (case e of
       Cleanup now maxAge \<Rightarrow> True
     | Receive now x \<Rightarrow> (\<exists>p stack. msgs (item_key x) = Some p \<and> length p < 2 ^ 63 \<and> length stack = 4064
         \<and> x \<in> set (outbox stack (item_key x) p)))"

definition partials_of :: "(msg_key \<rightharpoonup> byte list) \<Rightarrow> (msg_key \<rightharpoonup> ChunkedMessage) \<Rightarrow> bool" where
  "partials_of msgs F = (\<forall>k m. F k = Some m \<longrightarrow> (\<exists>p. msgs k = Some p \<and> partial_of p m))"

lemma receive_genuine:
  assumes "genuine_event msgs (Receive now x)" "partials_of msgs (lookup r)"
    "processReceivedChunk now (fst x) (snd x) r = (res, r')"
  shows "partials_of msgs (lookup r')" "res = Inr (Some d) \<Longrightarrow> msgs (item_key x) = Some d"
proof -
  let ?k = "item_key x"
  from assms(1) obtain p stack where p: "msgs ?k = Some p" "length p < 2 ^ 63" "length stack = 4064"
    "x \<in> set (outbox stack ?k p)" by (auto simp: genuine_event_def)
  obtain off where off: "carries ?k p off x" "p \<noteq> []" using outbox_mem [OF p(4) p(2,3)] .
  define m where "m = (case lookup r ?k of Some m \<Rightarrow> m | None \<Rightarrow> ChunkedMessage_ctor (word_of_nat (length p)))"
  have m: "partial_of p m"
  proof (cases "lookup r ?k")
    case None
    then show ?thesis using partial_of_ctor [OF off(2)] by (simp add: m_def)
  next
    case (Some m')
    then obtain p' where "msgs ?k = Some p'" "partial_of p' m'"
      using assms(2) unfolding partials_of_def by blast
    with Some p(1) show ?thesis by (simp add: m_def)
  qed
  have spec: "(res, lookup r') = receive_spec now (fst x) (snd x) (lookup r)"
    using processReceivedChunk_refines [of now "fst x" "snd x" r] assms(3) by simp
  note rc = receive_carried [where F = "lookup r", OF off(1) p(2) off(2) m_def m, of now]
  have "partial_of p (m\<lparr>data := take (off + length (item_data x)) p, lastUpdated := now\<rparr>)"
    if "off + length (item_data x) \<noteq> length p"
    using that m off(1) by (auto simp: partial_of_def carries_def)
  with spec rc m assms(2) p(1) show "partials_of msgs (lookup r')"
    by (auto simp: partials_of_def split: if_splits)
  assume "res = Inr (Some d)"
  with spec rc p(1) show "msgs ?k = Some d" by (auto split: if_splits)
qed

lemma run_events_genuine:
  assumes "list_all (genuine_event msgs) es" "wf_messages r" "partials_of msgs (lookup r)"
  shows "\<forall>(k, d) \<in> set (fst (run_events es r)). msgs k = Some d"
  using assms
proof (induction es r rule: run_events.induct)
  case (1 r)
  then show ?case by simp
next
  case (2 now x es r)
  obtain res r' where pr: "processReceivedChunk now (fst x) (snd x) r = (res, r')" by fastforce
  have g: "genuine_event msgs (Receive now x)" "list_all (genuine_event msgs) es" using "2.prems"(1) by auto
  have wf: "wf_messages r'" using wf_processReceivedChunk [OF "2.prems"(2)] pr by (metis snd_conv)
  note inv = receive_genuine [OF g(1) "2.prems"(3) pr]
  from "2.IH" pr g(2) wf inv show ?case
    by (auto split: sum.splits option.splits prod.splits)
next
  case (3 now maxAge es r)
  have "partials_of msgs (lookup (cleanupAbandonedMessages now maxAge r))"
    using "3.prems"(3) by (auto simp: partials_of_def lookup_cleanup [OF "3.prems"(2)] split: option.splits if_splits)
  with 3 show ?case by (simp add: wf_cleanup)
qed

text \<open>
  C7. Nothing but sent messages is ever delivered. Let \<open>msgs\<close> be the messages the senders
  passed to \<open>sendPayload\<close>, by process and message number. Whatever payloads of theirs arrive,
  in whatever order, lost, repeated or mixed with those of other senders, and whenever
  abandoned messages are cleaned up: each message the receiver completes is, byte for byte,
  the message that sender sent under that number.
\<close>

theorem delivered_messages_are_genuine:
  assumes "list_all (genuine_event msgs) es"
  shows "\<forall>(k, d) \<in> set (fst (run_events es [])). msgs k = Some d"
  using run_events_genuine [OF assms, of "[]"]
  by (simp add: wf_messages_def partials_of_def lookup_def)

theorem delivered_messages_are_genuine_witness:
  "let x = hd (outbox (replicate 4064 0) (1, 1) [7])
   in \<forall>(k, d) \<in> set (fst (run_events [Receive 5 x, Cleanup 10 3, Receive 11 x] [])). [(1, 1) \<mapsto> [7]] k = Some d"
proof -
  let ?xs = "outbox (replicate 4064 0) (1, 1) [7]"
  have c: "contiguous (1, 1) [7] 0 ?xs" by (rule outbox_contiguous) simp_all
  then have mem: "hd ?xs \<in> set ?xs" by (cases ?xs) auto
  with contiguous_mem [OF c] have key: "item_key (hd ?xs) = (1, 1)" by (auto simp: carries_def)
  have "genuine_event [(1, 1) \<mapsto> [7]] (Receive now (hd ?xs))" for now
    using mem key by (auto simp: genuine_event_def intro!: exI [of _ "replicate 4064 0"])
  then have "list_all (genuine_event [(1, 1) \<mapsto> [7]]) [Receive 5 (hd ?xs), Cleanup 10 3, Receive 11 (hd ?xs)]"
    by (simp add: genuine_event_def)
  from delivered_messages_are_genuine [OF this] show ?thesis unfolding Let_def .
qed

subsection \<open>No loss\<close>

fun receive_all ::
    "(msec \<times> mq_item) list \<Rightarrow> messages \<Rightarrow> (msg_key \<times> byte list) list result \<times> messages" where
  "receive_all [] r = (Inr [], r)"
| "receive_all ((now, x) # xs) r =
     (case processReceivedChunk now (fst x) (snd x) r of
        (Inl e, r') \<Rightarrow> (Inl e, r')
      | (Inr None, r') \<Rightarrow> receive_all xs r'
      | (Inr (Some d), r') \<Rightarrow>
          (case receive_all xs r' of (res, r'') \<Rightarrow> (bind_result res (\<lambda>outs. Inr ((item_key x, d) # outs)), r'')))"

definition pending :: "(msg_key \<rightharpoonup> byte list) \<Rightarrow> (msg_key \<rightharpoonup> ChunkedMessage) \<Rightarrow> msg_key \<Rightarrow> mq_item list \<Rightarrow> bool" where
  "pending msgs F k rest = (case F k of
       Some m \<Rightarrow> (\<exists>p. msgs k = Some p \<and> length p < 2 ^ 63 \<and> partial_of p m \<and> contiguous k p (length (data m)) rest)
     | None \<Rightarrow> rest = [] \<or> (\<exists>p. msgs k = Some p \<and> length p < 2 ^ 63 \<and> contiguous k p 0 rest))"

lemma pending_step:
  assumes "pending msgs (lookup r) (item_key x) (x # rest)"
  shows "\<exists>p r'. msgs (item_key x) = Some p \<and>
    ((rest = [] \<and> processReceivedChunk now (fst x) (snd x) r = (Inr (Some p), r')
        \<and> lookup r' = (lookup r)(item_key x := None))
     \<or> (rest \<noteq> [] \<and> processReceivedChunk now (fst x) (snd x) r = (Inr None, r')
        \<and> (\<exists>m. lookup r' = (lookup r)(item_key x \<mapsto> m) \<and> pending msgs (lookup r') (item_key x) rest)))"
proof -
  let ?k = "item_key x" and ?d = "item_data x"
  define m where "m = (\<lambda>p :: byte list. case lookup r ?k of Some m \<Rightarrow> m | None \<Rightarrow> ChunkedMessage_ctor (word_of_nat (length p)))"
  from assms obtain p where p: "msgs ?k = Some p" "length p < 2 ^ 63"
    and c: "contiguous ?k p (length (data (m p))) (x # rest)" and part: "lookup r ?k \<noteq> None \<longrightarrow> partial_of p (m p)"
    by (auto simp: pending_def m_def ChunkedMessage_ctor_def split: option.splits)
  have car: "carries ?k p (length (data (m p))) x" "?d \<noteq> []"
    and rest: "contiguous ?k p (length (data (m p)) + length ?d) rest" using c by auto
  have ne: "p \<noteq> []" using car carries_nonempty by blast
  have mp: "partial_of p (m p)" using part partial_of_ctor [OF ne] by (auto simp: m_def split: option.split)
  let ?m = "(m p)\<lparr>data := take (length (data (m p)) + length ?d) p, lastUpdated := now\<rparr>"
  have len: "length (data (m p)) + length ?d \<le> length p" using car(1) by (simp add: carries_def)
  obtain res r' where pr: "processReceivedChunk now (fst x) (snd x) r = (res, r')" by fastforce
  then have "(res, lookup r') = receive_spec now (fst x) (snd x) (lookup r)"
    using processReceivedChunk_refines [of now "fst x" "snd x" r] by simp
  then have spec: "(res, lookup r') = (if length (data (m p)) + length ?d = length p
      then (Inr (Some p), (lookup r)(?k := None)) else (Inr None, (lookup r)(?k \<mapsto> ?m)))"
    using receive_carried [where F = "lookup r", OF car(1) p(2) ne m_def [THEN fun_cong, of p] mp, of now] by simp
  have nil: "rest = [] \<longleftrightarrow> length (data (m p)) + length ?d = length p"
    using rest car(1) by (cases rest) (auto simp: carries_def)
  have "pending msgs (lookup r') ?k rest" if "rest \<noteq> []"
    using that spec nil p rest mp len
    by (auto simp: pending_def partial_of_def min_absorb2 split: if_splits)
  with spec nil pr p(1) show ?thesis by (auto split: if_splits)
qed

lemma lookup_empty:
  assumes "wf_messages r" "\<forall>k. lookup r k = None"
  shows "r = []"
proof (rule ccontr)
  assume "r \<noteq> []"
  then obtain p ms r' where r: "r = (p, ms) # r'" by (metis neq_Nil_conv surj_pair)
  with assms(1) obtain i m ms' where "ms = (i, m) # ms'"
    by (auto simp: wf_messages_def neq_Nil_conv)
  with r have "lookup r (p, i) = Some m" by (simp add: lookup_def)
  with assms(2) show False by simp
qed

abbreviation of_key :: "msg_key \<Rightarrow> (msec \<times> mq_item) list \<Rightarrow> mq_item list" where
  "of_key k cs \<equiv> filter (\<lambda>x. item_key x = k) (map snd cs)"

lemma receive_all_pending:
  assumes "wf_messages r" "\<forall>k. pending msgs (lookup r) k (of_key k cs)"
  shows "\<exists>outs. receive_all cs r = (Inr outs, []) \<and> distinct (map fst outs)
    \<and> map_of outs = (\<lambda>k. if of_key k cs = [] then None else msgs k)"
  using assms
proof (induction cs arbitrary: r)
  case Nil
  then have "lookup r k = None" for k
    using Nil.prems(2) [rule_format, of k] by (cases "lookup r k") (auto simp: pending_def partial_of_def)
  with Nil show ?case using lookup_empty [of r] by auto
next
  case (Cons c cs)
  obtain now x where c: "c = (now, x)" by (cases c)
  let ?k = "item_key x"
  have "pending msgs (lookup r) ?k (x # of_key ?k cs)"
    using Cons.prems(2) [rule_format, of ?k] by (simp add: c)
  from pending_step [OF this, of now] obtain p r' where p: "msgs ?k = Some p" and
    "(of_key ?k cs = [] \<and> processReceivedChunk now (fst x) (snd x) r = (Inr (Some p), r')
        \<and> lookup r' = (lookup r)(?k := None))
     \<or> (of_key ?k cs \<noteq> [] \<and> processReceivedChunk now (fst x) (snd x) r = (Inr None, r')
        \<and> (\<exists>m. lookup r' = (lookup r)(?k \<mapsto> m) \<and> pending msgs (lookup r') ?k (of_key ?k cs)))"
    (is "?done \<or> ?more") by blast
  then consider ?done | ?more by blast
  then show ?case
  proof cases
    case 1
    have "wf_messages r'" using wf_processReceivedChunk [OF Cons.prems(1)] 1 by (metis snd_conv)
    moreover have "pending msgs (lookup r') k (of_key k cs)" for k
      using Cons.prems(2) [rule_format, of k] 1 by (cases "k = ?k") (auto simp: c pending_def)
    ultimately obtain outs where o: "receive_all cs r' = (Inr outs, [])" "distinct (map fst outs)"
      "map_of outs = (\<lambda>k. if of_key k cs = [] then None else msgs k)"
      using Cons.IH by blast
    have "map_of outs ?k = None" using o(3) 1 by simp
    then have "?k \<notin> set (map fst outs)" by (simp add: map_of_eq_None_iff)
    with o 1 p show ?thesis
      by (intro exI [of _ "(?k, p) # outs"]) (auto simp: c fun_eq_iff)
  next
    case 2
    have "wf_messages r'" using wf_processReceivedChunk [OF Cons.prems(1)] 2 by (metis snd_conv)
    moreover have "pending msgs (lookup r') k (of_key k cs)" for k
      using Cons.prems(2) [rule_format, of k] 2 by (cases "k = ?k") (auto simp: c pending_def)
    ultimately obtain outs where o: "receive_all cs r' = (Inr outs, [])" "distinct (map fst outs)"
      "map_of outs = (\<lambda>k. if of_key k cs = [] then None else msgs k)"
      using Cons.IH by blast
    with 2 show ?thesis by (intro exI [of _ outs]) (auto simp: c fun_eq_iff)
  qed
qed

lemma contiguous_keys: "contiguous k p off xs \<Longrightarrow> \<forall>x \<in> set xs. item_key x = k"
  using contiguous_mem by (auto simp: carries_def)

lemma contiguous_Nil: "contiguous k p 0 [] \<longleftrightarrow> p = []"
  by auto

lemma contiguous_of_empty: "contiguous k [] 0 xs \<Longrightarrow> xs = []"
  by (cases xs) (auto simp: carries_def)

lemma reassembled:
  assumes "length stack = 4064" "\<forall>k p. msgs k = Some p \<longrightarrow> length p < 2 ^ 63"
    "\<forall>k. of_key k cs = (case msgs k of Some p \<Rightarrow> outbox stack k p | None \<Rightarrow> [])"
  shows "\<exists>outs. receive_all cs [] = (Inr outs, []) \<and> distinct (map fst outs)
    \<and> map_of outs = (\<lambda>k. if msgs k = Some [] then None else msgs k)"
proof -
  have out: "contiguous k p 0 (outbox stack k p)" if "msgs k = Some p" for k p
    using outbox_contiguous assms(1,2) that by blast
  have "pending msgs (lookup []) k (of_key k cs)" for k
    using assms(2) [rule_format, of k] assms(3) [rule_format, of k] out [of k]
    by (cases "msgs k") (auto simp: pending_def lookup_def)
  from receive_all_pending [OF _ allI [OF this]] obtain outs where o: "receive_all cs [] = (Inr outs, [])"
    "distinct (map fst outs)" "map_of outs = (\<lambda>k. if of_key k cs = [] then None else msgs k)"
    by (auto simp: wf_messages_def)
  have "of_key k cs = [] \<longleftrightarrow> msgs k = None \<or> msgs k = Some []" for k
    using assms(3) [rule_format, of k] out [of k] contiguous_of_empty [of k "outbox stack k []"]
    by (cases "msgs k") (auto simp del: contiguous.simps simp: contiguous_Nil)
  then have "map_of outs = (\<lambda>k. if msgs k = Some [] then None else msgs k)"
    unfolding o(3) by (auto simp: fun_eq_iff)
  with o show ?thesis by blast
qed

text \<open>
  C13. Nothing is lost on the way through the chunks. If the payloads of all messages of all
  senders arrive, those of each message in the order they were sent and otherwise mixed in any
  way, then the receiver accepts each of them, delivers each non-empty message exactly once and
  unchanged, and is left with no partial message.
\<close>

theorem all_messages_reassembled:
  assumes "length stack = 4064" "\<forall>k p. msgs k = Some p \<longrightarrow> length p < 2 ^ 63"
    "\<forall>k. of_key k cs = (case msgs k of Some p \<Rightarrow> outbox stack k p | None \<Rightarrow> [])"
  shows "\<exists>outs. receive_all cs [] = (Inr outs, []) \<and> distinct (map fst outs)
    \<and> map_of outs = (\<lambda>k. if msgs k = Some [] then None else msgs k)"
  using assms by (rule reassembled)

theorem all_messages_reassembled_witness:
  "\<exists>outs. receive_all (map (Pair 0) (outbox (replicate 4064 0) (1, 1) [7, 8])) [] = (Inr outs, [])
     \<and> distinct (map fst outs)
     \<and> map_of outs = (\<lambda>k. if [(1, 1) \<mapsto> [7, 8 :: byte]] k = Some [] then None else [(1, 1) \<mapsto> [7, 8 :: byte]] k)"
proof (rule all_messages_reassembled [where stack = "replicate 4064 0"])
  let ?xs = "outbox (replicate 4064 0) (1, 1) [7, 8]"
  have "contiguous (1, 1) [7, 8] 0 ?xs" by (rule outbox_contiguous) simp_all
  then have "\<forall>x \<in> set ?xs. item_key x = (1, 1)" by (rule contiguous_keys)
  then show "\<forall>k. of_key k (map (Pair 0) ?xs) =
      (case [(1, 1) \<mapsto> [7, 8 :: byte]] k of Some p \<Rightarrow> outbox (replicate 4064 0) k p | None \<Rightarrow> [])"
    by (auto simp: comp_def filter_id_conv filter_empty_conv)
qed (auto split: if_splits)

subsection \<open>A full queue\<close>

lemma send_loop_no_room:
  assumes "\<And>q x. try_send mq q x = Inr (False, q)" "length p < 2 ^ 63" "length (payload chunk) = 4064"
    "payloadOffset chunk = word_of_nat off" "payloadTotalSize chunk = word_of_nat (length p)" "off \<le> length p"
  shows "send_loop (enqueueMessage mq) p (word_of_nat (length p)) chunk q = (True, q)"
  using assms(2-)
proof (induction "length p - off" arbitrary: off chunk rule: less_induct)
  case less
  have enq: "enqueueMessage mq q x = (True, q)" for x by (simp add: enqueueMessage_def assms(1))
  show ?case
  proof (cases "off < length p")
    case False
    then show ?thesis
      using less.prems by (subst send_loop.simps) (simp add: word_less_nat_alt unat_of_len)
  next
    case True
    from True less.prems(1-4) obtain c n where c:
      "send_loop (enqueueMessage mq) p (word_of_nat (length p)) chunk q =
         send_loop (enqueueMessage mq) p (word_of_nat (length p))
           (c\<lparr>payloadOffset := word_of_nat (off + length (item_data (c, n)))\<rparr>) q"
      "carries (chunk_key chunk) p off (c, n)" "item_data (c, n) \<noteq> []"
      "length (payload c) = 4064" "payloadTotalSize c = payloadTotalSize chunk"
      by (rule send_loop_step [where enq = "enqueueMessage mq" and q = q]) (simp add: enq)
    let ?off = "off + length (item_data (c, n))"
    have "length p - ?off < length p - off" "?off \<le> length p"
      using c(2,3) True by (auto simp: carries_def intro!: diff_less_mono2)
    with less.hyps [of ?off "c\<lparr>payloadOffset := word_of_nat ?off\<rparr>"] c less.prems show ?thesis by simp
  qed
qed

text \<open>
  When the shared queue has no room, \<open>sendPayload\<close> still reports success: the result of
  \<open>try_send\<close> is not looked at, so the message is dropped in silence.
\<close>

lemma full_queue_drops_silently:
  assumes "\<And>q x. try_send mq q x = Inr (False, q)" "length p < 2 ^ 63" "length stack = 4064"
  shows "sendPayload (enqueueMessage mq) getpid stack p i q = (True, i + 1, q)"
  using send_loop_no_room [of mq p "\<lparr>senderProcessId = getpid, msgId = i + 1,
      payloadTotalSize = word_of_nat (length p), payloadOffset = 0, payload = stack\<rparr>" 0 q] assms
  by (simp add: sendPayload_def Let_def)

lemma full_queue_drops_silently_witness:
  "sendPayload (enqueueMessage \<lparr>try_send = (\<lambda>q x. Inr (False, q)), timed_receive = (\<lambda>q. Inr (None, q))\<rparr>)
     1 (replicate 4064 0) [1, 2, 3] 0 ([] :: mq_item list) = (True, 0 + 1, [])"
  by (rule full_queue_drops_silently) simp_all

text \<open>
  \<open>cleanupAbandonedMessages\<close> drops exactly the partial messages that were last added to more
  than \<open>maxAge\<close> ago and leaves all others, whole senders included, as they were; no sender is
  kept without messages.
\<close>

lemma cleanup_drops_exactly_the_old:
  assumes "wf_messages r"
  shows "wf_messages (cleanupAbandonedMessages now maxAge r)
    \<and> lookup (cleanupAbandonedMessages now maxAge r) k =
        (case lookup r k of
           Some m \<Rightarrow> if now - lastUpdated m > maxAge then None else Some m
         | None \<Rightarrow> None)"
  using wf_cleanup [OF assms] lookup_cleanup [OF assms] by blast

lemma cleanup_drops_exactly_the_old_witness:
  "let m = \<lparr>totalSize = 9, data = [1], lastUpdated = 50\<rparr>;
       r = [(1, [(1, ChunkedMessage_ctor 5), (2, m)])]
   in lookup (cleanupAbandonedMessages 100 60 r) (1, 1) = None
    \<and> lookup (cleanupAbandonedMessages 100 60 r) (1, 2) = Some m"
proof -
  let ?r = "[(1, [(1, ChunkedMessage_ctor 5), (2, \<lparr>totalSize = 9, data = [1], lastUpdated = 50\<rparr>)])]"
  have "wf_messages ?r" by (simp add: wf_messages_def)
  from cleanup_drops_exactly_the_old [OF this, of 100 60 "(1, 1)"]
    cleanup_drops_exactly_the_old [OF this, of 100 60 "(1, 2)"]
  show ?thesis by (simp add: Let_def lookup_def ChunkedMessage_ctor_def)
qed

text \<open>
  The two-level map of \<open>ChunkedMessageProcessor\<close> implements one map from sender and message
  number: a received payload has the same outcome on both, and looking up afterwards gives what
  the single map holds.
\<close>

lemma receiver_implements_flat_map:
  "(case processReceivedChunk now c n r of (res, r') \<Rightarrow> (res, lookup r')) = receive_spec now c n (lookup r)"
  by (rule processReceivedChunk_refines)

end
