(* ===== verification/Coordinator.thy ===== *)
theory Coordinator
  imports Transport ChunkedMessages "HOL-Library.List_Lexorder" "HOL-Library.Char_ord"
begin

text \<open>
  The coordinator process: the commands workers send it (\<open>CoordinatorCommands.proto\<close>,
  \<open>CoordinatorTelemetrySignalsSender\<close>, \<open>WorkerRegistrar\<close>), the dispatcher that executes them,
  \<open>WorkerRegistry\<close>, the loop and the periodic task of \<open>CoordinatorProcess\<close>, and
  \<open>CoordinatorConfigurationProvider\<close>, through which configuration files reach the workers.
  The protobuf codec and \<open>kill\<close> are parameters.
\<close>

subsection \<open>Commands\<close>

datatype CommandType =
  UNKNOWN | ESTABLISH_CONNECTION | SEND_ENDPOINT_PAYLOAD | WORKER_STARTED | WORKER_IS_GOING_TO_SHUTDOWN

record EstablishConnectionCommand =
  cmd_endpoint_url :: string
  cmd_endpoint_hash :: "64 word"
  cmd_content_type :: string
  cmd_endpoint_headers :: "string \<rightharpoonup> string"
  cmd_timeout_ms :: "64 word"
  cmd_max_retries :: "32 word"
  cmd_retry_delay_ms :: "64 word"
  cmd_ssl_options :: "HttpEndpointSSLOptions option"

record SendEndpointPayloadCommand =
  pay_endpoint_hash :: "64 word"
  pay_payload :: "byte list"

record WorkerCommand =
  process_id :: "32 word"
  parent_process_id :: "32 word"

record CoordinatorCommand =
  command_type :: CommandType
  establish_connection :: "EstablishConnectionCommand option"
  send_endpoint_payload :: "SendEndpointPayloadCommand option"
  worker_started :: "WorkerCommand option"
  worker_is_going_to_shutdown :: "WorkerCommand option"

definition empty_command :: "CommandType \<Rightarrow> CoordinatorCommand" where
  "empty_command ty = \<lparr>command_type = ty, establish_connection = None, send_endpoint_payload = None,
     worker_started = None, worker_is_going_to_shutdown = None\<rparr>"

text \<open>An unset message field reads as the default message.\<close>

definition default_WorkerCommand :: WorkerCommand where
  "default_WorkerCommand = \<lparr>process_id = 0, parent_process_id = 0\<rparr>"

text \<open>
  The generated code: \<open>SerializeToString\<close>, \<open>ParseFromArray\<close>, and the order in which a map
  field is traversed.
\<close>

record codec =
  serialize :: "CoordinatorCommand \<Rightarrow> byte list option"
  parse :: "byte list \<Rightarrow> CoordinatorCommand option"
  map_order :: "(string \<rightharpoonup> string) \<Rightarrow> (string \<times> string) list"

subsection \<open>The worker's side\<close>

text \<open>Conversions of the setters: \<open>size_t\<close> to \<open>uint32\<close>, \<open>int64\<close> to \<open>uint64\<close>.\<close>

definition initializeConnection_command ::
    "string \<Rightarrow> size_t \<Rightarrow> string \<Rightarrow> endpointHeaders \<Rightarrow> msec \<Rightarrow> size_t \<Rightarrow> msec
       \<Rightarrow> HttpEndpointSSLOptions \<Rightarrow> CoordinatorCommand" where
  "initializeConnection_command url endpointHash contentType headers timeout retries delay ssl =
     (empty_command ESTABLISH_CONNECTION)\<lparr>establish_connection := Some
       \<lparr>cmd_endpoint_url = url, cmd_endpoint_hash = endpointHash, cmd_content_type = contentType,
        cmd_endpoint_headers = fold (\<lambda>(key, val) m. m(key \<mapsto> val)) headers Map.empty,
        cmd_timeout_ms = word_of_int timeout, cmd_max_retries = ucast retries,
        cmd_retry_delay_ms = word_of_int delay, cmd_ssl_options = Some ssl\<rparr>\<rparr>"

definition enqueue_command :: "size_t \<Rightarrow> byte list \<Rightarrow> CoordinatorCommand" where
  "enqueue_command endpointHash bytes =
     (empty_command SEND_ENDPOINT_PAYLOAD)\<lparr>send_endpoint_payload := Some
       \<lparr>pay_endpoint_hash = endpointHash, pay_payload = bytes\<rparr>\<rparr>"

definition registerWorker_command :: "pid \<Rightarrow> pid \<Rightarrow> CoordinatorCommand" where
  "registerWorker_command getpid getppid =
     (empty_command WORKER_STARTED)\<lparr>worker_started := Some
       \<lparr>process_id = word_of_int getpid, parent_process_id = word_of_int getppid\<rparr>\<rparr>"

definition unregisterWorker_command :: "pid \<Rightarrow> pid \<Rightarrow> CoordinatorCommand" where
  "unregisterWorker_command getpid getppid =
     (empty_command WORKER_IS_GOING_TO_SHUTDOWN)\<lparr>worker_is_going_to_shutdown := Some
       \<lparr>process_id = word_of_int getpid, parent_process_id = word_of_int getppid\<rparr>\<rparr>"

text \<open>
  \<open>sendPayload\<close> is the function the sender and the registrar are built with; a command that
  cannot be serialized or sent is logged and dropped. The response callback is not transmitted.
\<close>

definition send_command ::
    "codec \<Rightarrow> ('q \<Rightarrow> byte list \<Rightarrow> bool \<times> 'q) \<Rightarrow> CoordinatorCommand \<Rightarrow> 'q \<Rightarrow> 'q" where
  "send_command cd send c q =
     (case serialize cd c of None \<Rightarrow> q | Some bytes \<Rightarrow> snd (send q bytes))"

definition sender_initializeConnection where
  "sender_initializeConnection cd send url endpointHash contentType headers timeout retries delay ssl q =
     send_command cd send (initializeConnection_command url endpointHash contentType headers timeout retries delay ssl) q"

definition sender_enqueue where
  "sender_enqueue cd send endpointHash bytes callback q = send_command cd send (enqueue_command endpointHash bytes) q"

definition registrar_registerWorker where
  "registrar_registerWorker cd send getpid getppid q = send_command cd send (registerWorker_command getpid getppid) q"

definition registrar_unregisterWorker where
  "registrar_unregisterWorker cd send getpid getppid q = send_command cd send (unregisterWorker_command getpid getppid) q"

definition registrar_postfork where
  "registrar_postfork cd send getpid getppid child q =
     (if child then registrar_registerWorker cd send getpid getppid q else q)"

subsection \<open>WorkerRegistry\<close>

text \<open>The set of workers as a list without repetitions.\<close>

definition registerWorker :: "pid \<Rightarrow> pid list \<Rightarrow> pid list" where
  "registerWorker p workers = List.insert p workers"

definition unregisterWorker :: "pid \<Rightarrow> pid list \<Rightarrow> pid list" where
  "unregisterWorker p workers = filter (\<lambda>q. q \<noteq> p) workers"

definition hasWorker :: "pid \<Rightarrow> pid list \<Rightarrow> bool" where
  "hasWorker p workers = (p \<in> set workers)"

text \<open>\<open>gone p\<close> says that \<open>kill(p, 0)\<close> fails with \<open>ESRCH\<close>.\<close>

definition verifyWorkersAlive :: "(pid \<Rightarrow> bool) \<Rightarrow> pid list \<Rightarrow> pid list" where
  "verifyWorkersAlive gone workers = filter (\<lambda>p. \<not> gone p) workers"

definition getWorkerCount :: "pid list \<Rightarrow> nat" where
  "getWorkerCount workers = length workers"

subsection \<open>The coordinator\<close>

record CoordinatorProcess =
  coordinator_working :: bool
  parentProcessId :: pid
  workerRegistry :: "pid list"
  httpTransport :: HttpTransportAsync
  recievedMessages :: messages
  lastCleanupTime :: "msec option"

text \<open>The environment of the process: codec, libcurl and its hashes, the transport's options.\<close>

record coordinator_env =
  env_codec :: codec
  env_externals :: externals
  env_config :: transport_config

definition no_ssl :: HttpEndpointSSLOptions where
  "no_ssl = \<lparr>insecureSkipVerify = False, ssl_caInfo = [], ssl_cert = [], ssl_certKey = [], ssl_certKeyPassword = []\<rparr>"

text \<open>The \<open>switch\<close> of \<open>processRecievedMessage\<close>, on a parsed command.\<close>

definition dispatch_command :: "coordinator_env \<Rightarrow> CoordinatorCommand \<Rightarrow> CoordinatorProcess \<Rightarrow> CoordinatorProcess" where
  "dispatch_command env command co =
     (case command_type command of
        ESTABLISH_CONNECTION \<Rightarrow>
          (case establish_connection command of
             None \<Rightarrow> co
           | Some c \<Rightarrow>
               co\<lparr>httpTransport := initializeConnection (env_externals env) (cmd_endpoint_url c) (cmd_endpoint_hash c)
                    (cmd_content_type c) (map_order (env_codec env) (cmd_endpoint_headers c))
                    (sint (cmd_timeout_ms c)) (ucast (cmd_max_retries c)) (sint (cmd_retry_delay_ms c))
                    (case cmd_ssl_options c of Some ssl \<Rightarrow> ssl | None \<Rightarrow> no_ssl) (httpTransport co)\<rparr>)
      | SEND_ENDPOINT_PAYLOAD \<Rightarrow>
          (case send_endpoint_payload command of
             None \<Rightarrow> co
           | Some p \<Rightarrow>
               co\<lparr>httpTransport := enqueue (env_config env)
                    \<lparr>q_hash = pay_endpoint_hash p, q_payload = pay_payload p, q_callback = None\<rparr> (httpTransport co)\<rparr>)
      | WORKER_STARTED \<Rightarrow>
          (let w = (case worker_started command of Some w \<Rightarrow> w | None \<Rightarrow> default_WorkerCommand)
           in co\<lparr>workerRegistry := registerWorker (sint (process_id w)) (workerRegistry co)\<rparr>)
      | WORKER_IS_GOING_TO_SHUTDOWN \<Rightarrow>
          (let w = (case worker_is_going_to_shutdown command of Some w \<Rightarrow> w | None \<Rightarrow> default_WorkerCommand)
           in co\<lparr>workerRegistry := unregisterWorker (sint (process_id w)) (workerRegistry co)\<rparr>)
      | UNKNOWN \<Rightarrow> co)"

definition processRecievedMessage :: "coordinator_env \<Rightarrow> byte list \<Rightarrow> CoordinatorProcess \<Rightarrow> CoordinatorProcess" where
  "processRecievedMessage env bytes co =
     (case parse (env_codec env) bytes of None \<Rightarrow> co | Some command \<Rightarrow> dispatch_command env command co)"

text \<open>One turn of \<open>coordinatorLoop\<close>; exceptions are logged.\<close>

definition coordinator_turn ::
    "coordinator_env \<Rightarrow> 'q message_queue \<Rightarrow> msec \<Rightarrow> CoordinatorProcess \<times> 'q \<Rightarrow> CoordinatorProcess \<times> 'q" where
  "coordinator_turn env mq now s = (case s of (co, q) \<Rightarrow>
     if \<not> coordinator_working co then s
     else (case tryReceiveMessage mq now (recievedMessages co) q of
        (Inl ex, r, q') \<Rightarrow> (co\<lparr>recievedMessages := r\<rparr>, q')
      | (Inr (_, None), r, q') \<Rightarrow> (co\<lparr>recievedMessages := r\<rparr>, q')
      | (Inr (_, Some bytes), r, q') \<Rightarrow> (processRecievedMessage env bytes (co\<lparr>recievedMessages := r\<rparr>), q')))"

text \<open>
  The task run every 100 ms. \<open>steady\<close> is the clock that initialises the function's static
  variable on its first run.
\<close>

definition periodic_task :: "(pid \<Rightarrow> bool) \<Rightarrow> pid \<Rightarrow> msec \<Rightarrow> msec \<Rightarrow> CoordinatorProcess \<Rightarrow> CoordinatorProcess" where
  "periodic_task gone getppid steady now co =
     (let co1 = (if getppid \<noteq> parentProcessId co then
                   let co0 = co\<lparr>workerRegistry := verifyWorkersAlive gone (workerRegistry co)\<rparr>
                   in if getWorkerCount (workerRegistry co0) > 0 then co0 else co0\<lparr>coordinator_working := False\<rparr>
                 else co);
          last = (case lastCleanupTime co1 of Some l \<Rightarrow> l | None \<Rightarrow> steady);
          co2 = co1\<lparr>lastCleanupTime := Some last\<rparr>
      in if now - last \<ge> 60000
         then co2\<lparr>recievedMessages := cleanupAbandonedMessages now 10000 (recievedMessages co2), lastCleanupTime := Some now\<rparr>
         else co2)"

subsection \<open>CoordinatorConfigurationProvider\<close>

text \<open>What lives in shared memory: a revision and a map ordered by file name.\<close>

record SharedData =
  configRevision :: "64 word"
  shared_configFiles :: "(string \<times> string) list"

definition SharedData_ctor :: SharedData where
  "SharedData_ctor = \<lparr>configRevision = 1, shared_configFiles = []\<rparr>"

fun insert_or_assign :: "string \<Rightarrow> string \<Rightarrow> (string \<times> string) list \<Rightarrow> (string \<times> string) list" where
  "insert_or_assign k v [] = [(k, v)]"
| "insert_or_assign k v ((k', v') # xs) =
     (if k = k' then (k, v) # xs
      else if k < k' then (k, v) # (k', v') # xs
      else (k', v') # insert_or_assign k v xs)"

definition storeConfigFiles :: "(string \<times> string) list \<Rightarrow> SharedData \<Rightarrow> SharedData" where
  "storeConfigFiles configFiles sd =
     sd\<lparr>configRevision := configRevision sd + 1,
        shared_configFiles := fold (\<lambda>(name, content). insert_or_assign name content) configFiles (shared_configFiles sd)\<rparr>"

definition getConfigurationNoLock :: "SharedData \<Rightarrow> (string \<rightharpoonup> string)" where
  "getConfigurationNoLock sd =
     fold (\<lambda>(name, content) result. emplace result (c_str name) (c_str content)) (shared_configFiles sd) Map.empty"

text \<open>
  A worker's check at request start: \<open>local\<close> is its \<open>localConfigRevision_\<close>; when it changes, the
  watchers are given the files.
\<close>

definition triggerUpdateIfChanged :: "SharedData \<Rightarrow> 64 word \<Rightarrow> (string \<rightharpoonup> string) option \<times> 64 word" where
  "triggerUpdateIfChanged sd localRevision =
     (if configRevision sd \<noteq> localRevision
      then (Some (getConfigurationNoLock sd), configRevision sd)
      else (None, localRevision))"

subsection \<open>Calls arrive as they were made\<close>

text \<open>What the code relies on of protobuf: a serialized command parses back to itself.\<close>

definition codec_law :: "codec \<Rightarrow> bool" where
  "codec_law cd = (\<forall>c bytes. serialize cd c = Some bytes \<longrightarrow> parse cd bytes = Some c)"

lemma sint_word_of_int_64:
  assumes "- (2 ^ 63) \<le> i" "i < 2 ^ 63"
  shows "sint (word_of_int i :: 64 word) = i"
  using assms by (simp add: signed_of_int signed_take_bit_int_eq_self)

lemma sint_word_of_int_32:
  assumes "- (2 ^ 31) \<le> i" "i < 2 ^ 31"
  shows "sint (word_of_int i :: 32 word) = i"
  using assms by (simp add: signed_of_int signed_take_bit_int_eq_self)

lemma ucast_ucast_64_32:
  assumes "unat (w :: 64 word) < 2 ^ 32"
  shows "ucast (ucast w :: 32 word) = w"
  using assms by (simp add: word_unat_eq_iff unsigned_ucast_eq unsigned_take_bit_eq take_bit_nat_eq_self)

text \<open>
  What a worker asks of its \<open>CoordinatorTelemetrySignalsSender\<close> is what the coordinator's
  \<open>HttpTransportAsync\<close> is told to do, argument by argument: URL, endpoint hash, content type, durations, SSL
  options and retry count, provided the durations fit 64 bits and the count fits the 32
  bits of the wire; the headers travel as a map, so that of equal names the last one counts.
\<close>

lemma connection_call_is_forwarded:
  assumes "codec_law (env_codec env)" "serialize (env_codec env)
      (initializeConnection_command url h ct hs timeout retries delay ssl) = Some bytes"
    "- (2 ^ 63) \<le> timeout" "timeout < 2 ^ 63" "- (2 ^ 63) \<le> delay" "delay < 2 ^ 63" "unat retries < 2 ^ 32"
  shows "processRecievedMessage env bytes co =
    co\<lparr>httpTransport := initializeConnection (env_externals env) url h ct
         (map_order (env_codec env) (map_of (rev hs))) timeout retries delay ssl (httpTransport co)\<rparr>"
proof -
  have hs: "fold (\<lambda>(key, val) m. m(key \<mapsto> val)) hs m = m ++ map_of (rev hs)" for m
    by (induction hs arbitrary: m) (auto simp: fun_eq_iff map_add_def split: option.split)
  have "parse (env_codec env) bytes = Some (initializeConnection_command url h ct hs timeout retries delay ssl)"
    using assms(1,2) by (simp add: codec_law_def)
  with assms(3-) show ?thesis
    by (simp add: processRecievedMessage_def dispatch_command_def initializeConnection_command_def
        empty_command_def sint_word_of_int_64 ucast_ucast_64_32 hs)
qed

subsection \<open>The whole way\<close>

lemma dispatch_frame [simp]:
  "processRecievedMessage env b (co\<lparr>recievedMessages := r\<rparr>) = (processRecievedMessage env b co)\<lparr>recievedMessages := r\<rparr>"
  "coordinator_working (processRecievedMessage env b co) = coordinator_working co"
  "recievedMessages (processRecievedMessage env b co) = recievedMessages co"
  by (auto simp: processRecievedMessage_def dispatch_command_def Let_def split: option.split CommandType.split)

lemma fold_frame:
  "fold (\<lambda>(k, b). processRecievedMessage env b) outs (co\<lparr>recievedMessages := r\<rparr>)
     = (fold (\<lambda>(k, b). processRecievedMessage env b) outs co)\<lparr>recievedMessages := r\<rparr>"
  by (induction outs arbitrary: co) auto

text \<open>The queue hands out \<open>xs\<close>, one after the other.\<close>

fun yields :: "'q message_queue \<Rightarrow> 'q \<Rightarrow> mq_item list \<Rightarrow> 'q \<Rightarrow> bool" where
  "yields mq q [] q' = (q = q')"
| "yields mq q (x # xs) q' = (\<exists>q1. timed_receive mq q = Inr (Some x, q1) \<and> yields mq q1 xs q')"

lemma coordinator_turn_item:
  assumes "coordinator_working co" "timed_receive mq q = Inr (Some x, q1)"
  shows "coordinator_turn env mq now (co, q) =
    (case processReceivedChunk now (fst x) (snd x) (recievedMessages co) of
       (Inr (Some bytes), r) \<Rightarrow> (processRecievedMessage env bytes (co\<lparr>recievedMessages := r\<rparr>), q1)
     | (_, r) \<Rightarrow> (co\<lparr>recievedMessages := r\<rparr>, q1))"
  using assms
  by (auto simp: coordinator_turn_def tryReceiveMessage_def queue_tryReceiveMessage_def
      split: prod.split sum.split option.split)

lemma coordinator_receives:
  assumes "receive_all cs (recievedMessages co) = (Inr outs, r)" "yields mq q (map snd cs) q'" "coordinator_working co"
  shows "fold (coordinator_turn env mq) (map fst cs) (co, q) =
    ((fold (\<lambda>(k, b). processRecievedMessage env b) outs co)\<lparr>recievedMessages := r\<rparr>, q')"
  using assms
proof (induction cs arbitrary: co q outs)
  case Nil
  then show ?case by simp
next
  case (Cons c cs)
  obtain now x where c: "c = (now, x)" by (cases c)
  obtain q1 where q1: "timed_receive mq q = Inr (Some x, q1)" "yields mq q1 (map snd cs) q'"
    using Cons.prems(2) c by auto
  obtain res r1 where pr: "processReceivedChunk now (fst x) (snd x) (recievedMessages co) = (res, r1)" by fastforce
  note turn = coordinator_turn_item [OF Cons.prems(3) q1(1), of env now, unfolded pr]
  from Cons.prems(1) consider (none) "res = Inr None" "receive_all cs r1 = (Inr outs, r)"
    | (some) d outs' where "res = Inr (Some d)" "receive_all cs r1 = (Inr outs', r)" "outs = (item_key x, d) # outs'"
    by (auto simp: c pr bind_result_Inr_iff split: sum.splits option.splits prod.splits)
  then show ?case
  proof cases
    case none
    then show ?thesis
      using Cons.IH [of "co\<lparr>recievedMessages := r1\<rparr>" outs q1] Cons.prems(3) q1(2) turn
        fold_frame [where env = env and outs = outs and co = co and r = r1]
      by (simp add: c)
  next
    case some
    then show ?thesis
      using Cons.IH [of "processRecievedMessage env d (co\<lparr>recievedMessages := r1\<rparr>)" outs' q1] Cons.prems(3) q1(2) turn
        fold_frame [where env = env and outs = outs' and co = "processRecievedMessage env d co" and r = r1]
      by (simp add: c)
  qed
qed

lemma fold_dispatch:
  assumes "\<forall>(k, b) \<in> set outs. parse (env_codec env) b = Some (f b)"
  shows "fold (\<lambda>(k, b). processRecievedMessage env b) outs co =
    fold (\<lambda>(k, c). dispatch_command env c) (map (\<lambda>(k, b). (k, f b)) outs) co"
  using assms by (induction outs arbitrary: co) (auto simp: processRecievedMessage_def)


text \<open>
  The coordinator stops working exactly when its parent has gone and none of the workers it
  knows is alive any more: as long as the parent or one registered worker lives, the
  periodic task keeps it working, and it forgets only dead workers.
\<close>

lemma coordinator_outlives_parent_for_workers:
  "(let co' = periodic_task gone getppid steady now co in
     coordinator_working co' \<longleftrightarrow>
       coordinator_working co \<and> (getppid = parentProcessId co \<or> (\<exists>w. hasWorker w (workerRegistry co) \<and> \<not> gone w)))
   \<and> (\<forall>w. hasWorker w (workerRegistry (periodic_task gone getppid steady now co)) \<longleftrightarrow>
        hasWorker w (workerRegistry co) \<and> (getppid = parentProcessId co \<or> \<not> gone w))"
  by (auto simp: periodic_task_def Let_def verifyWorkersAlive_def getWorkerCount_def hasWorker_def filter_empty_conv)

subsection \<open>Witnesses with a one-command codec\<close>

definition demo_command :: CoordinatorCommand where
  "demo_command = enqueue_command 5 [1, 2, 3]"

definition demo_codec :: "CoordinatorCommand \<Rightarrow> codec" where
  "demo_codec c0 = \<lparr>serialize = (\<lambda>c. if c = c0 then Some [7, 8] else None),
     parse = (\<lambda>b. if b = [7, 8] then Some c0 else None), map_order = (\<lambda>_. [])\<rparr>"

definition demo_env :: "CoordinatorCommand \<Rightarrow> coordinator_env" where
  "demo_env c0 = \<lparr>env_codec = demo_codec c0,
     env_externals = \<lparr>regex_search = (\<lambda>_. None), hash = (\<lambda>_. 0), curl_easy_init = True, trace_logging = False\<rparr>,
     env_config = \<lparr>max_send_queue_size = 100, async_transport_shutdown_timeout = 0\<rparr>\<rparr>"

definition demo_coordinator :: CoordinatorProcess where
  "demo_coordinator = \<lparr>coordinator_working = True, parentProcessId = 1, workerRegistry = [],
     httpTransport = HttpTransportAsync_ctor, recievedMessages = [], lastCleanupTime = None\<rparr>"

lemma coordinator_outlives_parent_for_workers_witness:
  "let co' = periodic_task (\<lambda>p. p = 4) 99 0 10 (demo_coordinator\<lparr>workerRegistry := [4, 5]\<rparr>)
   in coordinator_working co' \<and> hasWorker 5 (workerRegistry co') \<and> \<not> hasWorker 4 (workerRegistry co')"
proof -
  let ?co = "demo_coordinator\<lparr>workerRegistry := [4, 5]\<rparr>"
  note task = coordinator_outlives_parent_for_workers [of "\<lambda>p. p = 4" 99 0 10 ?co, unfolded Let_def]
  have start: "hasWorker 5 (workerRegistry ?co)" "coordinator_working ?co" "parentProcessId ?co \<noteq> 99"
    by (simp_all add: demo_coordinator_def hasWorker_def)
  have "coordinator_working (periodic_task (\<lambda>p. p = 4) 99 0 10 ?co)"
    by (rule iffD2 [OF conjunct1 [OF task]]) (use start in \<open>auto intro: exI [of _ 5]\<close>)
  moreover have "hasWorker 5 (workerRegistry (periodic_task (\<lambda>p. p = 4) 99 0 10 ?co))"
    by (rule iffD2 [OF spec [OF conjunct2 [OF task], of 5]]) (use start in simp)
  moreover have "\<not> hasWorker 4 (workerRegistry (periodic_task (\<lambda>p. p = 4) 99 0 10 ?co))"
    using spec [OF conjunct2 [OF task], of 4] start(3) by simp
  ultimately show ?thesis unfolding Let_def by blast
qed

text \<open>A queue that is a list.\<close>

definition list_queue :: "mq_item list message_queue" where
  "list_queue = \<lparr>try_send = (\<lambda>q x. Inr (True, q @ [x])),
     timed_receive = (\<lambda>q. case q of [] \<Rightarrow> Inr (None, q) | x # xs \<Rightarrow> Inr (Some x, xs))\<rparr>"

lemma demo_codec_law: "codec_law (env_codec (demo_env c0))"
  by (simp add: codec_law_def demo_env_def demo_codec_def)

lemma yields_list: "yields list_queue xs xs []"
  by (induction xs) (simp_all add: list_queue_def)

lemma connection_call_is_forwarded_witness:
  "let c0 = initializeConnection_command ''http://c:4318/v1'' 9 ''t'' [(''a'', ''1''), (''a'', ''2'')] 10000 3 1000 no_ssl
   in processRecievedMessage (demo_env c0) [7, 8] demo_coordinator =
     demo_coordinator\<lparr>httpTransport := initializeConnection (env_externals (demo_env c0)) ''http://c:4318/v1'' 9 ''t''
       (map_order (env_codec (demo_env c0)) (map_of (rev [(''a'', ''1''), (''a'', ''2'')]))) 10000 3 1000 no_ssl
       (httpTransport demo_coordinator)\<rparr>"
  unfolding Let_def
  by (rule connection_call_is_forwarded [OF demo_codec_law])
    (simp_all add: demo_env_def demo_codec_def)


subsection \<open>Configuration files for the workers\<close>

definition nul_free :: "(string \<times> string) list \<Rightarrow> bool" where
  "nul_free files = list_all (\<lambda>(name, content). c_str name = name \<and> c_str content = content) files"

lemma map_of_insert_or_assign: "map_of (insert_or_assign k v xs) = (map_of xs)(k \<mapsto> v)"
  by (induction xs) auto

lemma nul_free_insert:
  "nul_free xs \<Longrightarrow> c_str k = k \<Longrightarrow> c_str v = v \<Longrightarrow> nul_free (insert_or_assign k v xs)"
  by (induction xs) (auto simp: nul_free_def)

lemma nul_free_fold:
  "nul_free files \<Longrightarrow> nul_free xs \<Longrightarrow> nul_free (fold (\<lambda>(name, content). insert_or_assign name content) files xs)"
proof (induction files arbitrary: xs)
  case Nil
  then show ?case by simp
next
  case (Cons f files)
  from Cons.prems(1) have "nul_free files" "c_str (fst f) = fst f" "c_str (snd f) = snd f"
    by (simp_all add: nul_free_def case_prod_beta)
  with Cons show ?case by (cases f) (simp add: nul_free_insert)
qed

lemma map_of_fold_insert:
  "distinct (map fst files) \<Longrightarrow>
     map_of (fold (\<lambda>(name, content). insert_or_assign name content) files xs) = map_of xs ++ map_of files"
proof (induction files arbitrary: xs)
  case Nil
  then show ?case by simp
next
  case (Cons f files)
  then have "map_of files (fst f) = None" by (simp add: map_of_eq_None_iff)
  with Cons show ?case
    by (cases f) (auto simp: map_of_insert_or_assign fun_eq_iff map_add_def split: option.split)
qed

lemma fold_emplace:
  "nul_free xs \<Longrightarrow> fold (\<lambda>(name, content) r. emplace r (c_str name) (c_str content)) xs m = map_of xs ++ m"
proof (induction xs arbitrary: m)
  case Nil
  then show ?case by simp
next
  case (Cons x xs)
  then show ?case by (cases x) (simp add: nul_free_def emplace_add_map fun_upd_def)
qed

text \<open>
  A worker that was up to date learns of a new delivery at its next check, and only once.
  It then sees every delivered file with its new content, and beside them every file of
  earlier deliveries that the new one does not name: storing never removes a file. Names and
  contents are assumed to hold no NUL, which would cut them short.
\<close>

lemma workers_learn_stored_files:
  assumes "nul_free (shared_configFiles sd)" "nul_free files" "distinct (map fst files)"
  shows "let sd' = storeConfigFiles files sd;
             (news, rev) = triggerUpdateIfChanged sd' (configRevision sd)
         in news = Some (map_of (shared_configFiles sd) ++ map_of files)
            \<and> triggerUpdateIfChanged sd' rev = (None, rev)"
proof -
  have "nul_free (shared_configFiles (storeConfigFiles files sd))"
    using assms by (simp add: storeConfigFiles_def nul_free_fold)
  then have "getConfigurationNoLock (storeConfigFiles files sd) = map_of (shared_configFiles sd) ++ map_of files"
    using assms(3) by (simp add: getConfigurationNoLock_def fold_emplace) (simp add: storeConfigFiles_def map_of_fold_insert)
  moreover have "configRevision (storeConfigFiles files sd) \<noteq> configRevision sd"
    by (simp add: storeConfigFiles_def)
  ultimately show ?thesis by (simp add: triggerUpdateIfChanged_def)
qed

lemma workers_learn_stored_files_witness:
  "fst (triggerUpdateIfChanged (storeConfigFiles [(''b'', ''new'')] (storeConfigFiles [(''a'', ''old'')] SharedData_ctor)) 2)
     = Some (map_of [(''a'', ''old'')] ++ map_of [(''b'', ''new'')])"
proof -
  let ?sd = "storeConfigFiles [(''a'', ''old'')] SharedData_ctor"
  have sd: "shared_configFiles ?sd = [(''a'', ''old'')]" "configRevision ?sd = 2"
    by (simp_all add: storeConfigFiles_def SharedData_ctor_def)
  have "nul_free [(''a'', ''old'')]" "nul_free [(''b'', ''new'')]" by code_simp+
  with workers_learn_stored_files [of ?sd "[(''b'', ''new'')]"] show ?thesis
    by (simp add: sd Let_def split: prod.splits)
qed

end
