(* ===== verification/OpAmp.thy ===== *)
theory OpAmp
  imports Coordinator
begin

text \<open>
  The OpAMP client of the coordinator (\<open>transport/OpAmp.h\<close>, \<open>OpAmp.cpp\<close>) and the resource
  attributes it reports (\<open>ResourceDetector\<close>). The generated message classes, UUID printing and
  the names of the semantic conventions are parameters.
\<close>

subsection \<open>Ordered maps\<close>

text \<open>\<open>std::map::insert\<close> and \<open>merge\<close>: a key that is there stays as it is.\<close>

fun insert_if_absent :: "string \<Rightarrow> string \<Rightarrow> (string \<times> string) list \<Rightarrow> (string \<times> string) list" where
  "insert_if_absent k v [] = [(k, v)]"
| "insert_if_absent k v ((k', v') # xs) =
     (if k = k' then (k', v') # xs
      else if k < k' then (k, v) # (k', v') # xs
      else (k', v') # insert_if_absent k v xs)"

text \<open>The pairs of \<open>parseUrlEncodedKeyValueString\<close> in the order its map is traversed.\<close>

definition kv_keys :: "string \<Rightarrow> string list" where
  "kv_keys input = List.map_filter (\<lambda>pair. map_option (\<lambda>i. take i pair) (find_char (CHR ''='') pair))
     (split_on (CHR '','') input)"

definition kv_list :: "string \<Rightarrow> (string \<times> string) list" where
  "kv_list input =
     map (\<lambda>k. (k, case parseUrlEncodedKeyValueString input k of Some v \<Rightarrow> v | None \<Rightarrow> []))
       (sort (remdups (kv_keys input)))"

subsection \<open>ResourceDetector\<close>

type_synonym attributes = "(string \<times> string) list"

record semconv =
  kServiceName :: string
  kServiceInstanceId :: string
  kDeploymentEnvironment :: string
  kDeploymentEnvironmentName :: string
  kOsType :: string
  kOsName :: string
  kOsDescription :: string
  kOsVersion :: string
  kHostName :: string
  kHostArch :: string

definition getFromEnvironment :: "semconv \<Rightarrow> (string \<Rightarrow> string option) \<Rightarrow> attributes \<Rightarrow> attributes" where
  "getFromEnvironment sc getenv attrs =
     (let attrs1 = (case getenv ''OTEL_RESOURCE_ATTRIBUTES'' of
            Some v \<Rightarrow> fold (\<lambda>(k, v). insert_if_absent k v) (kv_list v) attrs
          | None \<Rightarrow> attrs)
      in case getenv ''OTEL_SERVICE_NAME'' of
           Some n \<Rightarrow> if n \<noteq> [] then insert_or_assign (kServiceName sc) n attrs1 else attrs1
         | None \<Rightarrow> attrs1)"

definition set_unless_empty :: "string \<Rightarrow> string \<Rightarrow> attributes \<Rightarrow> attributes" where
  "set_unless_empty k v attrs = (if v \<noteq> [] then insert_or_assign k v attrs else attrs)"

text \<open>\<open>os\<close> is the name the preprocessor selects, \<open>phpUname\<close> the function of the PHP bridge.\<close>

definition getHostAndOsAttributes :: "semconv \<Rightarrow> string \<Rightarrow> (char \<Rightarrow> string) \<Rightarrow> attributes \<Rightarrow> attributes" where
  "getHostAndOsAttributes sc os phpUname attrs =
     set_unless_empty (kHostArch sc) (phpUname (CHR ''m''))
       (set_unless_empty (kHostName sc) (phpUname (CHR ''n''))
         (set_unless_empty (kOsVersion sc) (phpUname (CHR ''v''))
           (set_unless_empty (kOsDescription sc) (phpUname (CHR ''r''))
             (set_unless_empty (kOsName sc) (phpUname (CHR ''s''))
               (insert_or_assign (kOsType sc) os attrs)))))"

definition ResourceDetector_ctor :: "semconv \<Rightarrow> (string \<Rightarrow> string option) \<Rightarrow> string \<Rightarrow> (char \<Rightarrow> string) \<Rightarrow> attributes" where
  "ResourceDetector_ctor sc getenv os phpUname =
     getHostAndOsAttributes sc os phpUname (getFromEnvironment sc getenv [])"

definition resource_get :: "string \<Rightarrow> attributes \<Rightarrow> string" where
  "resource_get key attrs = (case map_of attrs key of Some v \<Rightarrow> v | None \<Rightarrow> [])"

definition addAttributes :: "attributes \<Rightarrow> attributes \<Rightarrow> attributes" where
  "addAttributes new attrs = fold (\<lambda>(k, v). insert_if_absent k v) new attrs"

subsection \<open>Messages\<close>

record AgentToServer =
  instance_uid :: "byte list"
  identifying_attributes :: attributes
  capabilities :: "string list"
  last_remote_config_hash :: "string option"

record ServerToAgent =
  new_instance_uid :: "byte list option"
  heartbeat_interval_seconds :: "64 word option"
  remote_config :: "(string \<times> (string \<times> string) list) option"
  unavailable_retry_after_ns :: "64 word option"

text \<open>
  The generated code: \<open>SerializeToString\<close> of \<open>AgentToServer\<close> and \<open>ParseFromArray\<close> of
  \<open>ServerToAgent\<close>. The fields of the latter are those the handler reads: the new identity, the
  heartbeat interval of the OpAMP connection settings, hash and files of a remote
  configuration that has a config, and the retry time of an \<open>Unavailable\<close> error.
\<close>

record opamp_codec =
  serialize_agent :: "AgentToServer \<Rightarrow> byte list option"
  parse_server :: "byte list \<Rightarrow> ServerToAgent option"
  uuid_to_string :: "byte list \<Rightarrow> string"

subsection \<open>The client\<close>

record opamp_config =
  opamp_endpoint :: string
  opamp_headers :: string
  opamp_heartbeat_interval :: msec
  opamp_polling_interval :: msec
  opamp_send_timeout :: msec
  opamp_send_max_retries :: size_t
  opamp_send_retry_delay :: msec
  opamp_insecure :: bool
  opamp_certificate :: string
  opamp_client_certificate :: string
  opamp_client_key :: string
  opamp_client_keypass :: string

record OpAmp =
  opamp_thread :: bool
  opamp_working :: bool
  endpointHash :: size_t
  agentUid :: "byte list"
  heartbeatInterval :: msec
  pollingInterval :: msec
  currentConfigHash :: string
  opamp_configFiles :: "string \<rightharpoonup> string"

definition OpAmp_ctor :: "byte list \<Rightarrow> OpAmp" where
  "OpAmp_ctor uid = \<lparr>opamp_thread = False, opamp_working = True, endpointHash = 0, agentUid = uid,
     heartbeatInterval = 30000, pollingInterval = 30000, currentConfigHash = [], opamp_configFiles = Map.empty\<rparr>"

definition opamp_endpoint_url :: "string \<Rightarrow> string" where
  "opamp_endpoint_url endpointUrl =
     (case parseUrl endpointUrl of
        Some url \<Rightarrow>
          (case query url of
             None \<Rightarrow> endpointUrl @ ''/v1/opamp''
           | Some q \<Rightarrow> if q = ''/'' \<or> q = [] then endpointUrl @ ''v1/opamp'' else endpointUrl)
      | None \<Rightarrow> if ends_with endpointUrl ''/v1/opamp'' then endpointUrl else endpointUrl @ ''/v1/opamp'')"

definition opamp_capabilities :: "string list" where
  "opamp_capabilities = [''AcceptsRemoteConfig'', ''ReportsStatus'', ''ReportsHeartbeat'',
     ''AcceptsOpAMPConnectionSettings'', ''ReportsRemoteConfig'']"

definition initial_message :: "semconv \<Rightarrow> opamp_codec \<Rightarrow> attributes \<Rightarrow> OpAmp \<Rightarrow> AgentToServer" where
  "initial_message sc oc resource ag =
     \<lparr>instance_uid = agentUid ag,
      identifying_attributes =
        (let v = resource_get (kDeploymentEnvironment sc) resource
         in if v \<noteq> [] then [(kDeploymentEnvironmentName sc, v)] else [])
        @ filter (\<lambda>(k, v). v \<noteq> []) resource
        @ (if resource_get (kServiceInstanceId sc) resource = []
           then [(kServiceInstanceId sc, uuid_to_string oc (agentUid ag))] else []),
      capabilities = opamp_capabilities, last_remote_config_hash = None\<rparr>"

text \<open>The response callback is number 0 for the first message and 1 for heartbeats.\<close>

definition sendInitialAgentToServer ::
    "transport_config \<Rightarrow> semconv \<Rightarrow> opamp_codec \<Rightarrow> attributes \<Rightarrow> OpAmp \<Rightarrow> HttpTransportAsync \<Rightarrow> HttpTransportAsync result" where
  "sendInitialAgentToServer cfg sc oc resource ag t =
     (case serialize_agent oc (initial_message sc oc resource ag) of
        None \<Rightarrow> Inl (Runtime_Error ''Failed to serialize AgentToServer initial message'')
      | Some p \<Rightarrow> Inr (enqueue cfg \<lparr>q_hash = endpointHash ag, q_payload = p, q_callback = Some 0\<rparr> t))"

definition heartbeat_message :: "OpAmp \<Rightarrow> AgentToServer" where
  "heartbeat_message ag =
     \<lparr>instance_uid = agentUid ag, identifying_attributes = [], capabilities = [],
      last_remote_config_hash = (if currentConfigHash ag = [] then None else Some (currentConfigHash ag))\<rparr>"

definition sendHeartbeat :: "transport_config \<Rightarrow> opamp_codec \<Rightarrow> OpAmp \<Rightarrow> HttpTransportAsync \<Rightarrow> HttpTransportAsync result" where
  "sendHeartbeat cfg oc ag t =
     (case serialize_agent oc (heartbeat_message ag) of
        None \<Rightarrow> Inl (Runtime_Error ''Failed to serialize AgentToServer heartbeat message'')
      | Some p \<Rightarrow> Inr (enqueue cfg \<lparr>q_hash = endpointHash ag, q_payload = p, q_callback = Some 1\<rparr> t))"

definition opamp_startThread :: "OpAmp \<Rightarrow> OpAmp" where
  "opamp_startThread ag = (if opamp_thread ag then ag else ag\<lparr>opamp_thread := True\<rparr>)"

definition startCommunication ::
    "externals \<Rightarrow> transport_config \<Rightarrow> semconv \<Rightarrow> opamp_codec \<Rightarrow> opamp_config \<Rightarrow> attributes
       \<Rightarrow> OpAmp \<times> HttpTransportAsync \<Rightarrow> OpAmp \<times> HttpTransportAsync" where
  "startCommunication x cfg sc oc conf resource s = (case s of (ag, t) \<Rightarrow>
     if opamp_endpoint conf = [] then s
     else
       let url = opamp_endpoint_url (opamp_endpoint conf);
           ag1 = ag\<lparr>endpointHash := hash x url, heartbeatInterval := opamp_heartbeat_interval conf,
                  pollingInterval := opamp_polling_interval conf\<rparr>;
           ssl = \<lparr>insecureSkipVerify = opamp_insecure conf, ssl_caInfo = opamp_certificate conf,
                  ssl_cert = opamp_client_certificate conf, ssl_certKey = opamp_client_key conf,
                  ssl_certKeyPassword = opamp_client_keypass conf\<rparr>;
           t1 = initializeConnection x url (endpointHash ag1) ''application/x-protobuf'' (kv_list (opamp_headers conf))
                  (opamp_send_timeout conf) (opamp_send_max_retries conf) (opamp_send_retry_delay conf) ssl t;
           ag2 = opamp_startThread ag1
       in case sendInitialAgentToServer cfg sc oc resource ag2 t1 of
            Inl e \<Rightarrow> (ag2, t1)
          | Inr t2 \<Rightarrow> (ag2, t2))"

text \<open>\<open>duration_cast\<close> from nanoseconds cuts towards zero.\<close>

definition ns_to_ms :: "64 word \<Rightarrow> msec" where
  "ns_to_ms w = (if sint w < 0 then - ((- sint w) div 1000000) else sint w div 1000000)"

text \<open>
  The third component of the result: the files the configuration watchers are called with, if
  they are called.
\<close>

definition handleServerToAgent ::
    "opamp_codec \<Rightarrow> byte list \<Rightarrow> OpAmp \<times> HttpTransportAsync \<Rightarrow> OpAmp \<times> HttpTransportAsync \<times> (string \<rightharpoonup> string) option" where
  "handleServerToAgent oc bytes s = (case s of (ag, t) \<Rightarrow>
     (case parse_server oc bytes of
        None \<Rightarrow> (ag, t, None)
      | Some msg \<Rightarrow>
          let ag1 = (case new_instance_uid msg of
                 Some uid \<Rightarrow> ag\<lparr>agentUid := take 16 uid @ replicate (16 - length uid) 0\<rparr>
               | None \<Rightarrow> ag);
              ag2 = (case heartbeat_interval_seconds msg of
                 Some secs \<Rightarrow> ag1\<lparr>heartbeatInterval := sint secs * 1000\<rparr>
               | None \<Rightarrow> ag1);
              (ag3, news) = (case remote_config msg of
                 Some (remoteHash, config_map) \<Rightarrow>
                   if currentConfigHash ag2 \<noteq> remoteHash then
                     let files = fold (\<lambda>(name, body) m. m(name \<mapsto> body)) config_map Map.empty
                     in (ag2\<lparr>opamp_configFiles := files, currentConfigHash := remoteHash\<rparr>, Some files)
                   else (ag2, None)
               | None \<Rightarrow> (ag2, None));
              t' = (case unavailable_retry_after_ns msg of
                 Some ns \<Rightarrow> transport_updateRetryDelay (endpointHash ag3) (ns_to_ms ns) t
               | None \<Rightarrow> t)
          in (ag3, t', news)))"

definition updateHeartbeatInterval :: "msec \<Rightarrow> OpAmp \<Rightarrow> OpAmp" where
  "updateHeartbeatInterval interval ag = (if interval > 0 then ag\<lparr>heartbeatInterval := interval\<rparr> else ag)"

definition updatePollingInterval :: "msec \<Rightarrow> OpAmp \<Rightarrow> OpAmp" where
  "updatePollingInterval interval ag = (if interval > 0 then ag\<lparr>pollingInterval := interval\<rparr> else ag)"

definition opamp_prefork :: "OpAmp \<Rightarrow> OpAmp" where
  "opamp_prefork ag = ag\<lparr>opamp_working := False, opamp_thread := False\<rparr>"

definition opamp_postfork :: "bool \<Rightarrow> OpAmp \<Rightarrow> OpAmp" where
  "opamp_postfork child ag = opamp_startThread (ag\<lparr>opamp_working := True\<rparr>)"

subsection \<open>The heartbeat thread\<close>

text \<open>\<open>nextHeartbeat\<close> and \<open>nextPoll\<close>.\<close>

type_synonym deadlines = "msec \<times> msec"

definition heartbeat_start :: "msec \<Rightarrow> OpAmp \<Rightarrow> deadlines" where
  "heartbeat_start now ag = (now + heartbeatInterval ag, now + pollingInterval ag)"

definition waitUntil :: "deadlines \<Rightarrow> msec" where
  "waitUntil d = min (fst d) (snd d)"

text \<open>One turn after the wait, at time \<open>now\<close>: whether to send, and the new deadlines.\<close>

definition heartbeat_turn :: "msec \<Rightarrow> OpAmp \<Rightarrow> deadlines \<Rightarrow> bool \<times> deadlines" where
  "heartbeat_turn now ag d =
     (let hb = now \<ge> fst d; poll = now \<ge> snd d
      in (hb \<or> poll, if hb then now + heartbeatInterval ag else fst d,
                     if poll then now + pollingInterval ag else snd d))"

text \<open>
  The loop while the thread works, for the times at which its waits end. Failures of
  \<open>sendHeartbeat\<close> are logged. Counts the heartbeats.
\<close>

fun heartbeat_loop ::
    "transport_config \<Rightarrow> opamp_codec \<Rightarrow> OpAmp \<Rightarrow> msec list \<Rightarrow> deadlines \<Rightarrow> HttpTransportAsync \<Rightarrow> nat \<times> deadlines \<times> HttpTransportAsync" where
  "heartbeat_loop cfg oc ag [] d t = (0, d, t)"
| "heartbeat_loop cfg oc ag (now # ts) d t =
     (case heartbeat_turn now ag d of
        (shouldSend, d') \<Rightarrow>
          let t' = (if shouldSend then (case sendHeartbeat cfg oc ag t of Inr t' \<Rightarrow> t' | Inl e \<Rightarrow> t) else t);
              (n, r) = heartbeat_loop cfg oc ag ts d' t'
          in ((if shouldSend then 1 else 0) + n, r))"

text \<open>Times at which the waits of the loop can end.\<close>

fun wakeups :: "OpAmp \<Rightarrow> deadlines \<Rightarrow> msec list \<Rightarrow> bool" where
  "wakeups ag d [] = True"
| "wakeups ag d (now # ts) = (waitUntil d \<le> now \<and> wakeups ag (snd (heartbeat_turn now ag d)) ts)"

subsection \<open>The endpoint URL\<close>

lemma dot_char_opamp: "list_all dot_char ''v1/opamp''" "list_all dot_char ''/v1/opamp''"
  by (simp_all add: dot_char_def char_code_def)

definition opamp_path :: "string option \<Rightarrow> string" where
  "opamp_path q = (case q of
       None \<Rightarrow> ''v1/opamp''
     | Some p \<Rightarrow> if p = [] then ''v1/opamp'' else if p = ''/'' then ''/v1/opamp'' else p)"

text \<open>
  The address \<open>startCommunication\<close> connects to: for a configured endpoint that is a URL, the
  same scheme, host and port, with the path as configured if there is one, and the path
  \<open>v1/opamp\<close> if there is none or just a slash; otherwise the text with \<open>/v1/opamp\<close> at its end.
\<close>

lemma opamp_endpoint_address:
  "case parseUrl u of
     Some url \<Rightarrow> parseUrl (opamp_endpoint_url u) = Some (url\<lparr>query := Some (opamp_path (query url))\<rparr>)
   | None \<Rightarrow> ends_with (opamp_endpoint_url u) ''/v1/opamp''"
proof (cases "parseUrl u")
  case None
  then show ?thesis by (auto simp: opamp_endpoint_url_def ends_with_iff)
next
  case (Some url)
  then have wf: "wf_url url" and u: "u = print_url url" by (simp_all add: parseUrl_iff)
  have res: "opamp_endpoint_url u = print_url (url\<lparr>query := Some (opamp_path (query url))\<rparr>)"
    using Some by (cases "query url") (auto simp: opamp_endpoint_url_def opamp_path_def print_url_def u)
  have "wf_url (url\<lparr>query := Some (opamp_path (query url))\<rparr>)"
    using wf dot_char_opamp by (cases "query url") (auto simp: wf_url_def opamp_path_def)
  with res have "parseUrl (opamp_endpoint_url u) = Some (url\<lparr>query := Some (opamp_path (query url))\<rparr>)"
    by (simp add: parseUrl_iff)
  with Some show ?thesis by simp
qed

subsection \<open>Remote configuration\<close>

lemma fold_map_upd: "fold (\<lambda>(name, body) m. m(name \<mapsto> body)) files m = m ++ map_of (rev files)"
  by (induction files arbitrary: m) (auto simp: fun_eq_iff map_add_def split: option.split)

text \<open>
  What a server message does to the configuration: a configuration with a hash other than
  the current one replaces all files, tells the watchers exactly the new set, and is reported
  as applied by the next heartbeat; with the current hash, or without a configuration, the
  watchers are not called. So a repeated message is applied once.
\<close>

lemma remote_config_applied_once:
  "let (ag', t', news) = handleServerToAgent oc bytes (ag, t) in
   case Option.bind (parse_server oc bytes) remote_config of
     None \<Rightarrow> news = None \<and> opamp_configFiles ag' = opamp_configFiles ag \<and> currentConfigHash ag' = currentConfigHash ag
   | Some (h, files) \<Rightarrow>
       news = (if currentConfigHash ag = h then None else Some (map_of (rev files)))
       \<and> opamp_configFiles ag' = (if currentConfigHash ag = h then opamp_configFiles ag else map_of (rev files))
       \<and> last_remote_config_hash (heartbeat_message ag') = (if h = [] then None else Some h)
       \<and> snd (snd (handleServerToAgent oc bytes (ag', t'))) = None"
proof (cases "parse_server oc bytes")
  case None
  then show ?thesis by (simp add: handleServerToAgent_def)
next
  case (Some msg)
  then show ?thesis
    by (cases "remote_config msg"; cases "new_instance_uid msg"; cases "heartbeat_interval_seconds msg")
      (auto simp: handleServerToAgent_def Let_def fold_map_upd heartbeat_message_def)
qed

subsection \<open>The rate of heartbeats\<close>

text \<open>How often a deadline \<open>dl\<close> with interval \<open>i\<close> can be reached up to time \<open>e\<close>.\<close>

definition due_count :: "msec \<Rightarrow> msec \<Rightarrow> msec \<Rightarrow> nat" where
  "due_count i dl e = (if e < dl then 0 else nat ((e - dl) div i) + 1)"

lemma due_count_next:
  assumes "0 < i" "dl \<le> now" "now \<le> e"
  shows "due_count i (now + i) e + 1 \<le> due_count i dl e"
proof -
  have "(e - now) div i \<le> (e - dl) div i" using assms by (intro zdiv_mono1) simp_all
  moreover have "due_count i (now + i) e = nat ((e - now) div i)"
  proof (cases "e < now + i")
    case True
    with assms show ?thesis by (simp add: due_count_def div_pos_pos_trivial)
  next
    case False
    have "(e - now) div i = (e - (now + i)) div i + 1"
      using assms(1) div_add_self2 [of i "e - (now + i)"] by (simp add: algebra_simps)
    moreover have "0 \<le> (e - (now + i)) div i" using False assms(1) by (simp add: pos_imp_zdiv_nonneg_iff)
    ultimately show ?thesis using False by (simp add: due_count_def)
  qed
  ultimately show ?thesis using assms by (simp add: due_count_def)
qed

lemma heartbeat_loop_bound:
  assumes "0 < heartbeatInterval ag" "0 < pollingInterval ag" "\<forall>now \<in> set ts. now \<le> e"
  shows "fst (heartbeat_loop cfg oc ag ts d t) \<le>
    due_count (heartbeatInterval ag) (fst d) e + due_count (pollingInterval ag) (snd d) e"
  using assms(3)
proof (induction ts arbitrary: d t)
  case Nil
  then show ?case by simp
next
  case (Cons now ts)
  let ?d = "snd (heartbeat_turn now ag d)"
  define t' where "t' = (if fst (heartbeat_turn now ag d)
    then (case sendHeartbeat cfg oc ag t of Inr t' \<Rightarrow> t' | Inl e \<Rightarrow> t) else t)"
  have IH: "fst (heartbeat_loop cfg oc ag ts ?d t') \<le>
      due_count (heartbeatInterval ag) (fst ?d) e + due_count (pollingInterval ag) (snd ?d) e"
    using Cons by simp
  have step: "fst (heartbeat_loop cfg oc ag (now # ts) d t) =
      (if fst (heartbeat_turn now ag d) then 1 else 0) + fst (heartbeat_loop cfg oc ag ts ?d t')"
    by (simp add: t'_def Let_def split: prod.split)
  have h: "due_count (heartbeatInterval ag) (fst ?d) e + (if fst d \<le> now then 1 else 0)
      \<le> due_count (heartbeatInterval ag) (fst d) e"
    using due_count_next [OF assms(1), of "fst d" now e] Cons.prems by (auto simp: heartbeat_turn_def Let_def)
  have p: "due_count (pollingInterval ag) (snd ?d) e + (if snd d \<le> now then 1 else 0)
      \<le> due_count (pollingInterval ag) (snd d) e"
    using due_count_next [OF assms(2), of "snd d" now e] Cons.prems by (auto simp: heartbeat_turn_def Let_def)
  show ?case
    unfolding step using IH h p by (auto simp: heartbeat_turn_def Let_def split: if_splits)
qed

text \<open>
  C38. With positive intervals the heartbeat thread is no burden on the server: from its start
  at \<open>t0\<close> up to time \<open>e\<close>, whenever it wakes up, it queues at most one message per heartbeat
  interval and one per polling interval that fit into this time.
\<close>

theorem heartbeat_rate_bounded:
  assumes "0 < heartbeatInterval ag" "0 < pollingInterval ag" "t0 \<le> e" "\<forall>now \<in> set ts. now \<le> e"
  shows "int (fst (heartbeat_loop cfg oc ag ts (heartbeat_start t0 ag) t))
    \<le> (e - t0) div heartbeatInterval ag + (e - t0) div pollingInterval ag"
proof -
  have first: "int (due_count i (t0 + i) e) = (e - t0) div i" if "0 < i" for i
  proof (cases "e < t0 + i")
    case True
    with that assms(3) show ?thesis by (simp add: due_count_def div_pos_pos_trivial)
  next
    case False
    have "(e - t0) div i = (e - (t0 + i)) div i + 1"
      using that div_add_self2 [of i "e - (t0 + i)"] by (simp add: algebra_simps)
    moreover have "0 \<le> (e - (t0 + i)) div i" using False that by (simp add: pos_imp_zdiv_nonneg_iff)
    ultimately show ?thesis using False by (simp add: due_count_def)
  qed
  have "fst (heartbeat_loop cfg oc ag ts (heartbeat_start t0 ag) t) \<le>
      due_count (heartbeatInterval ag) (t0 + heartbeatInterval ag) e + due_count (pollingInterval ag) (t0 + pollingInterval ag) e"
    using heartbeat_loop_bound [OF assms(1,2,4), of cfg oc "heartbeat_start t0 ag" t] by (simp add: heartbeat_start_def)
  then have "int (fst (heartbeat_loop cfg oc ag ts (heartbeat_start t0 ag) t)) \<le>
      int (due_count (heartbeatInterval ag) (t0 + heartbeatInterval ag) e)
      + int (due_count (pollingInterval ag) (t0 + pollingInterval ag) e)" by linarith
  with first [OF assms(1)] first [OF assms(2)] show ?thesis by simp
qed

abbreviation idle_codec :: "ServerToAgent option \<Rightarrow> opamp_codec" where
  "idle_codec m \<equiv> \<lparr>serialize_agent = (\<lambda>_. None), parse_server = (\<lambda>_. m), uuid_to_string = (\<lambda>_. [])\<rparr>"

theorem heartbeat_rate_bounded_witness:
  "int (fst (heartbeat_loop demo_cfg (idle_codec None) (OpAmp_ctor []) [30000, 60000, 90000]
      (heartbeat_start 0 (OpAmp_ctor [])) HttpTransportAsync_ctor)) \<le> 6"
  using heartbeat_rate_bounded [of "OpAmp_ctor []" 0 90000 "[30000, 60000, 90000]" demo_cfg "idle_codec None" HttpTransportAsync_ctor]
  by (simp add: OpAmp_ctor_def)

text \<open>
  The heartbeat interval a server sends is taken unchecked, unlike in
  \<open>updateHeartbeatInterval\<close>: after an interval of zero every turn of the loop sends, and the
  next wait is over at once, so that any number of heartbeats is queued at one moment.
\<close>

lemma zero_heartbeat_interval_floods:
  assumes "parse_server oc bytes = Some msg" "heartbeat_interval_seconds msg = Some 0"
  shows "let ag' = fst (handleServerToAgent oc bytes (ag, t)) in
     heartbeatInterval ag' = 0
     \<and> (\<forall>k d. fst d \<le> now \<longrightarrow> wakeups ag' d (replicate k now)
           \<and> fst (heartbeat_loop cfg oc ag' (replicate k now) d t') = k)"
proof -
  define ag' where "ag' = fst (handleServerToAgent oc bytes (ag, t))"
  have z: "heartbeatInterval ag' = 0"
    using assms by (cases "new_instance_uid msg"; cases "remote_config msg")
      (auto simp: ag'_def handleServerToAgent_def Let_def)
  have "wakeups ag' d (replicate k now) \<and> fst (heartbeat_loop cfg oc ag' (replicate k now) d t') = k"
    if "fst d \<le> now" for k d t'
    using that
  proof (induction k arbitrary: d t')
    case 0
    then show ?case by simp
  next
    case (Suc k)
    have "fst (snd (heartbeat_turn now ag' d)) \<le> now" using Suc.prems z by (simp add: heartbeat_turn_def Let_def)
    from Suc.IH [OF this] Suc.prems show ?case
      by (auto simp: heartbeat_turn_def waitUntil_def Let_def split: prod.split) (metis fst_conv)+
  qed
  with z show ?thesis by (simp add: ag'_def Let_def)
qed

lemma zero_heartbeat_interval_floods_witness:
  "let msg = \<lparr>new_instance_uid = None, heartbeat_interval_seconds = Some 0, remote_config = None,
              unavailable_retry_after_ns = None\<rparr>;
       ag' = fst (handleServerToAgent (idle_codec (Some msg)) [] (OpAmp_ctor [], HttpTransportAsync_ctor))
   in fst (heartbeat_loop demo_cfg (idle_codec (Some msg)) ag' (replicate 1000 7) (0, 30000) HttpTransportAsync_ctor) = 1000"
proof -
  let ?msg = "\<lparr>new_instance_uid = None, heartbeat_interval_seconds = Some 0, remote_config = None,
              unavailable_retry_after_ns = None\<rparr>"
  have "parse_server (idle_codec (Some ?msg)) [] = Some ?msg" "heartbeat_interval_seconds ?msg = Some 0" by simp_all
  from zero_heartbeat_interval_floods [OF this, of "OpAmp_ctor []" HttpTransportAsync_ctor 7 demo_cfg HttpTransportAsync_ctor]
  show ?thesis unfolding Let_def by (elim conjE allE [of _ 1000] allE [of _ "(0, 30000)"]) simp
qed

end
