(* ===== verification/Threads.thy ===== *)
theory Threads
  imports OpAmp
begin

text \<open>
  The small concurrent parts of \<open>libcommon\<close>: \<open>SharedMemoryState\<close> (a task that one worker of
  many runs), \<open>SpinLock\<close>, \<open>InferredSpans\<close>, \<open>PeriodicTaskExecutor\<close>, and what
  \<open>ForkableRegistry\<close> asks of everything that owns a thread.
\<close>

subsection \<open>SharedMemoryState: once among all workers\<close>

text \<open>
  A worker in \<open>shouldExecuteOneTimeTaskAmongWorkers\<close>: before the check under the shared lock,
  between the two locks, and returned. The locks make each of the two sections one step.
\<close>

datatype one_time_pc = Before_Check | Between_Locks | Answered bool

record one_time =
  oneTimeTaskAmongWorkersExecuted :: bool
  one_time_pc :: "nat \<Rightarrow> one_time_pc"

definition shared_check :: "nat \<Rightarrow> one_time \<Rightarrow> one_time" where
  "shared_check w s = s\<lparr>one_time_pc := (one_time_pc s)(w :=
     if oneTimeTaskAmongWorkersExecuted s then Answered False else Between_Locks)\<rparr>"

definition exclusive_check :: "nat \<Rightarrow> one_time \<Rightarrow> one_time" where
  "exclusive_check w s =
     (if oneTimeTaskAmongWorkersExecuted s then s\<lparr>one_time_pc := (one_time_pc s)(w := Answered False)\<rparr>
      else s\<lparr>oneTimeTaskAmongWorkersExecuted := True, one_time_pc := (one_time_pc s)(w := Answered True)\<rparr>)"

inductive one_time_step :: "one_time \<Rightarrow> one_time \<Rightarrow> bool" where
  check: "one_time_pc s w = Before_Check \<Longrightarrow> one_time_step s (shared_check w s)"
| claim: "one_time_pc s w = Between_Locks \<Longrightarrow> one_time_step s (exclusive_check w s)"

definition one_time_start :: one_time where
  "one_time_start = \<lparr>oneTimeTaskAmongWorkersExecuted = False, one_time_pc = (\<lambda>_. Before_Check)\<rparr>"

definition one_time_inv :: "one_time \<Rightarrow> bool" where
  "one_time_inv s =
     (if oneTimeTaskAmongWorkersExecuted s then \<exists>!w. one_time_pc s w = Answered True
      else \<forall>w b. one_time_pc s w \<noteq> Answered b)"

lemma answered_elsewhere:
  "pc w \<noteq> Answered True \<Longrightarrow> x \<noteq> Answered True \<Longrightarrow> (pc(w := x)) v = Answered True \<longleftrightarrow> pc v = Answered True"
  by auto

lemma one_time_inv_step:
  assumes "one_time_step s s'" "one_time_inv s"
  shows "one_time_inv s'"
  using assms(1)
proof cases
  case (check w)
  then have "one_time_pc s w \<noteq> Answered True" by simp
  with check assms(2) show ?thesis
    by (auto simp: one_time_inv_def shared_check_def answered_elsewhere simp del: fun_upd_apply)
      (auto split: if_splits)
next
  case (claim w)
  then have pc: "one_time_pc s w \<noteq> Answered True" by simp
  show ?thesis
  proof (cases "oneTimeTaskAmongWorkersExecuted s")
    case True
    with claim pc assms(2) show ?thesis
      by (simp add: one_time_inv_def exclusive_check_def answered_elsewhere del: fun_upd_apply)
  next
    case False
    with claim assms(2) show ?thesis
      by (auto simp: one_time_inv_def exclusive_check_def intro!: ex1I [of _ w])
  qed
qed

lemma one_time_inv_reachable: "one_time_step\<^sup>*\<^sup>* one_time_start s \<Longrightarrow> one_time_inv s"
  by (induction rule: rtranclp_induct)
    (auto simp: one_time_start_def one_time_inv_def [of "\<lparr>oneTimeTaskAmongWorkersExecuted = _, one_time_pc = _\<rparr>"]
      intro: one_time_inv_step)

text \<open>
  C30. However the workers interleave in \<open>shouldExecuteOneTimeTaskAmongWorkers\<close>: as soon as one of
  them has its answer, exactly one has been told to run the task.
\<close>

theorem one_time_task_runs_once:
  assumes "one_time_step\<^sup>*\<^sup>* one_time_start s" "one_time_pc s w = Answered b"
  shows "\<exists>!v. one_time_pc s v = Answered True"
  using one_time_inv_reachable [OF assms(1)] assms(2) by (auto simp: one_time_inv_def split: if_splits)

theorem one_time_task_runs_once_witness:
  "\<exists>!v. one_time_pc (exclusive_check 1 (shared_check 2 (shared_check 1 one_time_start))) v = Answered True"
proof (rule one_time_task_runs_once)
  let ?a = "shared_check 1 one_time_start" and ?b = "shared_check 2 (shared_check 1 one_time_start)"
  have "one_time_step one_time_start ?a" by (rule check) (simp add: one_time_start_def)
  moreover have "one_time_step ?a ?b" by (rule check) (simp add: one_time_start_def shared_check_def)
  moreover have "one_time_step ?b (exclusive_check 1 ?b)"
    by (rule claim) (simp add: one_time_start_def shared_check_def)
  ultimately show "one_time_step\<^sup>*\<^sup>* one_time_start (exclusive_check 1 ?b)" by (meson converse_rtranclp_into_rtranclp rtranclp.rtrancl_refl)
  show "one_time_pc (exclusive_check 1 ?b) 1 = Answered True"
    by (simp add: one_time_start_def shared_check_def exclusive_check_def)
qed

subsection \<open>SpinLock\<close>

record spin =
  spin_flag :: bool
  spin_holders :: "nat set"

text \<open>\<open>test_and_set\<close> tells the old value; the caller spins while it was set.\<close>

inductive spin_step :: "spin \<Rightarrow> spin \<Rightarrow> bool" where
  acquired: "\<not> spin_flag s \<Longrightarrow> w \<notin> spin_holders s \<Longrightarrow>
    spin_step s (s\<lparr>spin_flag := True, spin_holders := insert w (spin_holders s)\<rparr>)"
| spinning: "spin_flag s \<Longrightarrow> spin_step s (s\<lparr>spin_flag := True\<rparr>)"
| unlock: "w \<in> spin_holders s \<Longrightarrow> spin_step s (s\<lparr>spin_flag := False, spin_holders := spin_holders s - {w}\<rparr>)"

lemma spin_exclusive_step:
  "spin_step s s' \<Longrightarrow> spin_holders s = {} \<and> \<not> spin_flag s \<or> (\<exists>w. spin_holders s = {w} \<and> spin_flag s) \<Longrightarrow>
     spin_holders s' = {} \<and> \<not> spin_flag s' \<or> (\<exists>w. spin_holders s' = {w} \<and> spin_flag s')"
  by (induction rule: spin_step.induct) auto

lemma spin_lock_exclusive:
  "spin_step\<^sup>*\<^sup>* \<lparr>spin_flag = False, spin_holders = {}\<rparr> s \<Longrightarrow> a \<in> spin_holders s \<Longrightarrow> b \<in> spin_holders s \<Longrightarrow> a = b"
proof -
  assume "spin_step\<^sup>*\<^sup>* \<lparr>spin_flag = False, spin_holders = {}\<rparr> s"
  then have "spin_holders s = {} \<and> \<not> spin_flag s \<or> (\<exists>w. spin_holders s = {w} \<and> spin_flag s)"
    by (induction rule: rtranclp_induct) (auto dest: spin_exclusive_step)
  then show "a \<in> spin_holders s \<Longrightarrow> b \<in> spin_holders s \<Longrightarrow> a = b" by auto
qed

subsection \<open>InferredSpans\<close>

record InferredSpans =
  interruptedRequested :: bool
  samplingInterval :: msec
  lastInterruptRequestTick :: msec
  phpSideBacktracePending :: bool

definition InferredSpans_ctor :: "msec \<Rightarrow> InferredSpans" where
  "InferredSpans_ctor now = \<lparr>interruptedRequested = False, samplingInterval = 20,
     lastInterruptRequestTick = now, phpSideBacktracePending = False\<rparr>"

text \<open>What the object does to PHP: request an interrupt, and have a backtrace attached.\<close>

datatype span_event = Interrupt msec | Attach msec msec

definition tryRequestInterrupt :: "msec \<Rightarrow> InferredSpans \<Rightarrow> span_event list \<times> InferredSpans" where
  "tryRequestInterrupt now s =
     (if interruptedRequested s then ([], s)
      else if now > lastInterruptRequestTick s + samplingInterval s
      then ([Interrupt now], s\<lparr>lastInterruptRequestTick := now, interruptedRequested := True\<rparr>)
      else ([], s))"

text \<open>
  \<open>attachBacktraceIfInterrupted\<close> up to the call of PHP and after it; in between PHP code runs
  and may come here again.
\<close>

definition attachBacktrace_begin :: "msec \<Rightarrow> InferredSpans \<Rightarrow> span_event list \<times> InferredSpans" where
  "attachBacktrace_begin now s =
     (if phpSideBacktracePending s then ([], s)
      else if interruptedRequested s
      then ([Attach (lastInterruptRequestTick s) now], s\<lparr>interruptedRequested := False, phpSideBacktracePending := True\<rparr>)
      else ([], s))"

definition attachBacktrace_end :: "InferredSpans \<Rightarrow> InferredSpans" where
  "attachBacktrace_end s = s\<lparr>phpSideBacktracePending := False\<rparr>"

definition spans_setInterval :: "msec \<Rightarrow> InferredSpans \<Rightarrow> InferredSpans" where
  "spans_setInterval i s = s\<lparr>samplingInterval := i\<rparr>"

definition spans_reset :: "msec \<Rightarrow> InferredSpans \<Rightarrow> InferredSpans" where
  "spans_reset now s = s\<lparr>lastInterruptRequestTick := now\<rparr>"

datatype span_op = Tick msec | Enter msec | Leave | Reset msec

fun run_op :: "span_op \<Rightarrow> InferredSpans \<Rightarrow> span_event list \<times> InferredSpans" where
  "run_op (Tick now) s = tryRequestInterrupt now s"
| "run_op (Enter now) s = attachBacktrace_begin now s"
| "run_op Leave s = ([], attachBacktrace_end s)"
| "run_op (Reset now) s = ([], spans_reset now s)"

fun span_run :: "span_op list \<Rightarrow> InferredSpans \<Rightarrow> span_event list" where
  "span_run [] s = []"
| "span_run (x # xs) s = fst (run_op x s) @ span_run xs (snd (run_op x s))"

fun op_time :: "span_op \<Rightarrow> msec option" where
  "op_time (Tick t) = Some t"
| "op_time (Enter t) = Some t"
| "op_time Leave = None"
| "op_time (Reset t) = Some t"

fun interrupt_time :: "span_event \<Rightarrow> msec option" where
  "interrupt_time (Interrupt t) = Some t"
| "interrupt_time (Attach r t) = None"

text \<open>Requests and backtraces take turns; \<open>open\<close> says that a request waits for its backtrace.\<close>

fun take_turns :: "bool \<Rightarrow> span_event list \<Rightarrow> bool" where
  "take_turns waiting [] = True"
| "take_turns waiting (Interrupt t # es) = (\<not> waiting \<and> take_turns True es)"
| "take_turns waiting (Attach r t # es) = (waiting \<and> take_turns False es)"

lemma span_run_turns: "take_turns (interruptedRequested s) (span_run xs s)"
proof (induction xs arbitrary: s)
  case Nil
  then show ?case by simp
next
  case (Cons x xs)
  from Cons [of "snd (run_op x s)"] show ?case
    by (cases x) (auto simp: tryRequestInterrupt_def attachBacktrace_begin_def attachBacktrace_end_def
        spans_reset_def split: if_splits)
qed

lemma span_run_spaced:
  assumes "sorted (List.map_filter op_time xs)" "\<forall>t \<in> set (List.map_filter op_time xs). lastInterruptRequestTick s \<le> t"
  shows "sorted_wrt (\<lambda>a b. a + samplingInterval s < b) (List.map_filter interrupt_time (span_run xs s))
    \<and> (\<forall>t \<in> set (List.map_filter interrupt_time (span_run xs s)). lastInterruptRequestTick s + samplingInterval s < t)"
  using assms
proof (induction xs arbitrary: s)
  case Nil
  then show ?case by (simp add: map_filter_simps)
next
  case (Cons x xs)
  let ?s = "snd (run_op x s)"
  have time: "\<forall>t \<in> set (List.map_filter op_time xs). lastInterruptRequestTick ?s \<le> t" "sorted (List.map_filter op_time xs)"
    using Cons.prems
    by (cases x; auto simp: map_filter_simps tryRequestInterrupt_def attachBacktrace_begin_def
        attachBacktrace_end_def spans_reset_def)+
  have i: "samplingInterval ?s = samplingInterval s" and l: "lastInterruptRequestTick s \<le> lastInterruptRequestTick ?s"
    using Cons.prems by (cases x; auto simp: map_filter_simps tryRequestInterrupt_def attachBacktrace_begin_def
        attachBacktrace_end_def spans_reset_def)+
  note IH = Cons.IH [OF time(2,1), unfolded i]
  have later: "\<forall>t \<in> set (List.map_filter interrupt_time (span_run xs ?s)). lastInterruptRequestTick s + samplingInterval s < t"
    using IH l by fastforce
  show ?case
  proof (cases "fst (run_op x s) = [] \<or> (\<exists>r t. fst (run_op x s) = [Attach r t])")
    case True
    then show ?thesis using IH later by (auto simp: map_filter_simps)
  next
    case False
    then obtain t where t: "x = Tick t" "fst (run_op x s) = [Interrupt t]" "lastInterruptRequestTick ?s = t"
      "lastInterruptRequestTick s + samplingInterval s < t"
      by (cases x) (auto simp: tryRequestInterrupt_def attachBacktrace_begin_def split: if_splits)
    then show ?thesis using IH later by (auto simp: map_filter_simps)
  qed
qed

text \<open>
  C29. Sampling of inferred spans, in any order of the calls of the two threads with
  non-decreasing clocks: interrupt requests and attached backtraces take turns, starting with a
  request, so no request is answered twice and none is made while one is open; and two requests are always more
  than a sampling interval apart.
\<close>

theorem interrupts_take_turns_and_are_spaced:
  assumes "sorted (List.map_filter op_time xs)"
    "\<forall>t \<in> set (List.map_filter op_time xs). t0 \<le> t"
  shows "let evs = span_run xs (spans_setInterval i (InferredSpans_ctor t0)) in
    take_turns False evs \<and> sorted_wrt (\<lambda>a b. a + i < b) (List.map_filter interrupt_time evs)"
  using span_run_turns [of "spans_setInterval i (InferredSpans_ctor t0)" xs]
    span_run_spaced [OF assms(1), of "spans_setInterval i (InferredSpans_ctor t0)"] assms(2)
  by (simp add: spans_setInterval_def InferredSpans_ctor_def)

theorem interrupts_take_turns_and_are_spaced_witness:
  "let evs = span_run [Tick 60, Tick 120, Enter 130, Leave, Tick 140, Tick 200] (spans_setInterval 50 (InferredSpans_ctor 0)) in
    evs = [Interrupt 60, Attach 60 130, Interrupt 140]
    \<and> sorted_wrt (\<lambda>a b. a + 50 < b) (List.map_filter interrupt_time evs)"
  using interrupts_take_turns_and_are_spaced [of "[Tick 60, Tick 120, Enter 130, Leave, Tick 140, Tick 200]" 0 50]
  by (simp add: map_filter_simps spans_setInterval_def InferredSpans_ctor_def tryRequestInterrupt_def
      attachBacktrace_begin_def attachBacktrace_end_def)

subsection \<open>PeriodicTaskExecutor\<close>

datatype executor_thread = Exec_None | Exec_Started | Exec_Waiting | Exec_Sleeping | Exec_Returned

record PeriodicTaskExecutor =
  exec_thread :: executor_thread
  exec_working :: bool
  resumed :: bool
  sleepInterval :: msec
  periodicTasks :: "nat list"

definition PeriodicTaskExecutor_ctor :: "nat list \<Rightarrow> PeriodicTaskExecutor" where
  "PeriodicTaskExecutor_ctor tasks = \<lparr>exec_thread = Exec_Started, exec_working = True, resumed = False,
     sleepInterval = 20, periodicTasks = tasks\<rparr>"

definition addTask :: "nat \<Rightarrow> PeriodicTaskExecutor \<Rightarrow> PeriodicTaskExecutor" where
  "addTask i e = e\<lparr>periodicTasks := periodicTasks e @ [i]\<rparr>"

definition resumePeriodicTasks :: "PeriodicTaskExecutor \<Rightarrow> PeriodicTaskExecutor" where
  "resumePeriodicTasks e = e\<lparr>resumed := True\<rparr>"

definition suspendPeriodicTasks :: "PeriodicTaskExecutor \<Rightarrow> PeriodicTaskExecutor" where
  "suspendPeriodicTasks e = e\<lparr>resumed := False\<rparr>"

definition exec_setInterval :: "msec \<Rightarrow> PeriodicTaskExecutor \<Rightarrow> PeriodicTaskExecutor" where
  "exec_setInterval i e = e\<lparr>sleepInterval := i\<rparr>"

definition exec_shutdown :: "PeriodicTaskExecutor \<Rightarrow> PeriodicTaskExecutor" where
  "exec_shutdown e = e\<lparr>exec_working := False\<rparr>"

text \<open>\<open>prefork\<close>: \<open>shutdown\<close>, then the join, after which there is no thread.\<close>

definition exec_prefork :: "PeriodicTaskExecutor \<Rightarrow> PeriodicTaskExecutor" where
  "exec_prefork e = (exec_shutdown e)\<lparr>exec_thread := Exec_None\<rparr>"

definition exec_postfork :: "bool \<Rightarrow> PeriodicTaskExecutor \<Rightarrow> PeriodicTaskExecutor" where
  "exec_postfork child e = e\<lparr>exec_working := True, exec_thread := Exec_Started\<rparr>"

definition exec_loop_head :: "PeriodicTaskExecutor \<Rightarrow> PeriodicTaskExecutor" where
  "exec_loop_head e = e\<lparr>exec_thread := if exec_working e then Exec_Waiting else Exec_Returned\<rparr>"

text \<open>The next step of \<open>work\<close>, with the tasks it runs; \<open>None\<close> when it waits or there is no thread.\<close>

definition exec_step :: "PeriodicTaskExecutor \<Rightarrow> (nat list \<times> PeriodicTaskExecutor) option" where
  "exec_step e = (case exec_thread e of
       Exec_None \<Rightarrow> None
     | Exec_Returned \<Rightarrow> None
     | Exec_Started \<Rightarrow> Some ([], exec_loop_head e)
     | Exec_Waiting \<Rightarrow>
         if resumed e \<or> \<not> exec_working e
         then Some ([], e\<lparr>exec_thread := if exec_working e then Exec_Sleeping else Exec_Returned\<rparr>)
         else None
     | Exec_Sleeping \<Rightarrow> Some (periodicTasks e, exec_loop_head e))"

text \<open>The thread alone, at most \<open>n\<close> steps: the tasks it ran and where it got.\<close>

fun exec_run :: "nat \<Rightarrow> PeriodicTaskExecutor \<Rightarrow> nat list \<times> PeriodicTaskExecutor" where
  "exec_run 0 e = ([], e)"
| "exec_run (Suc n) e = (case exec_step e of
       None \<Rightarrow> ([], e)
     | Some (done_tasks, e') \<Rightarrow> (let (more, e'') = exec_run n e' in (done_tasks @ more, e'')))"

lemma exec_run_waiting:
  "\<not> resumed e \<Longrightarrow> exec_working e \<Longrightarrow> exec_thread e = Exec_Waiting \<Longrightarrow> exec_run n e = ([], e)"
  by (cases n) (simp_all add: exec_step_def)

lemma exec_run_returned:
  "exec_thread e = Exec_Returned \<or> exec_thread e = Exec_None \<Longrightarrow> exec_run n e = ([], e)"
  by (cases n) (auto simp: exec_step_def)

text \<open>
  C39. \<open>suspendPeriodicTasks\<close> takes effect at once but for a round that is already past the wait:
  from then on, whatever time passes, the executor runs each task at most once more, and not
  at all when its thread was waiting.
\<close>

theorem suspended_executor_runs_at_most_one_round:
  "fst (exec_run n (suspendPeriodicTasks e)) =
     (if exec_thread e = Exec_Sleeping \<and> n > 0 then periodicTasks e else [])"
proof (cases n)
  case 0
  then show ?thesis by simp
next
  case (Suc k)
  let ?e = "suspendPeriodicTasks e"
  have loop: "fst (exec_run k (exec_loop_head ?e)) = []"
    by (cases "exec_working e")
      (simp_all add: exec_run_waiting exec_run_returned exec_loop_head_def suspendPeriodicTasks_def)
  show ?thesis
  proof (cases "exec_thread e")
    case Exec_Waiting
    then show ?thesis
      using Suc exec_run_returned [of "?e\<lparr>exec_thread := Exec_Returned\<rparr>" k]
      by (cases "exec_working e") (simp_all add: exec_step_def suspendPeriodicTasks_def)
  qed (use Suc loop in \<open>auto simp: exec_step_def suspendPeriodicTasks_def split: prod.splits\<close>)
qed

lemma exec_shutdown_returns:
  assumes "exec_thread e \<noteq> Exec_None"
  shows "exec_thread (snd (exec_run 2 (exec_shutdown e))) = Exec_Returned"
  using assms
  by (cases "exec_thread e")
    (simp_all add: exec_step_def exec_shutdown_def exec_loop_head_def eval_nat_numeral)

subsection \<open>Forking\<close>

text \<open>
  What \<open>ForkableRegistry\<close> relies on: \<open>quiesce\<close> is the state after \<open>prefork\<close> has joined the
  thread. No thread may exist at the moment of the fork, and afterwards both processes have
  one again.
\<close>

locale forkable =
  fixes quiesce :: "'s \<Rightarrow> 's"
    and postfork :: "bool \<Rightarrow> 's \<Rightarrow> 's"
    and has_thread :: "'s \<Rightarrow> bool"
  assumes no_thread_at_fork: "\<not> has_thread (quiesce s)"
    and thread_after_fork: "has_thread (postfork child (quiesce s))"
begin

lemma all_quiet: "\<not> (\<exists>s \<in> set (map quiesce objs). has_thread s)"
  by (auto simp: no_thread_at_fork)

lemma all_running: "\<forall>s \<in> set (map (postfork child) (map quiesce objs)). has_thread s"
  by (auto simp: thread_after_fork)

lemma fork_again: "\<not> has_thread (quiesce (postfork child (quiesce s)))"
  by (rule no_thread_at_fork)

end

definition transport_quiesce :: "HttpTransportAsync \<Rightarrow> HttpTransportAsync" where
  "transport_quiesce t = shutdownThread_end (shutdownThread_begin t)"

interpretation executor_fork: forkable exec_prefork exec_postfork "\<lambda>e. exec_thread e \<noteq> Exec_None"
  by unfold_locales (simp_all add: exec_prefork_def exec_postfork_def exec_shutdown_def)

interpretation opamp_fork: forkable opamp_prefork opamp_postfork opamp_thread
  by unfold_locales (simp_all add: opamp_prefork_def opamp_postfork_def opamp_startThread_def)

interpretation transport_fork: forkable transport_quiesce transport_postfork "\<lambda>t. thread t \<noteq> No_Thread"
  by unfold_locales
    (simp_all add: transport_quiesce_def shutdownThread_begin_def shutdownThread_end_def transport_postfork_def
      startThread_def Let_def)

text \<open>The objects that are registered or forked by \<open>CoordinatorProcess\<close>.\<close>

datatype forkable_object =
  Fork_Executor PeriodicTaskExecutor
| Fork_OpAmp OpAmp
| Fork_Transport HttpTransportAsync
| Fork_Registrar

fun object_prefork :: "forkable_object \<Rightarrow> forkable_object" where
  "object_prefork (Fork_Executor e) = Fork_Executor (exec_prefork e)"
| "object_prefork (Fork_OpAmp a) = Fork_OpAmp (opamp_prefork a)"
| "object_prefork (Fork_Transport t) = Fork_Transport (transport_quiesce t)"
| "object_prefork Fork_Registrar = Fork_Registrar"

fun object_postfork :: "bool \<Rightarrow> forkable_object \<Rightarrow> forkable_object" where
  "object_postfork child (Fork_Executor e) = Fork_Executor (exec_postfork child e)"
| "object_postfork child (Fork_OpAmp a) = Fork_OpAmp (opamp_postfork child a)"
| "object_postfork child (Fork_Transport t) = Fork_Transport (transport_postfork child t)"
| "object_postfork child Fork_Registrar = Fork_Registrar"

fun object_has_thread :: "forkable_object \<Rightarrow> bool" where
  "object_has_thread (Fork_Executor e) = (exec_thread e \<noteq> Exec_None)"
| "object_has_thread (Fork_OpAmp a) = opamp_thread a"
| "object_has_thread (Fork_Transport t) = (thread t \<noteq> No_Thread)"
| "object_has_thread Fork_Registrar = False"

type_synonym ForkableRegistry = "forkable_object option list"

definition registerForkable :: "forkable_object option \<Rightarrow> ForkableRegistry \<Rightarrow> ForkableRegistry" where
  "registerForkable obj reg = reg @ [obj]"

definition preFork :: "ForkableRegistry \<Rightarrow> ForkableRegistry" where
  "preFork reg = map (map_option object_prefork) reg"

definition postFork :: "bool \<Rightarrow> ForkableRegistry \<Rightarrow> ForkableRegistry" where
  "postFork isChild reg = map (map_option (object_postfork isChild)) reg"

definition registry_clear :: "ForkableRegistry \<Rightarrow> ForkableRegistry" where
  "registry_clear reg = []"



end
