(* ===== verification/EngineHooks.thy ===== *)
theory EngineHooks
  imports PhpBridge AutoloaderGuard Threads
begin

section \<open>Functions of the engine that the extension replaces\<close>

text \<open>
  extension/code/Hooking.h and Hooking.cpp: the engine calls native functions, handles
  interrupts and compiles files through function pointers, which the extension exchanges for its own
  functions and puts back at the end; and the observer of PHP errors. The functions
  behind the original pointers are parameters.
\<close>

subsection \<open>The pointers\<close>

text \<open>A pointer to a function that was there before, or to one of the extension; \<open>None\<close> is null.\<close>

datatype engine_function = Engine_Function nat | Otel_Execute_Internal | Otel_Interrupt_Function | Otel_Compile_File

record engine_pointers =
  zend_execute_internal :: "engine_function option"
  zend_interrupt_function :: "engine_function option"
  zend_compile_file_ptr :: "engine_function option"

record Hooking =
  original_execute_internal :: "engine_function option"
  original_zend_interrupt_function :: "engine_function option"
  original_zend_compile_file :: "engine_function option"
  inferredSpansHooksInstalled :: bool

definition Hooking_ctor :: Hooking where
  "Hooking_ctor = \<lparr>original_execute_internal = None, original_zend_interrupt_function = None,
     original_zend_compile_file = None, inferredSpansHooksInstalled = False\<rparr>"

type_synonym hooking_state = "Hooking \<times> engine_pointers"

definition fetchOriginalHooks :: "hooking_state \<Rightarrow> hooking_state" where
  "fetchOriginalHooks s = (case s of (h, e) \<Rightarrow>
     (h\<lparr>original_execute_internal := zend_execute_internal e,
        original_zend_interrupt_function := zend_interrupt_function e,
        original_zend_compile_file := zend_compile_file_ptr e\<rparr>, e))"

definition restoreOriginalHooks :: "hooking_state \<Rightarrow> hooking_state" where
  "restoreOriginalHooks s = (case s of (h, e) \<Rightarrow>
     (h, e\<lparr>zend_execute_internal := original_execute_internal h,
           zend_interrupt_function := original_zend_interrupt_function h,
           zend_compile_file_ptr := original_zend_compile_file h\<rparr>))"

definition enableInferredSpansHooks :: "hooking_state \<Rightarrow> hooking_state" where
  "enableInferredSpansHooks s = (case s of (h, e) \<Rightarrow>
     if inferredSpansHooksInstalled h then (h, e)
     else (h\<lparr>inferredSpansHooksInstalled := True\<rparr>,
           e\<lparr>zend_execute_internal := Some Otel_Execute_Internal,
             zend_interrupt_function := Some Otel_Interrupt_Function\<rparr>))"

definition replaceHooks :: "bool \<Rightarrow> bool \<Rightarrow> hooking_state \<Rightarrow> hooking_state" where
  "replaceHooks enableInferredSpansHook enableDepenecyAutoloaderGuard s =
     (let (h, e) = (if enableInferredSpansHook then enableInferredSpansHooks s else s)
      in (h, if enableDepenecyAutoloaderGuard then e\<lparr>zend_compile_file_ptr := Some Otel_Compile_File\<rparr> else e))"

subsection \<open>What the replacements do\<close>

text \<open>The calls in order; the original interrupt function, or the one for native calls, may bail out, which is caught.\<close>

datatype engine_call = Attach_Backtrace | Call_Function engine_function | Call_Execute_Internal

definition otel_interrupt_function :: "Hooking \<Rightarrow> engine_call list" where
  "otel_interrupt_function h =
     Attach_Backtrace # (case original_zend_interrupt_function h of Some f \<Rightarrow> [Call_Function f] | None \<Rightarrow> [])"

definition otel_execute_internal :: "Hooking \<Rightarrow> engine_call list" where
  "otel_execute_internal h =
     [case original_execute_internal h of Some f \<Rightarrow> Call_Function f | None \<Rightarrow> Call_Execute_Internal, Attach_Backtrace]"

text \<open>
  The file name is the opened path if there is one; \<open>compile\<close> is the original compiler,
  whose result is \<open>None\<close> for a null pointer and also after a bailout.
\<close>

definition otel_compile_file ::
    "(string \<Rightarrow> string result) \<Rightarrow> php_tables \<Rightarrow> (engine_function \<Rightarrow> string \<Rightarrow> 'op option)
       \<Rightarrow> Hooking \<Rightarrow> string option \<Rightarrow> string \<Rightarrow> DependencyAutoLoaderGuard \<Rightarrow> 'op option \<times> DependencyAutoLoaderGuard" where
  "otel_compile_file resolve tables compile h opened_path filename g =
     (let file = (case opened_path of Some p \<Rightarrow> p | None \<Rightarrow> filename);
          (discard, g') = shouldDiscardFileCompilation resolve tables file g
      in if discard then (None, g')
         else (case original_zend_compile_file h of Some f \<Rightarrow> compile f filename | None \<Rightarrow> None, g'))"

subsection \<open>PHP errors\<close>

text \<open>
  \<open>handling\<close> is the static flag against a loop; the result is the call of the PHP error handler, if
  one is made: type, file, line, message, and whether the handler on the PHP side runs.
\<close>

type_synonym php_error = "int \<times> string \<times> nat \<times> string"

definition otel_observer_error_cb ::
    "bool \<Rightarrow> call_frame option \<Rightarrow> HooksStorage \<Rightarrow> php_error \<Rightarrow> (php_error \<times> bool) option" where
  "otel_observer_error_cb handling current_execute_data hooks err =
     (if handling then None
      else case current_execute_data of
             None \<Rightarrow> Some (err, False)
           | Some fr \<Rightarrow>
               let hash = getClassAndFunctionHashFromExecuteData fr
               in if hash \<noteq> 0 \<and> hooks_find hooks hash \<noteq> None then None else Some (err, True))"

definition handleError :: "facade_engine \<Rightarrow> bool \<Rightarrow> php_error \<times> bool \<Rightarrow> eg_state \<Rightarrow> (bool \<times> eg_state) option" where
  "handleError e scoped call eg = (case call of ((type, errorFilename, errorLineno, message), callPHPHandler) \<Rightarrow>
     if callPHPHandler then Some (callPHPSideErrorHandler e scoped type errorFilename errorLineno message eg) else None)"

subsection \<open>The pointers are put back\<close>

text \<open>What may happen to the pointers while the extension is active.\<close>

datatype hooking_op = Enable_Spans | Replace bool bool

fun hooking_step :: "hooking_op \<Rightarrow> hooking_state \<Rightarrow> hooking_state" where
  "hooking_step Enable_Spans s = enableInferredSpansHooks s"
| "hooking_step (Replace spans guard) s = replaceHooks spans guard s"

definition same_originals :: "engine_pointers \<Rightarrow> Hooking \<Rightarrow> bool" where
  "same_originals e h \<longleftrightarrow> original_execute_internal h = zend_execute_internal e
     \<and> original_zend_interrupt_function h = zend_interrupt_function e
     \<and> original_zend_compile_file h = zend_compile_file_ptr e"

lemmas hooking_defs = enableInferredSpansHooks_def replaceHooks_def fetchOriginalHooks_def restoreOriginalHooks_def

lemma hooking_step_originals: "same_originals e (fst (hooking_step op s)) = same_originals e (fst s)"
  by (cases op) (auto simp: hooking_defs same_originals_def split: prod.splits)

lemma hooking_steps_originals: "same_originals e (fst (fold hooking_step ops s)) = same_originals e (fst s)"
  by (induction ops arbitrary: s) (simp_all add: hooking_step_originals)

lemma engine_pointers_restored:
  assumes "same_originals e h"
  shows "snd (restoreOriginalHooks (h, e')) = e"
  using assms by (cases e; cases e') (simp add: restoreOriginalHooks_def same_originals_def)

text \<open>
  C6. Once the original pointers have been fetched, the functions of the engine keep running behind the
  replacements, whatever is installed in between: a native call and an interrupt each reach the
  original function exactly once (a native call the engine's own executor where there was none), and
  \<open>restoreOriginalHooks\<close> puts all three pointers back.
\<close>

theorem replaced_functions_stay_reachable:
  "let (h, e') = fold hooking_step ops (fetchOriginalHooks (h0, e))
   in snd (restoreOriginalHooks (h, e')) = e
     \<and> filter (\<lambda>c. c \<noteq> Attach_Backtrace) (otel_interrupt_function h) = (case zend_interrupt_function e of None \<Rightarrow> [] | Some f \<Rightarrow> [Call_Function f])
     \<and> filter (\<lambda>c. c \<noteq> Attach_Backtrace) (otel_execute_internal h) =
         [case zend_execute_internal e of None \<Rightarrow> Call_Execute_Internal | Some f \<Rightarrow> Call_Function f]
     \<and> (\<forall>resolve t compile p file g. fst (otel_compile_file resolve t compile h p file g) =
         (if fst (shouldDiscardFileCompilation resolve t (case p of Some q \<Rightarrow> q | None \<Rightarrow> file) g) then None
          else Option.bind (zend_compile_file_ptr e) (\<lambda>f. compile f file)))"
proof -
  obtain h e' where r: "fold hooking_step ops (fetchOriginalHooks (h0, e)) = (h, e')" by fastforce
  have "same_originals e (fst (fetchOriginalHooks (h0, e)))" by (simp add: fetchOriginalHooks_def same_originals_def)
  then have same: "same_originals e h" using hooking_steps_originals [of e ops "fetchOriginalHooks (h0, e)"] r by simp
  from engine_pointers_restored [OF same] same show ?thesis
    by (auto simp: r same_originals_def otel_interrupt_function_def otel_execute_internal_def otel_compile_file_def Let_def
        split: option.split prod.split)
qed

text \<open>
  Without \<open>fetchOriginalHooks\<close>, as in a request of an extension that is disabled but has inferred
  spans enabled, an interrupt handler installed by others is dropped for good.
\<close>

lemma unfetched_interrupt_handler_is_lost:
  assumes "zend_interrupt_function e = Some f"
  shows "let (h, e') = enableInferredSpansHooks (Hooking_ctor, e)
    in zend_interrupt_function e' = Some Otel_Interrupt_Function \<and> Call_Function f \<notin> set (otel_interrupt_function h)"
  by (simp add: enableInferredSpansHooks_def Hooking_ctor_def otel_interrupt_function_def)

end
