(* ===== verification/Configuration.thy ===== *)
theory Configuration
  imports UrlCodec "HOL-Library.List_Lexorder" "HOL-Library.Char_ord" "HOL-Library.Multiset"
begin

text \<open>
  Configuration: the snapshot and its defaults (\<open>ConfigurationSnapshot.h\<close>), the option
  table and \<open>ConfigurationManager\<close>, the providers option values come from
  (\<open>config/*\<close>) and the per-worker \<open>ConfigurationStorage\<close>.
\<close>

subsection \<open>Option values and the snapshot\<close>

datatype option_type = Type_boolean | Type_string | Type_duration | Type_loglevel | Type_bytes

datatype optionValue =
  Val_boolean bool
| Val_string string
| Val_duration msec
| Val_loglevel LogLevel
| Val_bytes size_t

fun type_of_value :: "optionValue \<Rightarrow> option_type" where
  "type_of_value (Val_boolean _) = Type_boolean"
| "type_of_value (Val_string _) = Type_string"
| "type_of_value (Val_duration _) = Type_duration"
| "type_of_value (Val_loglevel _) = Type_loglevel"
| "type_of_value (Val_bytes _) = Type_bytes"

type_synonym configFiles = "string \<rightharpoonup> string"

text \<open>
  The code reads and writes members of the snapshot through byte offsets. A member is
  modelled by its name, its storage by the value that lives there; an access with another
  type than the member's is undefined behaviour.
\<close>

record ConfigurationSnapshot =
  members :: "string \<rightharpoonup> optionValue"
  revision :: "64 word"
  remoteConfigFiles :: configFiles

definition snapshot_defaults :: "(string \<times> optionValue) list" where
  "snapshot_defaults = [
   (''bootstrap_php_part_file'', Val_string []),
   (''enabled'', Val_boolean True),
   (''log_file'', Val_string []),
   (''log_level'', Val_loglevel logLevel_off),
   (''log_level_file'', Val_loglevel logLevel_off),
   (''log_level_stderr'', Val_loglevel logLevel_off),
   (''log_level_syslog'', Val_loglevel logLevel_info),
   (''log_features'', Val_string []),
   (''debug_diagnostic_file'', Val_string []),
   (''max_send_queue_size'', Val_bytes (2 * 1024 * 1204)),
   (''async_transport'', Val_boolean True),
   (''async_transport_shutdown_timeout'', Val_duration (30 * 1000)),
   (''debug_instrument_all'', Val_boolean False),
   (''debug_php_hooks_enabled'', Val_boolean False),
   (''attr_hooks_enabled'', Val_boolean False),
   (''scoped_deps_enabled'', Val_boolean True),
   (''inferred_spans_enabled'', Val_boolean False),
   (''inferred_spans_reduction_enabled'', Val_boolean True),
   (''inferred_spans_stacktrace_enabled'', Val_boolean True),
   (''inferred_spans_sampling_interval'', Val_duration 50),
   (''inferred_spans_min_duration'', Val_duration 0),
   (''dependency_autoloader_guard_enabled'', Val_boolean False),
   (''opentelemetry_extension_emulation_enabled'', Val_boolean True),
   (''native_otlp_serializer_enabled'', Val_boolean True),
   (''user_bootstrap_php_file'', Val_string []),
   (''opamp_headers'', Val_string []),
   (''opamp_endpoint'', Val_string []),
   (''opamp_heartbeat_interval'', Val_duration (30 * 1000)),
   (''opamp_polling_interval'', Val_duration (30 * 1000)),
   (''opamp_send_timeout'', Val_duration (10 * 1000)),
   (''opamp_send_max_retries'', Val_bytes 3),
   (''opamp_send_retry_delay'', Val_duration (10 * 1000)),
   (''opamp_insecure'', Val_boolean False),
   (''opamp_certificate'', Val_string []),
   (''opamp_client_certificate'', Val_string []),
   (''opamp_client_keypass'', Val_string []),
   (''opamp_client_key'', Val_string []),
   (''OTEL_EXPORTER_OTLP_INSECURE'', Val_boolean False),
   (''OTEL_EXPORTER_OTLP_CERTIFICATE'', Val_string []),
   (''OTEL_EXPORTER_OTLP_CLIENT_CERTIFICATE'', Val_string []),
   (''OTEL_EXPORTER_OTLP_CLIENT_KEY'', Val_string []),
   (''OTEL_EXPORTER_OTLP_CLIENT_KEYPASS'', Val_string []),
   (''OTEL_EXPORTER_OTLP_TRACES_INSECURE'', Val_boolean False),
   (''OTEL_EXPORTER_OTLP_TRACES_CERTIFICATE'', Val_string []),
   (''OTEL_EXPORTER_OTLP_TRACES_CLIENT_CERTIFICATE'', Val_string []),
   (''OTEL_EXPORTER_OTLP_TRACES_CLIENT_KEY'', Val_string []),
   (''OTEL_EXPORTER_OTLP_TRACES_CLIENT_KEYPASS'', Val_string []),
   (''OTEL_EXPORTER_OTLP_METRICS_INSECURE'', Val_boolean False),
   (''OTEL_EXPORTER_OTLP_METRICS_CERTIFICATE'', Val_string []),
   (''OTEL_EXPORTER_OTLP_METRICS_CLIENT_CERTIFICATE'', Val_string []),
   (''OTEL_EXPORTER_OTLP_METRICS_CLIENT_KEY'', Val_string []),
   (''OTEL_EXPORTER_OTLP_METRICS_CLIENT_KEYPASS'', Val_string []),
   (''OTEL_EXPORTER_OTLP_LOGS_INSECURE'', Val_boolean False),
   (''OTEL_EXPORTER_OTLP_LOGS_CERTIFICATE'', Val_string []),
   (''OTEL_EXPORTER_OTLP_LOGS_CLIENT_CERTIFICATE'', Val_string []),
   (''OTEL_EXPORTER_OTLP_LOGS_CLIENT_KEY'', Val_string []),
   (''OTEL_EXPORTER_OTLP_LOGS_CLIENT_KEYPASS'', Val_string []),
   (''OTEL_EXPORTER_OTLP_ENDPOINT'', Val_string []),
   (''OTEL_EXPORTER_OTLP_TRACES_ENDPOINT'', Val_string []),
   (''OTEL_EXPORTER_OTLP_METRICS_ENDPOINT'', Val_string []),
   (''OTEL_EXPORTER_OTLP_LOGS_ENDPOINT'', Val_string [])]"

definition default_snapshot :: ConfigurationSnapshot where
  "default_snapshot = \<lparr>members = map_of snapshot_defaults, revision = 0, remoteConfigFiles = Map.empty\<rparr>"

subsection \<open>The option table\<close>

record OptionMetadata =
  option_type :: option_type
  offset :: string
  secret :: bool
  otelNativeOption :: bool

definition option_metadata :: "option_type \<Rightarrow> string \<Rightarrow> bool \<Rightarrow> bool \<Rightarrow> OptionMetadata" where
  "option_metadata ty off sec native =
     \<lparr>option_type = ty, offset = off, secret = sec, otelNativeOption = native\<rparr>"

definition options_table :: "(string \<times> OptionMetadata) list" where
  "options_table = [
   (''bootstrap_php_part_file'', option_metadata Type_string ''bootstrap_php_part_file'' False False),
   (''enabled'', option_metadata Type_boolean ''enabled'' False False),
   (''log_file'', option_metadata Type_string ''log_file'' False False),
   (''log_level'', option_metadata Type_loglevel ''log_level'' False False),
   (''log_level_file'', option_metadata Type_loglevel ''log_level_file'' False False),
   (''log_level_stderr'', option_metadata Type_loglevel ''log_level_stderr'' False False),
   (''log_level_syslog'', option_metadata Type_loglevel ''log_level_syslog'' False False),
   (''log_features'', option_metadata Type_string ''log_features'' False False),
   (''debug_diagnostic_file'', option_metadata Type_string ''debug_diagnostic_file'' False False),
   (''max_send_queue_size'', option_metadata Type_bytes ''max_send_queue_size'' False False),
   (''async_transport'', option_metadata Type_boolean ''async_transport'' False False),
   (''async_transport_shutdown_timeout'', option_metadata Type_duration ''async_transport_shutdown_timeout'' False False),
   (''debug_instrument_all'', option_metadata Type_boolean ''debug_instrument_all'' False False),
   (''debug_php_hooks_enabled'', option_metadata Type_boolean ''debug_php_hooks_enabled'' False False),
   (''attr_hooks_enabled'', option_metadata Type_boolean ''attr_hooks_enabled'' False False),
   (''scoped_deps_enabled'', option_metadata Type_boolean ''scoped_deps_enabled'' False False),
   (''inferred_spans_enabled'', option_metadata Type_boolean ''inferred_spans_enabled'' False False),
   (''inferred_spans_reduction_enabled'', option_metadata Type_boolean ''inferred_spans_reduction_enabled'' False False),
   (''inferred_spans_stacktrace_enabled'', option_metadata Type_boolean ''inferred_spans_stacktrace_enabled'' False False),
   (''inferred_spans_sampling_interval'', option_metadata Type_duration ''inferred_spans_sampling_interval'' False False),
   (''inferred_spans_min_duration'', option_metadata Type_duration ''inferred_spans_min_duration'' False False),
   (''dependency_autoloader_guard_enabled'', option_metadata Type_boolean ''dependency_autoloader_guard_enabled'' False False),
   (''user_bootstrap_php_file'', option_metadata Type_string ''user_bootstrap_php_file'' False False),
   (''opentelemetry_extension_emulation_enabled'', option_metadata Type_boolean ''opentelemetry_extension_emulation_enabled'' False False),
   (''native_otlp_serializer_enabled'', option_metadata Type_boolean ''native_otlp_serializer_enabled'' False False),
   (''opamp_headers'', option_metadata Type_string ''opamp_headers'' False False),
   (''opamp_endpoint'', option_metadata Type_string ''opamp_endpoint'' False False),
   (''opamp_heartbeat_interval'', option_metadata Type_duration ''opamp_heartbeat_interval'' False False),
   (''opamp_polling_interval'', option_metadata Type_duration ''opamp_polling_interval'' False False),
   (''opamp_send_timeout'', option_metadata Type_duration ''opamp_send_timeout'' False False),
   (''opamp_send_max_retries'', option_metadata Type_bytes ''opamp_send_max_retries'' False False),
   (''opamp_send_retry_delay'', option_metadata Type_duration ''opamp_send_retry_delay'' False False),
   (''opamp_insecure'', option_metadata Type_boolean ''opamp_insecure'' False False),
   (''opamp_certificate'', option_metadata Type_string ''opamp_certificate'' False False),
   (''opamp_client_certificate'', option_metadata Type_string ''opamp_client_certificate'' False False),
   (''opamp_client_key'', option_metadata Type_string ''opamp_client_key'' False False),
   (''opamp_client_keypass'', option_metadata Type_string ''opamp_client_keypass'' True False),
   (''OTEL_EXPORTER_OTLP_INSECURE'', option_metadata Type_boolean ''OTEL_EXPORTER_OTLP_INSECURE'' False True),
   (''OTEL_EXPORTER_OTLP_CERTIFICATE'', option_metadata Type_string ''OTEL_EXPORTER_OTLP_CERTIFICATE'' False True),
   (''OTEL_EXPORTER_OTLP_CLIENT_CERTIFICATE'', option_metadata Type_string ''OTEL_EXPORTER_OTLP_CLIENT_CERTIFICATE'' False True),
   (''OTEL_EXPORTER_OTLP_CLIENT_KEY'', option_metadata Type_string ''OTEL_EXPORTER_OTLP_CLIENT_KEY'' False True),
   (''OTEL_EXPORTER_OTLP_CLIENT_KEYPASS'', option_metadata Type_string ''OTEL_EXPORTER_OTLP_CLIENT_KEYPASS'' True True),
   (''OTEL_EXPORTER_OTLP_TRACES_INSECURE'', option_metadata Type_boolean ''OTEL_EXPORTER_OTLP_TRACES_INSECURE'' False True),
   (''OTEL_EXPORTER_OTLP_TRACES_CERTIFICATE'', option_metadata Type_string ''OTEL_EXPORTER_OTLP_TRACES_CERTIFICATE'' False True),
   (''OTEL_EXPORTER_OTLP_TRACES_CLIENT_CERTIFICATE'', option_metadata Type_string ''OTEL_EXPORTER_OTLP_TRACES_CLIENT_CERTIFICATE'' False True),
   (''OTEL_EXPORTER_OTLP_TRACES_CLIENT_KEY'', option_metadata Type_string ''OTEL_EXPORTER_OTLP_TRACES_CLIENT_KEY'' False True),
   (''OTEL_EXPORTER_OTLP_TRACES_CLIENT_KEYPASS'', option_metadata Type_string ''OTEL_EXPORTER_OTLP_TRACES_CLIENT_KEYPASS'' True True),
   (''OTEL_EXPORTER_OTLP_METRICS_INSECURE'', option_metadata Type_boolean ''OTEL_EXPORTER_OTLP_METRICS_INSECURE'' False True),
   (''OTEL_EXPORTER_OTLP_METRICS_CERTIFICATE'', option_metadata Type_string ''OTEL_EXPORTER_OTLP_METRICS_CERTIFICATE'' False True),
   (''OTEL_EXPORTER_OTLP_METRICS_CLIENT_CERTIFICATE'', option_metadata Type_string ''OTEL_EXPORTER_OTLP_METRICS_CLIENT_CERTIFICATE'' False True),
   (''OTEL_EXPORTER_OTLP_METRICS_CLIENT_KEY'', option_metadata Type_string ''OTEL_EXPORTER_OTLP_METRICS_CLIENT_KEY'' False True),
   (''OTEL_EXPORTER_OTLP_METRICS_CLIENT_KEYPASS'', option_metadata Type_string ''OTEL_EXPORTER_OTLP_METRICS_CLIENT_KEYPASS'' True True),
   (''OTEL_EXPORTER_OTLP_LOGS_INSECURE'', option_metadata Type_boolean ''OTEL_EXPORTER_OTLP_LOGS_INSECURE'' False True),
   (''OTEL_EXPORTER_OTLP_LOGS_CERTIFICATE'', option_metadata Type_string ''OTEL_EXPORTER_OTLP_LOGS_CERTIFICATE'' False True),
   (''OTEL_EXPORTER_OTLP_LOGS_CLIENT_CERTIFICATE'', option_metadata Type_string ''OTEL_EXPORTER_OTLP_LOGS_CLIENT_CERTIFICATE'' False True),
   (''OTEL_EXPORTER_OTLP_LOGS_CLIENT_KEY'', option_metadata Type_string ''OTEL_EXPORTER_OTLP_LOGS_CLIENT_KEY'' False True),
   (''OTEL_EXPORTER_OTLP_LOGS_CLIENT_KEYPASS'', option_metadata Type_string ''OTEL_EXPORTER_OTLP_LOGS_CLIENT_KEYPASS'' True True),
   (''OTEL_EXPORTER_OTLP_ENDPOINT'', option_metadata Type_string ''OTEL_EXPORTER_OTLP_ENDPOINT'' False True),
   (''OTEL_EXPORTER_OTLP_TRACES_ENDPOINT'', option_metadata Type_string ''OTEL_EXPORTER_OTLP_TRACES_ENDPOINT'' False True),
   (''OTEL_EXPORTER_OTLP_METRICS_ENDPOINT'', option_metadata Type_string ''OTEL_EXPORTER_OTLP_METRICS_ENDPOINT'' False True),
   (''OTEL_EXPORTER_OTLP_LOGS_ENDPOINT'', option_metadata Type_string ''OTEL_EXPORTER_OTLP_LOGS_ENDPOINT'' False True)]"

text \<open>\<open>options_\<close> is a \<open>std::map\<close>: it is traversed in the order of its keys.\<close>

definition config_options :: "(string \<times> OptionMetadata) list" where
  "config_options = sort_key fst options_table"

subsection \<open>Reading members\<close>

definition read_member :: "OptionMetadata \<Rightarrow> ConfigurationSnapshot \<Rightarrow> optionValue result" where
  "read_member md snapshot =
     (case members snapshot (offset md) of
        Some v \<Rightarrow> if type_of_value v = option_type md then Inr v else Inl (Undefined_Behaviour ''member type'')
      | None \<Rightarrow> Inl (Undefined_Behaviour ''no member''))"

fun value_to_string :: "optionValue \<Rightarrow> string" where
  "value_to_string (Val_string s) = s"
| "value_to_string (Val_boolean b) = (if b then ''true'' else ''false'')"
| "value_to_string (Val_duration d) = int_to_string d"
| "value_to_string (Val_loglevel l) = trim (getLogLevelName l)"
| "value_to_string (Val_bytes n) = nat_to_string (unat n)"

definition accessOptionStringValueByMetadata :: "OptionMetadata \<Rightarrow> ConfigurationSnapshot \<Rightarrow> string result" where
  "accessOptionStringValueByMetadata md snapshot =
     bind_result (read_member md snapshot) (\<lambda>v. Inr (value_to_string v))"

definition getOptionValue :: "string \<Rightarrow> ConfigurationSnapshot \<Rightarrow> optionValue option result" where
  "getOptionValue optionName snapshot =
     (case map_of config_options optionName of
        None \<Rightarrow> Inr None
      | Some md \<Rightarrow> bind_result (read_member md snapshot) (\<lambda>v. Inr (Some v)))"

subsection \<open>Option value providers\<close>

text \<open>What the process offers to a provider: its environment and the PHP INI directives.\<close>

record world =
  getenv :: "string \<Rightarrow> string option"
  readIniValue :: "string \<Rightarrow> string option"

text \<open>
  An object of a class that implements \<open>OptionValueProviderInterface\<close>: what its three
  getters answer, and what it becomes when it is told new configuration files.
\<close>

codatatype provider = Provider
  (getEnvironmentOptionValue: "world \<Rightarrow> string \<Rightarrow> string option")
  (getIniOptionValue: "world \<Rightarrow> string \<Rightarrow> string option")
  (getDynamicOptionValue: "world \<Rightarrow> string \<Rightarrow> string option")
  (provider_update: "configFiles \<Rightarrow> provider")

primcorec OptionValueProvider :: provider where
  "getEnvironmentOptionValue OptionValueProvider = (\<lambda>w name. getenv w (c_str name))"
| "getIniOptionValue OptionValueProvider = (\<lambda>w name. readIniValue w name)"
| "getDynamicOptionValue OptionValueProvider = (\<lambda>w name. None)"
| "provider_update OptionValueProvider = (\<lambda>_. OptionValueProvider)"

type_synonym prioritized = "(int \<times> provider) list"

fun first_value :: "(provider \<Rightarrow> string option) \<Rightarrow> prioritized \<Rightarrow> string option" where
  "first_value get [] = None"
| "first_value get (p # ps) = (case get (snd p) of Some v \<Rightarrow> Some v | None \<Rightarrow> first_value get ps)"

primcorec provider_chain :: "prioritized \<Rightarrow> provider" where
  "getEnvironmentOptionValue (provider_chain ps) =
     (\<lambda>w name. first_value (\<lambda>p. getEnvironmentOptionValue p w name) ps)"
| "getIniOptionValue (provider_chain ps) =
     (\<lambda>w name. first_value (\<lambda>p. getIniOptionValue p w name) ps)"
| "getDynamicOptionValue (provider_chain ps) =
     (\<lambda>w name. first_value (\<lambda>p. getDynamicOptionValue p w name) ps)"
| "provider_update (provider_chain ps) =
     (\<lambda>cf. provider_chain (map (\<lambda>p. (fst p, provider_update (snd p) cf)) ps))"

text \<open>
  The constructor drops null pointers and sorts by descending priority. \<open>std::sort\<close> does
  not say how equal priorities end up; the sort is an argument.
\<close>

definition PrioritizedOptionValueProviderChain ::
    "(prioritized \<Rightarrow> prioritized) \<Rightarrow> (int \<times> provider option) list \<Rightarrow> provider" where
  "PrioritizedOptionValueProviderChain std_sort providers =
     provider_chain (std_sort (List.map_filter (\<lambda>(prio, p). map_option (Pair prio) p) providers))"

subsection \<open>The manager\<close>

record ConfigurationManager =
  upcomingConfigRevision :: "64 word"
  current :: ConfigurationSnapshot
  optionValueProvider :: provider

definition getNextRevision :: "ConfigurationManager \<Rightarrow> 64 word \<times> ConfigurationManager" where
  "getNextRevision m =
     (let r = upcomingConfigRevision m + 1 in (r, m\<lparr>upcomingConfigRevision := r\<rparr>))"

definition ConfigurationManager_ctor :: "provider \<Rightarrow> ConfigurationManager" where
  "ConfigurationManager_ctor p =
     (let (r, m) = getNextRevision
            \<lparr>upcomingConfigRevision = 0, current = default_snapshot, optionValueProvider = p\<rparr>
      in m\<lparr>current := (current m)\<lparr>revision := r\<rparr>\<rparr>)"

definition fetchStringValue :: "world \<Rightarrow> provider \<Rightarrow> string \<Rightarrow> bool \<Rightarrow> string option" where
  "fetchStringValue w p name isOtelNativeOption =
     (case getDynamicOptionValue p w name of
        Some v \<Rightarrow> Some v
      | None \<Rightarrow>
          (case getIniOptionValue p w (if isOtelNativeOption then name else getIniName name) of
             Some v \<Rightarrow> Some v
           | None \<Rightarrow>
               getEnvironmentOptionValue p w
                 (if isOtelNativeOption then c_str name else c_str (getEnvName name))))"

fun parse_value :: "option_type \<Rightarrow> string \<Rightarrow> optionValue result" where
  "parse_value Type_string s = Inr (Val_string s)"
| "parse_value Type_boolean s = Inr (Val_boolean (parseBoolean s))"
| "parse_value Type_duration s = bind_result (convertDurationWithUnit s) (\<lambda>d. Inr (Val_duration d))"
| "parse_value Type_loglevel s = bind_result (parseLogLevel s) (\<lambda>l. Inr (Val_loglevel l))"
| "parse_value Type_bytes s = bind_result (parseByteUnits s) (\<lambda>n. Inr (Val_bytes n))"

definition write_member :: "OptionMetadata \<Rightarrow> optionValue \<Rightarrow> ConfigurationSnapshot \<Rightarrow> ConfigurationSnapshot result" where
  "write_member md v snapshot =
     bind_result (read_member md snapshot) (\<lambda>_.
       Inr (snapshot\<lparr>members := (members snapshot)(offset md \<mapsto> v)\<rparr>))"

text \<open>One turn of the loop of \<open>update\<close>; only \<open>std::invalid_argument\<close> is caught.\<close>

definition update_option ::
    "world \<Rightarrow> provider \<Rightarrow> string \<times> OptionMetadata \<Rightarrow> ConfigurationSnapshot \<Rightarrow> ConfigurationSnapshot result" where
  "update_option w p entry newConfig =
     (case fetchStringValue w p (fst entry) (otelNativeOption (snd entry)) of
        None \<Rightarrow> Inr newConfig
      | Some optionValue \<Rightarrow>
          (case parse_value (option_type (snd entry)) optionValue of
             Inl (Invalid_Argument _) \<Rightarrow> Inr newConfig
           | Inl e \<Rightarrow> Inl e
           | Inr v \<Rightarrow> write_member (snd entry) v newConfig))"

fun update_options ::
    "world \<Rightarrow> provider \<Rightarrow> (string \<times> OptionMetadata) list \<Rightarrow> ConfigurationSnapshot \<Rightarrow> ConfigurationSnapshot result" where
  "update_options w p [] newConfig = Inr newConfig"
| "update_options w p (entry # entries) newConfig =
     bind_result (update_option w p entry newConfig) (update_options w p entries)"

text \<open>
  \<open>update\<close> returns the new manager and whether it returned or an exception left it;
  then \<open>current\<close> is still the old snapshot.
\<close>

definition manager_update :: "world \<Rightarrow> configFiles \<Rightarrow> ConfigurationManager \<Rightarrow> unit result \<times> ConfigurationManager" where
  "manager_update w configFiles m =
     (let (r, m1) = getNextRevision m;
          newConfig = default_snapshot\<lparr>revision := r, remoteConfigFiles := configFiles\<rparr>;
          p = provider_update (optionValueProvider m1) configFiles;
          m2 = m1\<lparr>optionValueProvider := p\<rparr>
      in case update_options w p config_options newConfig of
           Inl e \<Rightarrow> (Inl e, m2)
         | Inr c \<Rightarrow> (Inr (), m2\<lparr>current := c\<rparr>))"

definition updateIfChanged :: "ConfigurationManager \<Rightarrow> ConfigurationSnapshot \<Rightarrow> bool \<times> ConfigurationSnapshot" where
  "updateIfChanged m snapshot =
     (if revision snapshot \<noteq> revision (current m) then (True, current m) else (False, snapshot))"

subsection \<open>The storage of a worker\<close>

text \<open>
  The watchers are the slots of a Boost signal, called in the order they were connected;
  a slot is a number, its connection the number it was given.
\<close>

record ConfigurationStorage =
  config :: ConfigurationSnapshot
  watchers :: "nat list"
  next_watcher :: nat

definition ConfigurationStorage_ctor :: ConfigurationStorage where
  "ConfigurationStorage_ctor = \<lparr>config = default_snapshot, watchers = [], next_watcher = 0\<rparr>"

text \<open>Also returns the calls made: which watcher is told which snapshot.\<close>

definition storage_update ::
    "(ConfigurationSnapshot \<Rightarrow> bool \<times> ConfigurationSnapshot) \<Rightarrow> ConfigurationStorage
       \<Rightarrow> (nat \<times> ConfigurationSnapshot) list \<times> ConfigurationStorage" where
  "storage_update configUpdate s =
     (let (changed, c) = configUpdate (config s)
      in (if changed then map (\<lambda>i. (i, c)) (watchers s) else [], s\<lparr>config := c\<rparr>))"

definition addConfigUpdateWatcher :: "ConfigurationStorage \<Rightarrow> nat \<times> ConfigurationStorage" where
  "addConfigUpdateWatcher s =
     (next_watcher s, s\<lparr>watchers := watchers s @ [next_watcher s], next_watcher := Suc (next_watcher s)\<rparr>)"

definition removeConfigUpdateWatcher :: "nat \<Rightarrow> ConfigurationStorage \<Rightarrow> ConfigurationStorage" where
  "removeConfigUpdateWatcher i s = s\<lparr>watchers := filter (\<lambda>j. j \<noteq> i) (watchers s)\<rparr>"

definition removeAllConfigUpdateWatchers :: "ConfigurationStorage \<Rightarrow> ConfigurationStorage" where
  "removeAllConfigUpdateWatchers s = s\<lparr>watchers := []\<rparr>"

subsection \<open>The table fits the snapshot\<close>

definition entry_ok :: "string \<times> OptionMetadata \<Rightarrow> bool" where
  "entry_ok entry = (offset (snd entry) = fst entry
     \<and> (case map_of snapshot_defaults (fst entry) of
          Some v \<Rightarrow> type_of_value v = option_type (snd entry) | None \<Rightarrow> False))"

lemma options_table_ok: "list_all entry_ok options_table"
  by code_simp

lemma options_table_distinct: "distinct (map fst options_table)"
  by (simp add: options_table_def)

lemma set_config_options [simp]: "set config_options = set options_table"
  by (simp add: config_options_def)

lemma distinct_config_options: "distinct (map fst config_options)"
proof -
  have "mset (map fst config_options) = mset (map fst options_table)"
    by (simp add: config_options_def)
  then show ?thesis
    using options_table_distinct mset_eq_imp_distinct_iff by blast
qed

lemma map_of_config_options: "map_of config_options = map_of options_table"
  using distinct_config_options options_table_distinct
  by (metis map_of_eqI map_of_inject_set set_config_options)

definition wt_entry :: "ConfigurationSnapshot \<Rightarrow> string \<times> OptionMetadata \<Rightarrow> bool" where
  "wt_entry c entry = (offset (snd entry) = fst entry
     \<and> (\<exists>v. members c (fst entry) = Some v \<and> type_of_value v = option_type (snd entry)))"

definition wt_snapshot :: "ConfigurationSnapshot \<Rightarrow> bool" where
  "wt_snapshot c = list_all (wt_entry c) options_table"

lemma wt_default: "wt_snapshot (default_snapshot\<lparr>revision := r, remoteConfigFiles := cf\<rparr>)"
  using options_table_ok
  by (auto simp: wt_snapshot_def wt_entry_def entry_ok_def default_snapshot_def list_all_iff split: option.splits)

lemma parse_value_type: "parse_value ty s = Inr v \<Longrightarrow> type_of_value v = ty"
  by (cases ty) (auto simp: bind_result_Inr_iff)

lemma wt_read_member: "wt_entry c entry \<Longrightarrow> read_member (snd entry) c = Inr (the (members c (fst entry)))"
  by (auto simp: wt_entry_def read_member_def)

subsection \<open>What an update computes\<close>

text \<open>The value the sources give an option, if they give one that parses.\<close>

definition configured :: "world \<Rightarrow> provider \<Rightarrow> string \<times> OptionMetadata \<Rightarrow> optionValue option" where
  "configured w p entry =
     (case fetchStringValue w p (fst entry) (otelNativeOption (snd entry)) of
        None \<Rightarrow> None
      | Some s \<Rightarrow> (case parse_value (option_type (snd entry)) s of Inr v \<Rightarrow> Some v | Inl _ \<Rightarrow> None))"

text \<open>The text of an option makes its parser fail with another exception than \<open>invalid_argument\<close>.\<close>

definition escapes :: "world \<Rightarrow> provider \<Rightarrow> string \<times> OptionMetadata \<Rightarrow> bool" where
  "escapes w p entry =
     (case fetchStringValue w p (fst entry) (otelNativeOption (snd entry)) of
        None \<Rightarrow> False
      | Some s \<Rightarrow> (case parse_value (option_type (snd entry)) s of
                     Inl (Invalid_Argument _) \<Rightarrow> False | Inl _ \<Rightarrow> True | Inr _ \<Rightarrow> False))"

lemma update_option_eq:
  assumes "wt_entry c entry"
  shows "if escapes w p entry then \<not> is_ok (update_option w p entry c)
         else update_option w p entry c = Inr (case configured w p entry of
           None \<Rightarrow> c | Some v \<Rightarrow> c\<lparr>members := (members c)(fst entry \<mapsto> v)\<rparr>)"
  using assms wt_read_member [OF assms]
  by (auto simp: update_option_def escapes_def configured_def write_member_def wt_entry_def
      split: option.split sum.split cpp_exception.split)

lemma wt_entry_update:
  "wt_entry c e \<Longrightarrow> fst e \<noteq> n \<Longrightarrow> wt_entry (c\<lparr>members := (members c)(n \<mapsto> v)\<rparr>) e"
  by (simp add: wt_entry_def)

lemma wt_entries_update:
  "list_all (wt_entry c) es \<Longrightarrow> n \<notin> set (map fst es)
     \<Longrightarrow> list_all (wt_entry (c\<lparr>members := (members c)(n \<mapsto> v)\<rparr>)) es"
  by (induction es) (auto intro: wt_entry_update)

lemma update_options_eq:
  assumes "distinct (map fst es)" "list_all (wt_entry c) es"
  shows "if list_ex (escapes w p) es then \<not> is_ok (update_options w p es c)
         else update_options w p es c =
           Inr (c\<lparr>members := members c ++ (\<lambda>n. Option.bind (map_of es n) (\<lambda>md. configured w p (n, md)))\<rparr>)"
  using assms
proof (induction es arbitrary: c)
  case Nil
  have "(\<lambda>n. None) = Map.empty" by simp
  then show ?case by simp
next
  case (Cons e es)
  then have wt: "wt_entry c e" and tl: "list_all (wt_entry c) es" and d: "distinct (map fst es)"
    and new: "fst e \<notin> set (map fst es)" by auto
  show ?case
  proof (cases "escapes w p e")
    case True
    then show ?thesis using update_option_eq [OF wt, of w p] by (auto simp: is_ok_def split: sum.splits)
  next
    case False
    let ?c = "case configured w p e of None \<Rightarrow> c | Some v \<Rightarrow> c\<lparr>members := (members c)(fst e \<mapsto> v)\<rparr>"
    have step: "update_option w p e c = Inr ?c" using update_option_eq [OF wt, of w p] False by simp
    have "list_all (wt_entry ?c) es"
      using tl wt_entries_update [OF tl new] by (cases "configured w p e") simp_all
    note IH = Cons.IH [OF d this]
    have none: "map_of es (fst e) = None" using new by (simp add: map_of_eq_None_iff)
    have eq: "members ?c ++ (\<lambda>n. Option.bind (map_of es n) (\<lambda>md. configured w p (n, md)))
        = members c ++ (\<lambda>n. Option.bind (map_of (e # es) n) (\<lambda>md. configured w p (n, md)))"
    proof
      fix n
      show "(members ?c ++ (\<lambda>n. Option.bind (map_of es n) (\<lambda>md. configured w p (n, md)))) n
        = (members c ++ (\<lambda>n. Option.bind (map_of (e # es) n) (\<lambda>md. configured w p (n, md)))) n"
        using none by (cases "n = fst e"; cases "configured w p e") (simp_all add: map_add_def split: option.split)
    qed
    have "?c\<lparr>members := x\<rparr> = c\<lparr>members := x\<rparr>" for x by (cases "configured w p e") simp_all
    with IH have "if list_ex (escapes w p) es then \<not> is_ok (update_options w p es ?c)
        else update_options w p es ?c = Inr (c\<lparr>members := members c ++
          (\<lambda>n. Option.bind (map_of (e # es) n) (\<lambda>md. configured w p (n, md)))\<rparr>)"
      by (simp only: eq)
    moreover have "list_ex (escapes w p) (e # es) = list_ex (escapes w p) es" using False by simp
    ultimately show ?thesis
      by (simp only: update_options.simps step bind_result_simps)
  qed
qed

lemma manager_update_eq:
  fixes w cf m
  defines "p \<equiv> provider_update (optionValueProvider m) cf"
    and "m' \<equiv> snd (manager_update w cf m)"
  shows "upcomingConfigRevision m' = upcomingConfigRevision m + 1"
    "optionValueProvider m' = p"
    "if list_ex (escapes w p) options_table
     then \<not> is_ok (fst (manager_update w cf m)) \<and> current m' = current m
     else is_ok (fst (manager_update w cf m)) \<and> current m' =
       \<lparr>members = map_of snapshot_defaults
          ++ (\<lambda>n. Option.bind (map_of options_table n) (\<lambda>md. configured w p (n, md))),
        revision = upcomingConfigRevision m + 1, remoteConfigFiles = cf\<rparr>"
proof -
  let ?c = "default_snapshot\<lparr>revision := upcomingConfigRevision m + 1, remoteConfigFiles := cf\<rparr>"
  have "list_all (wt_entry ?c) config_options"
    using wt_default by (simp add: wt_snapshot_def list_all_iff)
  from update_options_eq [OF distinct_config_options this, of w p]
  have upd: "if list_ex (escapes w p) options_table then \<not> is_ok (update_options w p config_options ?c)
    else update_options w p config_options ?c = Inr (?c\<lparr>members := members ?c
      ++ (\<lambda>n. Option.bind (map_of options_table n) (\<lambda>md. configured w p (n, md)))\<rparr>)"
    by (simp add: list_ex_iff map_of_config_options)
  show "upcomingConfigRevision m' = upcomingConfigRevision m + 1" "optionValueProvider m' = p"
    by (simp_all add: m'_def p_def manager_update_def getNextRevision_def Let_def split: sum.split)
  show "if list_ex (escapes w p) options_table
     then \<not> is_ok (fst (manager_update w cf m)) \<and> current m' = current m
     else is_ok (fst (manager_update w cf m)) \<and> current m' =
       \<lparr>members = map_of snapshot_defaults
          ++ (\<lambda>n. Option.bind (map_of options_table n) (\<lambda>md. configured w p (n, md))),
        revision = upcomingConfigRevision m + 1, remoteConfigFiles = cf\<rparr>"
    using upd
    by (auto simp: m'_def p_def manager_update_def getNextRevision_def Let_def default_snapshot_def
        is_ok_def split: sum.split if_splits)
qed


subsection \<open>Snapshots are well typed\<close>

lemma wt_configured:
  "wt_snapshot \<lparr>members = map_of snapshot_defaults
     ++ (\<lambda>n. Option.bind (map_of options_table n) (\<lambda>md. configured w p (n, md))),
     revision = r, remoteConfigFiles = cf\<rparr>"
proof -
  have "wt_entry \<lparr>members = map_of snapshot_defaults
     ++ (\<lambda>n. Option.bind (map_of options_table n) (\<lambda>md. configured w p (n, md))),
     revision = r, remoteConfigFiles = cf\<rparr> e" if e: "e \<in> set options_table" for e
  proof -
    have md: "map_of options_table (fst e) = Some (snd e)"
      using e options_table_distinct by simp
    have "wt_entry default_snapshot e"
      using wt_default [where r = "revision default_snapshot" and cf = "remoteConfigFiles default_snapshot"] e
      by (simp add: wt_snapshot_def list_all_iff)
    moreover have "type_of_value v = option_type (snd e)" if "configured w p e = Some v" for v
      using that parse_value_type by (auto simp: configured_def split: option.splits sum.splits)
    ultimately show ?thesis
      using md by (cases "configured w p e") (auto simp: wt_entry_def default_snapshot_def map_add_def)
  qed
  then show ?thesis by (simp add: wt_snapshot_def list_all_iff)
qed

lemma wt_manager_update [inv_intros]:
  "wt_snapshot (current m) \<Longrightarrow> wt_snapshot (current (snd (manager_update w cf m)))"
  using manager_update_eq(3) [where m = m and w = w and cf = cf] wt_configured by (auto split: if_splits)

lemma wt_ctor: "wt_snapshot (current (ConfigurationManager_ctor p))"
  using wt_default [where r = "0 + 1" and cf = Map.empty]
  by (simp add: ConfigurationManager_ctor_def getNextRevision_def Let_def default_snapshot_def)

lemma getOptionValue_wt:
  assumes "wt_snapshot c"
  shows "getOptionValue n c = Inr (Option.bind (map_of options_table n) (\<lambda>_. members c n))"
proof (cases "map_of options_table n")
  case None
  then show ?thesis by (simp add: getOptionValue_def map_of_config_options)
next
  case (Some md)
  then have "wt_entry c (n, md)"
    using assms map_of_SomeD by (fastforce simp: wt_snapshot_def list_all_iff)
  with Some wt_read_member [of c "(n, md)"] show ?thesis
    by (auto simp: getOptionValue_def map_of_config_options wt_entry_def)
qed

subsection \<open>The source of a storage\<close>

text \<open>
  What \<open>ConfigurationStorage\<close> relies on: its update function hands out the published
  snapshot when the revisions differ and leaves the caller's copy alone otherwise.
\<close>

locale config_source =
  fixes fetch :: "'src \<Rightarrow> ConfigurationSnapshot \<Rightarrow> bool \<times> ConfigurationSnapshot"
    and published :: "'src \<Rightarrow> ConfigurationSnapshot"
  assumes fetch_changed: "revision c \<noteq> revision (published src) \<Longrightarrow> fetch src c = (True, published src)"
    and fetch_same: "revision c = revision (published src) \<Longrightarrow> fetch src c = (False, c)"
begin

lemma refresh_revision: "revision (config (snd (storage_update (fetch src) s))) = revision (published src)"
  by (cases "revision (config s) = revision (published src)")
    (simp_all add: storage_update_def fetch_changed fetch_same)

lemma refresh_config:
  "config (snd (storage_update (fetch src) s)) =
     (if revision (config s) = revision (published src) then config s else published src)"
  by (cases "revision (config s) = revision (published src)")
    (simp_all add: storage_update_def fetch_changed fetch_same)

lemma refresh_calls:
  "fst (storage_update (fetch src) s) =
     (if revision (config s) = revision (published src) then []
      else map (\<lambda>i. (i, published src)) (watchers s))"
  by (cases "revision (config s) = revision (published src)")
    (simp_all add: storage_update_def fetch_changed fetch_same)

lemma refresh_twice_silent: "fst (storage_update (fetch src) (snd (storage_update (fetch src) s))) = []"
  using refresh_revision [of src s] by (simp add: refresh_calls)

end

interpretation manager: config_source updateIfChanged current
  by unfold_locales (simp_all add: updateIfChanged_def)

subsection \<open>Managers and storages over time\<close>

inductive config_step ::
    "ConfigurationManager \<times> ConfigurationStorage \<Rightarrow> ConfigurationManager \<times> ConfigurationStorage \<Rightarrow> bool" where
  publish: "config_step (m, s) (snd (manager_update w cf m), s)"
| refresh: "config_step (m, s) (m, snd (storage_update (updateIfChanged m) s))"
| watch: "config_step (m, s) (m, snd (addConfigUpdateWatcher s))"
| unwatch: "config_step (m, s) (m, removeConfigUpdateWatcher i s)"
| unwatch_all: "config_step (m, s) (m, removeAllConfigUpdateWatchers s)"

inductive config_run ::
    "provider \<Rightarrow> nat \<Rightarrow> ConfigurationManager \<times> ConfigurationStorage \<Rightarrow> bool" for p where
  start: "config_run p 0 (ConfigurationManager_ctor p, ConfigurationStorage_ctor)"
| step: "config_run p n x \<Longrightarrow> config_step x y \<Longrightarrow> config_run p (Suc n) y"

definition config_inv :: "nat \<Rightarrow> ConfigurationManager \<times> ConfigurationStorage \<Rightarrow> bool" where
  "config_inv n x = (case x of (m, s) \<Rightarrow>
     unat (upcomingConfigRevision m) \<le> Suc n
     \<and> unat (revision (current m)) \<le> unat (upcomingConfigRevision m)
     \<and> unat (revision (config s)) \<le> unat (revision (current m))
     \<and> (revision (config s) = revision (current m) \<longrightarrow> config s = current m)
     \<and> wt_snapshot (current m) \<and> wt_snapshot (config s))"

lemma config_inv_start: "config_inv 0 (ConfigurationManager_ctor p, ConfigurationStorage_ctor)"
  using wt_ctor [of p] wt_default [where r = "revision default_snapshot" and cf = "remoteConfigFiles default_snapshot"]
  by (simp add: config_inv_def ConfigurationManager_ctor_def ConfigurationStorage_ctor_def
      getNextRevision_def Let_def default_snapshot_def)

lemma revision_after_update:
  "current (snd (manager_update w cf m)) = current m
   \<or> revision (current (snd (manager_update w cf m))) = upcomingConfigRevision m + 1"
  using manager_update_eq(3) [where m = m and w = w and cf = cf] by (auto split: if_splits)

lemma config_inv_publish:
  assumes "config_inv n (m, s)" "n < 2 ^ 64 - 2"
  shows "config_inv (Suc n) (snd (manager_update w cf m), s)"
proof -
  let ?m = "snd (manager_update w cf m)"
  have u: "unat (upcomingConfigRevision m + 1) = unat (upcomingConfigRevision m) + 1"
    using assms by (simp add: config_inv_def unat_plus_if')
  from revision_after_update [of w cf m] show ?thesis
  proof
    assume "current ?m = current m"
    with assms u show ?thesis
      by (simp add: config_inv_def manager_update_eq(1))
  next
    assume new: "revision (current ?m) = upcomingConfigRevision m + 1"
    moreover have "revision (config s) \<noteq> upcomingConfigRevision m + 1"
      using assms u by (auto simp: config_inv_def)
    ultimately show ?thesis
      using assms u wt_manager_update [of m w cf] by (simp add: config_inv_def manager_update_eq(1))
  qed
qed

lemma config_inv_mono: "config_inv n x \<Longrightarrow> config_inv (Suc n) x"
  by (auto simp: config_inv_def)

lemma config_inv_step:
  assumes "config_step x y" "config_inv n x" "n < 2 ^ 64 - 2"
  shows "config_inv (Suc n) y"
  using assms
proof cases
  case (publish m s w cf)
  with assms show ?thesis by (simp add: config_inv_publish)
next
  case (refresh m s)
  with assms config_inv_mono [of n x] show ?thesis
    by (auto simp: config_inv_def manager.refresh_config)
next
  case (watch m s)
  with assms config_inv_mono [of n x] show ?thesis
    by (auto simp: config_inv_def addConfigUpdateWatcher_def)
next
  case (unwatch m s i)
  with assms config_inv_mono [of n x] show ?thesis
    by (auto simp: config_inv_def removeConfigUpdateWatcher_def)
next
  case (unwatch_all m s)
  with assms config_inv_mono [of n x] show ?thesis
    by (auto simp: config_inv_def removeAllConfigUpdateWatchers_def)
qed

lemma config_run_inv: "config_run p n x \<Longrightarrow> n < 2 ^ 64 - 1 \<Longrightarrow> config_inv n x"
  by (induction rule: config_run.induct) (auto intro: config_inv_start config_inv_step)

text \<open>
  C15. Whatever updates, refreshes and watcher changes went before, fewer than \<open>2 ^ 64 - 1\<close> of
  them: \<open>ConfigurationStorage::update\<close> leaves the worker with the manager's current
  snapshot, although it compares revisions only. Each watcher is told that snapshot if it
  is news, and a second call tells nobody anything.
\<close>

theorem storage_update_catches_up:
  assumes "config_run p n (m, s)" "n < 2 ^ 64 - 1"
  shows "(let (calls, s') = storage_update (updateIfChanged m) s
          in config s' = current m
             \<and> calls = (if config s = current m then [] else map (\<lambda>i. (i, current m)) (watchers s))
             \<and> storage_update (updateIfChanged m) s' = ([], s'))"
proof -
  have inv: "config_inv n (m, s)" using config_run_inv [OF assms] .
  then have eq: "config s = current m \<longleftrightarrow> revision (config s) = revision (current m)"
    by (auto simp: config_inv_def)
  have "config (snd (storage_update (updateIfChanged m) s)) = current m"
    using eq by (simp add: manager.refresh_config)
  then show ?thesis
    using eq by (auto simp: storage_update_def updateIfChanged_def)
qed

theorem storage_update_catches_up_witness:
  "(let m = ConfigurationManager_ctor OptionValueProvider;
        s = snd (addConfigUpdateWatcher ConfigurationStorage_ctor);
        (calls, s') = storage_update (updateIfChanged m) s
    in config s' = current m \<and> calls = [(0, current m)])"
proof -
  let ?m = "ConfigurationManager_ctor OptionValueProvider"
  let ?s = "snd (addConfigUpdateWatcher ConfigurationStorage_ctor)"
  have "config_run OptionValueProvider 1 (?m, ?s)"
    using config_run.step [OF config_run.start config_step.watch] by simp
  moreover have "config ?s \<noteq> current ?m" "watchers ?s = [0]"
    by (simp_all add: addConfigUpdateWatcher_def ConfigurationStorage_ctor_def
        ConfigurationManager_ctor_def getNextRevision_def Let_def default_snapshot_def)
  ultimately show ?thesis
    using storage_update_catches_up [of OptionValueProvider 1 ?m ?s] by (auto simp: Let_def)
qed

text \<open>
  C16. The casts through member offsets are always to the type of the member: in every
  reachable state each option of the table can be read from the worker's snapshot, by
  \<open>getOptionValue\<close> and as text, and holds a value of its declared type; a name that is not
  in the table reads as no value.
\<close>

theorem option_reads_are_well_typed:
  assumes "config_run p n (m, s)" "n < 2 ^ 64 - 1"
  shows "case map_of options_table name of
      None \<Rightarrow> getOptionValue name (config s) = Inr None
    | Some md \<Rightarrow> (\<exists>v. getOptionValue name (config s) = Inr (Some v) \<and> type_of_value v = option_type md
        \<and> accessOptionStringValueByMetadata md (config s) = Inr (value_to_string v))"
proof -
  have wt: "wt_snapshot (config s)" using config_run_inv [OF assms] by (simp add: config_inv_def)
  show ?thesis
  proof (cases "map_of options_table name")
    case None
    then show ?thesis by (simp add: getOptionValue_wt [OF wt])
  next
    case (Some md)
    then have "wt_entry (config s) (name, md)"
      using wt map_of_SomeD by (fastforce simp: wt_snapshot_def list_all_iff)
    with Some wt_read_member [of "config s" "(name, md)"] show ?thesis
      by (auto simp: getOptionValue_wt [OF wt] wt_entry_def accessOptionStringValueByMetadata_def)
  qed
qed

theorem option_reads_are_well_typed_witness:
  "case map_of options_table ''no_such_option'' of
      None \<Rightarrow> getOptionValue ''no_such_option'' (config ConfigurationStorage_ctor) = Inr None
    | Some md \<Rightarrow> (\<exists>v. getOptionValue ''no_such_option'' (config ConfigurationStorage_ctor) = Inr (Some v)
        \<and> type_of_value v = option_type md
        \<and> accessOptionStringValueByMetadata md (config ConfigurationStorage_ctor) = Inr (value_to_string v))"
  by (rule option_reads_are_well_typed [OF config_run.start [of OptionValueProvider]]) simp

subsection \<open>Values and their texts\<close>

lemma remove_spaces_digits: "\<forall>c \<in> set s. isdigit c \<Longrightarrow> remove_spaces s = s"
  by (auto simp: remove_spaces_def isdigit_not_space filter_id_conv)

lemma parseByteUnits_nat_to_string:
  assumes "n < 2 ^ 64"
  shows "parseByteUnits (nat_to_string n) = Inr (word_of_nat n)"
proof -
  have "takeWhile isdigit (nat_to_string n) = nat_to_string n" "dropWhile isdigit (nat_to_string n) = []"
    using nat_to_string_digits [of n] by simp_all
  moreover from this have "stoul (nat_to_string n) = Inr (word_of_nat n)"
    using assms stoul_digits [of "nat_to_string n"] by (simp del: takeWhile_eq_all_conv)
  ultimately show ?thesis
    by (simp add: parseByteUnits_alt remove_spaces_digits [OF nat_to_string_digits] byte_unit_factor_def
        del: dropWhile_eq_Nil_conv)
qed

lemma parse_value_to_string:
  assumes "case v of Val_duration d \<Rightarrow> 0 \<le> d \<and> d < 2 ^ 53 | _ \<Rightarrow> True"
  shows "parse_value (type_of_value v) (value_to_string v) = Inr v"
proof (cases v)
  case (Val_boolean b)
  have "parseBoolean ''true''" "\<not> parseBoolean ''false''" by code_simp+
  with Val_boolean show ?thesis by simp
next
  case (Val_duration d)
  with assms have d: "0 \<le> d" "d < 2 ^ 53" by simp_all
  then obtain n where n: "d = int n" "n < 2 ^ 53" using zero_le_imp_eq_int by force
  have "convertDurationWithUnit (nat_to_string n) = Inr (int (n * 1))"
    using n remove_spaces_digits [OF nat_to_string_digits]
    by (intro convertDuration_nat [of _ n "[]"]) (simp_all add: duration_factor_def)
  with Val_duration n show ?thesis by (simp add: int_to_string_def)
next
  case (Val_loglevel l)
  have "map char_toupper (trim (getLogLevelName l)) = trim (getLogLevelName l)"
    "trim (trim (getLogLevelName l)) = trim (getLogLevelName l)"
    unfolding trim_level_name by (cases l; simp add: level_names_def trim_eq char_eval)+
  then have "parseLogLevel (trim (getLogLevelName l)) = Inr l"
    by (simp add: parseLogLevel_iff)
  with Val_loglevel show ?thesis by simp
next
  case (Val_bytes n)
  have "unat n < 2 ^ LENGTH(64)" by (rule unsigned_less)
  with Val_bytes show ?thesis by (simp add: parseByteUnits_nat_to_string)
qed simp

text \<open>
  The text \<open>accessOptionStringValueByMetadata\<close> shows for an option is one that the manager
  reads back as the same value: booleans, texts, levels and sizes always, durations that are
  not negative and below \<open>2 ^ 53\<close> milliseconds.
\<close>

lemma option_text_reads_back:
  assumes "case v of Val_duration d \<Rightarrow> 0 \<le> d \<and> d < 2 ^ 53 | _ \<Rightarrow> True"
  shows "parse_value (type_of_value v) (value_to_string v) = Inr v"
  using assms by (rule parse_value_to_string)

lemma option_text_reads_back_witness:
  "parse_value Type_duration (value_to_string (Val_duration 30000)) = Inr (Val_duration 30000)"
  using option_text_reads_back [of "Val_duration 30000"] by simp

subsection \<open>The provider chain\<close>

text \<open>What \<open>std::sort\<close> with the comparison of the constructor promises.\<close>

definition sorts_by_priority :: "(prioritized \<Rightarrow> prioritized) \<Rightarrow> bool" where
  "sorts_by_priority std_sort =
     (\<forall>ps. mset (std_sort ps) = mset ps \<and> sorted_wrt (\<lambda>a b. fst b \<le> fst a) (std_sort ps))"

definition highest_answer ::
    "(provider \<Rightarrow> string option) \<Rightarrow> prioritized \<Rightarrow> string option \<Rightarrow> bool" where
  "highest_answer get ps r = (case r of
       None \<Rightarrow> (\<forall>p \<in> set ps. get (snd p) = None)
     | Some v \<Rightarrow> (\<exists>p \<in> set ps. get (snd p) = Some v \<and> (\<forall>q \<in> set ps. get (snd q) \<noteq> None \<longrightarrow> fst q \<le> fst p)))"

lemma first_value_highest:
  "sorted_wrt (\<lambda>a b. fst b \<le> fst a) ps \<Longrightarrow> highest_answer get ps (first_value get ps)"
proof (induction ps)
  case Nil
  then show ?case by (simp add: highest_answer_def)
next
  case (Cons p ps)
  then have IH: "highest_answer get ps (first_value get ps)" by simp
  show ?case
  proof (cases "get (snd p)")
    case None
    with IH show ?thesis by (auto simp: highest_answer_def split: option.splits)
  next
    case (Some v)
    with Cons.prems show ?thesis by (auto simp: highest_answer_def)
  qed
qed

text \<open>
  A \<open>PrioritizedOptionValueProviderChain\<close> answers each of its three questions with the
  answer of a non-null provider whose priority is the highest among those that have one, and
  with nothing only when no provider has an answer.
\<close>

lemma provider_chain_answers_by_priority:
  assumes "sorts_by_priority std_sort"
  shows "let ps = List.map_filter (\<lambda>(prio, p). map_option (Pair prio) p) providers;
             chain = PrioritizedOptionValueProviderChain std_sort providers
    in highest_answer (\<lambda>p. getEnvironmentOptionValue p w name) ps (getEnvironmentOptionValue chain w name)
     \<and> highest_answer (\<lambda>p. getIniOptionValue p w name) ps (getIniOptionValue chain w name)
     \<and> highest_answer (\<lambda>p. getDynamicOptionValue p w name) ps (getDynamicOptionValue chain w name)"
proof -
  define ps where "ps = List.map_filter (\<lambda>(prio, p). map_option (Pair prio) p) providers"
  have m: "mset (std_sort ps) = mset ps" and s: "sorted_wrt (\<lambda>a b. fst b \<le> fst a) (std_sort ps)"
    using assms by (simp_all add: sorts_by_priority_def)
  from m have "set (std_sort ps) = set ps" by (rule mset_eq_setD)
  then have "highest_answer get (std_sort ps) = highest_answer get ps" for get
    by (auto simp: highest_answer_def fun_eq_iff split: option.split)
  with first_value_highest [OF s] show ?thesis
    unfolding PrioritizedOptionValueProviderChain_def ps_def [symmetric] Let_def by simp
qed

lemma sort_by_priority: "sorts_by_priority (\<lambda>ps. rev (sort_key fst ps))"
proof -
  have "sorted_wrt (\<lambda>a b. fst a \<le> fst b) (sort_key fst ps)" for ps :: prioritized
    using sorted_sort_key [of fst ps] by (simp add: sorted_map)
  then show ?thesis by (simp add: sorts_by_priority_def sorted_wrt_rev)
qed

lemma provider_chain_answers_by_priority_witness:
  "let providers = [(0, Some OptionValueProvider), (0, None)];
       w = \<lparr>getenv = (\<lambda>n. if n = ''OTEL_PHP_ENABLED'' then Some ''false'' else None), readIniValue = (\<lambda>_. None)\<rparr>;
       chain = PrioritizedOptionValueProviderChain (\<lambda>ps. rev (sort_key fst ps)) providers
   in getEnvironmentOptionValue chain w ''OTEL_PHP_ENABLED'' = Some ''false''"
proof -
  let ?w = "\<lparr>getenv = (\<lambda>n. if n = ''OTEL_PHP_ENABLED'' then Some ''false'' else None), readIniValue = (\<lambda>_. None)\<rparr>"
  have "c_str ''OTEL_PHP_ENABLED'' = ''OTEL_PHP_ENABLED''" by code_simp
  with provider_chain_answers_by_priority [OF sort_by_priority,
      of "[(0, Some OptionValueProvider), (0, None)]" ?w "''OTEL_PHP_ENABLED''"]
  show ?thesis
    by (auto simp: Let_def map_filter_simps highest_answer_def split: option.splits)
qed

end
