(* ===== verification/RequestLifecycle.thy ===== *)
theory RequestLifecycle
  imports EngineHooks Configuration
begin

section \<open>Module and requests of a worker\<close>

text \<open>
  What a PHP worker does with the extension: PhpSapi.h, the globals of AgentGlobals.cpp,
  module initialization and shutdown (ModuleInit.cpp), the request handlers of ModuleEntry.cpp
  and RequestScope.h. The components of the other theories meet here: configuration,
  remote configuration in shared memory, autoloader guard, hooks, inferred spans and
  their thread, the bridge to PHP. Logging, INI registration, signal handlers and the check
  of open_basedir have no effect on this state and are left out.
\<close>

subsection \<open>The server API\<close>

datatype Sapi =
  Sapi_Apache | Sapi_FPM | Sapi_CLI | Sapi_CLI_SERVER | Sapi_CGI | Sapi_CGI_FCGI | Sapi_LITESPEED
| Sapi_PHPDBG | Sapi_EMBED | Sapi_FUZZER | Sapi_UWSGI | Sapi_FRANKENPHP | Sapi_UNKNOWN

definition parseSapi :: "string \<Rightarrow> Sapi" where
  "parseSapi sapiName =
     (if sapiName = ''cli'' then Sapi_CLI
      else if sapiName = ''cli-server'' then Sapi_CLI_SERVER
      else if sapiName = ''cgi'' then Sapi_CGI
      else if sapiName = ''cgi-fcgi'' then Sapi_CGI_FCGI
      else if sapiName = ''fpm-fcgi'' then Sapi_FPM
      else if sapiName = ''apache2handler'' then Sapi_Apache
      else if sapiName = ''litespeed'' then Sapi_LITESPEED
      else if sapiName = ''phpdbg'' then Sapi_PHPDBG
      else if sapiName = ''embed'' then Sapi_EMBED
      else if sapiName = ''fuzzer'' then Sapi_FUZZER
      else if sapiName = ''uwsgi'' then Sapi_UWSGI
      else if sapiName = ''frankenphp'' then Sapi_FRANKENPHP
      else Sapi_UNKNOWN)"

definition isSupported :: "Sapi \<Rightarrow> bool" where
  "isSupported t \<longleftrightarrow> t \<noteq> Sapi_UNKNOWN \<and> t \<noteq> Sapi_PHPDBG \<and> t \<noteq> Sapi_EMBED"

subsection \<open>The state of a worker\<close>

text \<open>
  \<open>localConfigRevision\<close> and \<open>configWatched\<close> belong to the worker's \<open>CoordinatorConfigurationProvider\<close>:
  the revision it saw last, and whether module initialization has connected its watcher.
\<close>

record worker =
  sapi :: Sapi
  configManager :: ConfigurationManager
  configStorage :: ConfigurationStorage
  localConfigRevision :: "64 word"
  configWatched :: bool
  dependencyGuard :: DependencyAutoLoaderGuard
  workerHooks :: HooksStorage
  inferredSpans :: InferredSpans
  periodicTaskExecutor :: "PeriodicTaskExecutor option"
  hooking :: hooking_state
  scopedNamespaces :: bool
  observersRegistered :: bool
  requestCounter :: "64 word"
  bootstrapSuccessfull :: bool
  preloadDetected :: bool

text \<open>
  What a worker meets at a point in time: option values, the shared memory with the
  configuration of the coordinator, whether some worker has done the one-time task already, the
  engine, the PHP version, the level of the logger, the clocks, and the pending exceptions.
\<close>

record request_env =
  re_world :: world
  re_shared :: SharedData
  re_oneTimeTaskDone :: bool
  re_facade :: facade_engine
  re_compiler :: php_compiler
  re_opcache :: opcache_env
  re_php_version :: "nat \<times> nat"
  re_maxLogLevel :: LogLevel
  re_steady :: msec
  re_system_us :: int
  re_eg :: eg_state

definition cfg_flag :: "string \<Rightarrow> worker \<Rightarrow> bool" where
  "cfg_flag n w = (case members (config (configStorage w)) n of Some (Val_boolean b) \<Rightarrow> b | _ \<Rightarrow> False)"

definition cfg_text :: "string \<Rightarrow> worker \<Rightarrow> string" where
  "cfg_text n w = (case members (config (configStorage w)) n of Some (Val_string s) \<Rightarrow> s | _ \<Rightarrow> [])"

definition cfg_duration :: "string \<Rightarrow> ConfigurationSnapshot \<Rightarrow> msec" where
  "cfg_duration n c = (case members c n of Some (Val_duration d) \<Rightarrow> d | _ \<Rightarrow> 0)"

text \<open>The provider of options: the default one and, if the build has one, the vendor's with its priority.\<close>

definition agent_provider :: "(prioritized \<Rightarrow> prioritized) \<Rightarrow> provider \<Rightarrow> (int \<times> provider option) option \<Rightarrow> provider" where
  "agent_provider std_sort defaultProvider vendor =
     PrioritizedOptionValueProviderChain std_sort
       [(0, Some defaultProvider), case vendor of Some v \<Rightarrow> v | None \<Rightarrow> (0, None)]"

definition AgentGlobals_ctor :: "provider \<Rightarrow> string \<Rightarrow> msec \<Rightarrow> engine_pointers \<Rightarrow> worker" where
  "AgentGlobals_ctor optionProvider phpSapiName now pointers =
     \<lparr>sapi = parseSapi phpSapiName,
      configManager = ConfigurationManager_ctor optionProvider,
      configStorage = snd (addConfigUpdateWatcher ConfigurationStorage_ctor),
      localConfigRevision = 0, configWatched = False,
      dependencyGuard = DependencyAutoLoaderGuard_ctor,
      workerHooks = Map.empty,
      inferredSpans = InferredSpans_ctor now,
      periodicTaskExecutor = None,
      hooking = (Hooking_ctor, pointers),
      scopedNamespaces = True, observersRegistered = False,
      requestCounter = 0, bootstrapSuccessfull = False, preloadDetected = False\<rparr>"

text \<open>\<open>getPeriodicTaskExecutor\<close> creates the executor, with its one task, when it is first asked for.\<close>

definition getPeriodicTaskExecutor :: "worker \<Rightarrow> PeriodicTaskExecutor \<times> worker" where
  "getPeriodicTaskExecutor w =
     (case periodicTaskExecutor w of
        Some e \<Rightarrow> (e, w)
      | None \<Rightarrow> (let e = PeriodicTaskExecutor_ctor [0] in (e, w\<lparr>periodicTaskExecutor := Some e\<rparr>)))"

text \<open>
  The provider's check, with the watcher that \<open>moduleInit\<close> connects: new files go to the manager, whose
  \<open>update\<close> may throw through here.
\<close>

definition triggerRemoteConfigUpdates :: "request_env \<Rightarrow> worker \<Rightarrow> unit result \<times> worker" where
  "triggerRemoteConfigUpdates env w =
     (let (news, r) = triggerUpdateIfChanged (re_shared env) (localConfigRevision w);
          w = w\<lparr>localConfigRevision := r\<rparr>
      in case news of
           None \<Rightarrow> (Inr (), w)
         | Some files \<Rightarrow>
             if configWatched w then
               (let (res, m) = manager_update (re_world env) files (configManager w) in (res, w\<lparr>configManager := m\<rparr>))
             else (Inr (), w))"

definition refresh_config :: "worker \<Rightarrow> worker" where
  "refresh_config w =
     w\<lparr>configStorage := snd (storage_update (updateIfChanged (configManager w)) (configStorage w))\<rparr>"

subsection \<open>Module initialization\<close>

definition module_active :: "worker \<Rightarrow> bool" where
  "module_active w \<longleftrightarrow> isSupported (sapi w) \<and> cfg_flag ''enabled'' w \<and> cfg_text ''bootstrap_php_part_file'' w \<noteq> []"

definition moduleInit :: "request_env \<Rightarrow> worker \<Rightarrow> unit result \<times> worker" where
  "moduleInit env w =
     (let (res, m) = manager_update (re_world env) Map.empty (configManager w); w = w\<lparr>configManager := m\<rparr>
      in case res of
           Inl e \<Rightarrow> (Inl e, w)
         | Inr _ \<Rightarrow>
             let w = refresh_config w
             in if \<not> module_active w then (Inr (), w)
                else case triggerRemoteConfigUpdates env (w\<lparr>configWatched := True\<rparr>) of
                       (Inl e, w) \<Rightarrow> (Inl e, w)
                     | (Inr _, w) \<Rightarrow>
                         (Inr (), w\<lparr>hooking := replaceHooks (cfg_flag ''inferred_spans_enabled'' w)
                                      (cfg_flag ''dependency_autoloader_guard_enabled'' w) (fetchOriginalHooks (hooking w)),
                                    scopedNamespaces := cfg_flag ''scoped_deps_enabled'' w,
                                    observersRegistered := True\<rparr>))"

definition moduleShutdown :: "worker \<Rightarrow> worker" where
  "moduleShutdown w = (if module_active w then w\<lparr>hooking := restoreOriginalHooks (hooking w)\<rparr> else w)"

subsection \<open>Requests\<close>

text \<open>What the request scope makes PHP do, in order.\<close>

datatype bridge_call = Write_Diagnostics string | Load_File string "unit result" | Entry_Point bool | Exit_Point bool

definition resetRequest :: "worker \<Rightarrow> worker" where
  "resetRequest w = w\<lparr>bootstrapSuccessfull := False, workerHooks := hooks_clear (workerHooks w)\<rparr>"

definition bootstrapPHPSideInstrumentation :: "request_env \<Rightarrow> worker \<Rightarrow> bool \<times> bridge_call list" where
  "bootstrapPHPSideInstrumentation env w =
     (let file = cfg_text ''bootstrap_php_part_file'' w;
          r = fst (compileAndExecuteFile (re_facade env) (re_compiler env) file (re_eg env))
      in case r of
           Inl _ \<Rightarrow> (False, [Load_File file r])
         | Inr _ \<Rightarrow>
             let ok = fst (callPHPSideEntryPoint (re_facade env) (scopedNamespaces w) (re_maxLogLevel env)
                             (re_system_us env) (re_eg env))
             in (ok, [Load_File file r, Entry_Point ok]))"

text \<open>The diagnostics file is written by the worker that gets the one-time task; failing to write it is logged only.\<close>

definition diagnostics :: "request_env \<Rightarrow> worker \<Rightarrow> bridge_call list" where
  "diagnostics env w =
     (if \<not> preloadDetected w \<and> requestCounter w \<le> 2 \<and> cfg_text ''debug_diagnostic_file'' w \<noteq> []
         \<and> \<not> re_oneTimeTaskDone env
      then [Write_Diagnostics (cfg_text ''debug_diagnostic_file'' w)] else [])"

definition resume_inferred_spans :: "request_env \<Rightarrow> worker \<Rightarrow> worker" where
  "resume_inferred_spans env w =
     (let (e, w) = getPeriodicTaskExecutor w;
          interval = cfg_duration ''inferred_spans_sampling_interval'' (config (configStorage w));
          interval = (if interval = 0 then cfg_duration ''inferred_spans_sampling_interval'' default_snapshot else interval)
      in w\<lparr>inferredSpans := spans_reset (re_steady env) (spans_setInterval interval (inferredSpans w)),
           periodicTaskExecutor := Some (resumePeriodicTasks (exec_setInterval interval e))\<rparr>)"

text \<open>\<open>onRequestInit\<close> from the start of an instrumented request on, after the configuration is known.\<close>

definition enter_request :: "request_env \<Rightarrow> worker \<Rightarrow> worker" where
  "enter_request env w =
     (let counter = requestCounter w + 1;
          g = (if counter = 1 then setBootstrapPath (fst (re_php_version env)) (snd (re_php_version env))
                                     (cfg_text ''bootstrap_php_part_file'' w) (dependencyGuard w)
               else dependencyGuard w)
      in w\<lparr>requestCounter := counter,
           preloadDetected := (if counter = 1 then detectOpcachePreload (re_opcache env) else False),
           dependencyGuard := guard_clear g\<rparr>)"

definition start_instrumented_request :: "request_env \<Rightarrow> worker \<Rightarrow> bridge_call list \<times> worker" where
  "start_instrumented_request env w =
     (let w = enter_request env w
      in if requestCounter w = 1 \<and> preloadDetected w then ([], w)
         else if \<not> isScriptRestricedByOpcacheAPI (re_opcache env) \<and> detectOpcacheRestartPending (re_opcache env)
         then (diagnostics env w, w)
         else let (ok, calls) = bootstrapPHPSideInstrumentation env w; w = w\<lparr>bootstrapSuccessfull := ok\<rparr>
              in (diagnostics env w @ calls,
                  if ok \<and> cfg_flag ''inferred_spans_enabled'' w then resume_inferred_spans env w else w))"

definition onRequestInit :: "request_env \<Rightarrow> worker \<Rightarrow> unit result \<times> bridge_call list \<times> worker" where
  "onRequestInit env w =
     (let w = resetRequest w
      in if \<not> isSupported (sapi w) then (Inr (), [], w)
         else case triggerRemoteConfigUpdates env w of
                (Inl e, w) \<Rightarrow> (Inl e, [], w)
              | (Inr _, w) \<Rightarrow>
                  let w = refresh_config w
                  in if \<not> cfg_flag ''enabled'' w then (Inr (), [], w)
                     else (Inr (), start_instrumented_request env w))"

definition onRequestShutdown :: "request_env \<Rightarrow> worker \<Rightarrow> bridge_call list \<times> worker" where
  "onRequestShutdown env w =
     (if preloadDetected w then ([], w)
      else if \<not> bootstrapSuccessfull w then ([], w)
      else let w = (if cfg_flag ''inferred_spans_enabled'' w then
                      let (e, w) = getPeriodicTaskExecutor w in w\<lparr>periodicTaskExecutor := Some (suspendPeriodicTasks e)\<rparr>
                    else w)
           in ([Exit_Point (fst (callPHPSideExitPoint (re_facade env) (scopedNamespaces w) (re_eg env)))], w))"

definition onRequestPostDeactivate :: "worker \<Rightarrow> worker" where
  "onRequestPostDeactivate w = resetRequest (w\<lparr>dependencyGuard := guard_clear (dependencyGuard w)\<rparr>)"

text \<open>The handler of ModuleEntry.cpp for the start of a request.\<close>

definition RINIT :: "request_env \<Rightarrow> worker \<Rightarrow> unit result \<times> bridge_call list \<times> worker" where
  "RINIT env w =
     (case onRequestInit env w of
        (Inl e, calls, w) \<Rightarrow> (Inl e, calls, w)
      | (Inr _, calls, w) \<Rightarrow>
          (Inr (), calls, if cfg_flag ''inferred_spans_enabled'' w then w\<lparr>hooking := enableInferredSpansHooks (hooking w)\<rparr> else w))"

subsection \<open>Serving requests\<close>

text \<open>
  Between its start and its end a request runs PHP code, which may register hooks, let
  the guard see files and take interrupts in any way, while the thread of the executor makes steps
  of its own.
\<close>

record request_body =
  rb_hooks :: HooksStorage
  rb_files :: "string list \<times> nat \<times> nat"
  rb_spans :: InferredSpans
  rb_thread_steps :: nat

definition run_body :: "request_body \<Rightarrow> worker \<Rightarrow> worker" where
  "run_body b w = w\<lparr>workerHooks := rb_hooks b,
     dependencyGuard := (dependencyGuard w)\<lparr>compiledFiles := fst (rb_files b),
       lastClass := fst (snd (rb_files b)), lastFunction := snd (snd (rb_files b))\<rparr>,
     inferredSpans := rb_spans b,
     periodicTaskExecutor := map_option (\<lambda>e. snd (exec_run (rb_thread_steps b) e)) (periodicTaskExecutor w)\<rparr>"

record request =
  rq_init :: request_env
  rq_body :: request_body
  rq_shutdown :: request_env

text \<open>An exception that leaves the start of a request ends the process.\<close>

definition serve_request :: "request \<Rightarrow> worker \<Rightarrow> unit result \<times> bridge_call list \<times> worker" where
  "serve_request rq w =
     (case RINIT (rq_init rq) w of
        (Inl e, calls, w1) \<Rightarrow> (Inl e, calls, w1)
      | (Inr _, calls, w1) \<Rightarrow>
          (let (calls2, w2) = onRequestShutdown (rq_shutdown rq) (run_body (rq_body rq) w1)
           in (Inr (), calls @ calls2, onRequestPostDeactivate w2)))"

fun serve_requests :: "request list \<Rightarrow> worker \<Rightarrow> worker" where
  "serve_requests [] w = w"
| "serve_requests (rq # rqs) w =
     (case serve_request rq w of (Inl _, _, w') \<Rightarrow> w' | (Inr _, _, w') \<Rightarrow> serve_requests rqs w')"

subsection \<open>Frames of the operations\<close>

lemma exec_step_resumed: "exec_step e \<noteq> None \<Longrightarrow> resumed (snd (the (exec_step e))) = resumed e"
  by (cases "exec_thread e") (auto simp: exec_step_def exec_loop_head_def split: if_splits)

lemma exec_run_resumed [simp]: "resumed (snd (exec_run n e)) = resumed e"
proof (induction n arbitrary: e)
  case (Suc n)
  then show ?case
    using exec_step_resumed [of e] by (cases "exec_step e") (simp_all add: case_prod_beta)
qed simp

lemma trigger_frame:
  "\<exists>m. snd (triggerRemoteConfigUpdates env w) =
     w\<lparr>localConfigRevision := configRevision (re_shared env), configManager := m\<rparr>"
proof (rule exI)
  show "snd (triggerRemoteConfigUpdates env w) = w\<lparr>localConfigRevision := configRevision (re_shared env),
    configManager := (if configRevision (re_shared env) \<noteq> localConfigRevision w \<and> configWatched w
      then snd (manager_update (re_world env) (getConfigurationNoLock (re_shared env)) (configManager w))
      else configManager w)\<rparr>"
    by (cases w) (simp add: triggerRemoteConfigUpdates_def triggerUpdateIfChanged_def Let_def case_prod_beta)
qed

lemma triggerE:
  assumes "triggerRemoteConfigUpdates env w = (r, w')"
  obtains m where "w' = w\<lparr>localConfigRevision := configRevision (re_shared env), configManager := m\<rparr>"
  using trigger_frame [of env w] assms by auto

lemma refresh_config_frame [simp]:
  "sapi (refresh_config w) = sapi w" "configManager (refresh_config w) = configManager w"
  "localConfigRevision (refresh_config w) = localConfigRevision w" "configWatched (refresh_config w) = configWatched w"
  "dependencyGuard (refresh_config w) = dependencyGuard w" "workerHooks (refresh_config w) = workerHooks w"
  "periodicTaskExecutor (refresh_config w) = periodicTaskExecutor w" "hooking (refresh_config w) = hooking w"
  "requestCounter (refresh_config w) = requestCounter w" "bootstrapSuccessfull (refresh_config w) = bootstrapSuccessfull w"
  "preloadDetected (refresh_config w) = preloadDetected w" "scopedNamespaces (refresh_config w) = scopedNamespaces w"
  by (simp_all add: refresh_config_def)

lemma resume_frame [simp]:
  "configStorage (resume_inferred_spans env w) = configStorage w" "configManager (resume_inferred_spans env w) = configManager w"
  "bootstrapSuccessfull (resume_inferred_spans env w) = bootstrapSuccessfull w"
  "preloadDetected (resume_inferred_spans env w) = preloadDetected w"
  "workerHooks (resume_inferred_spans env w) = workerHooks w" "dependencyGuard (resume_inferred_spans env w) = dependencyGuard w"
  "scopedNamespaces (resume_inferred_spans env w) = scopedNamespaces w" "sapi (resume_inferred_spans env w) = sapi w"
  "configWatched (resume_inferred_spans env w) = configWatched w"
  "localConfigRevision (resume_inferred_spans env w) = localConfigRevision w"
  by (simp_all add: resume_inferred_spans_def getPeriodicTaskExecutor_def Let_def split: option.split prod.split)

lemma enter_frame [simp]:
  "configStorage (enter_request env w) = configStorage w" "configManager (enter_request env w) = configManager w"
  "sapi (enter_request env w) = sapi w" "configWatched (enter_request env w) = configWatched w"
  "localConfigRevision (enter_request env w) = localConfigRevision w" "workerHooks (enter_request env w) = workerHooks w"
  "scopedNamespaces (enter_request env w) = scopedNamespaces w" "periodicTaskExecutor (enter_request env w) = periodicTaskExecutor w"
  "bootstrapSuccessfull (enter_request env w) = bootstrapSuccessfull w"
  "requestCounter (enter_request env w) = requestCounter w + 1"
  "preloadDetected (enter_request env w) = (requestCounter w = 0 \<and> detectOpcachePreload (re_opcache env))"
  by (simp_all add: enter_request_def Let_def)

lemma start_frame:
  assumes "start_instrumented_request env w = (calls, w')"
  shows "configStorage w' = configStorage w" "configManager w' = configManager w" "sapi w' = sapi w"
    "configWatched w' = configWatched w" "localConfigRevision w' = localConfigRevision w"
    "workerHooks w' = workerHooks w" "scopedNamespaces w' = scopedNamespaces w"
  using assms by (auto simp: start_instrumented_request_def Let_def split: if_splits prod.splits)

lemma cfg_flag_cong: "configStorage w' = configStorage w \<Longrightarrow> cfg_flag n w' = cfg_flag n w"
  by (simp add: cfg_flag_def)

lemma cfg_text_cong: "configStorage w' = configStorage w \<Longrightarrow> cfg_text n w' = cfg_text n w"
  by (simp add: cfg_text_def)

text \<open>\<open>RINIT\<close> in the three cases that matter: an exception, no instrumentation, instrumentation.\<close>

lemma RINIT_cases:
  assumes "RINIT env w = (r, calls, w')"
  obtains (threw) e w1 where "isSupported (sapi w)" "triggerRemoteConfigUpdates env (resetRequest w) = (Inl e, w1)"
      "r = Inl e" "calls = []" "w' = w1"
  | (unsupported) h where "\<not> isSupported (sapi w)" "r = Inr ()" "calls = []" "w' = (resetRequest w)\<lparr>hooking := h\<rparr>"
  | (disabled) w1 h where "isSupported (sapi w)" "triggerRemoteConfigUpdates env (resetRequest w) = (Inr (), w1)"
      "\<not> cfg_flag ''enabled'' (refresh_config w1)" "r = Inr ()" "calls = []" "w' = (refresh_config w1)\<lparr>hooking := h\<rparr>"
  | (started) w1 w2 h where "isSupported (sapi w)" "triggerRemoteConfigUpdates env (resetRequest w) = (Inr (), w1)"
      "cfg_flag ''enabled'' (refresh_config w1)" "r = Inr ()"
      "start_instrumented_request env (refresh_config w1) = (calls, w2)" "w' = w2\<lparr>hooking := h\<rparr>"
proof -
  obtain q cs w0 where init: "onRequestInit env w = (q, cs, w0)" by (metis prod.collapse)
  have h: "r = q" "calls = cs" "w' = (case q of Inl _ \<Rightarrow> w0 | Inr _ \<Rightarrow> w0\<lparr>hooking := hooking w'\<rparr>)"
    using assms by (cases w0, auto simp: RINIT_def init split: sum.splits if_splits)+
  obtain tr w1 where trig: "triggerRemoteConfigUpdates env (resetRequest w) = (tr, w1)" by fastforce
  have sapi: "sapi (resetRequest w) = sapi w" by (simp add: resetRequest_def)
  show thesis
  proof (cases "isSupported (sapi w)")
    case False
    with init sapi have "q = Inr ()" "cs = []" "w0 = resetRequest w" by (simp_all add: onRequestInit_def)
    with False h show thesis by (intro unsupported [of "hooking w'"]) simp_all
  next
    case supported: True
    show thesis
    proof (cases tr)
      case (Inl e)
      with init supported sapi trig have "q = Inl e" "cs = []" "w0 = w1" by (simp_all add: onRequestInit_def)
      with h show thesis using threw [OF supported, of e w1] trig Inl by simp
    next
      case (Inr u)
      then have trig: "triggerRemoteConfigUpdates env (resetRequest w) = (Inr (), w1)" using trig by simp
      show thesis
      proof (cases "cfg_flag ''enabled'' (refresh_config w1)")
        case False
        with init supported sapi trig have "q = Inr ()" "cs = []" "w0 = refresh_config w1" by (simp_all add: onRequestInit_def)
        with h show thesis using disabled [OF supported trig False, of "hooking w'"] by simp
      next
        case True
        with init supported sapi trig have "q = Inr ()" "start_instrumented_request env (refresh_config w1) = (cs, w0)"
          by (simp_all add: onRequestInit_def)
        with h show thesis using started [OF supported trig True, of w0 "hooking w'"] by simp
      qed
    qed
  qed
qed

subsection \<open>Nothing is left behind by a request\<close>

definition quiet :: "worker \<Rightarrow> bool" where
  "quiet w \<longleftrightarrow> (\<forall>e. periodicTaskExecutor w = Some e \<longrightarrow> \<not> resumed e)"

definition idle :: "worker \<Rightarrow> bool" where
  "idle w \<longleftrightarrow> quiet w \<and> \<not> bootstrapSuccessfull w \<and> workerHooks w = Map.empty
     \<and> compiledFiles (dependencyGuard w) = [] \<and> lastClass (dependencyGuard w) = 0 \<and> lastFunction (dependencyGuard w) = 0"

text \<open>While a request runs, periodic tasks run only if its end will suspend them.\<close>

definition will_be_quiet :: "worker \<Rightarrow> bool" where
  "will_be_quiet w \<longleftrightarrow> quiet w \<or> bootstrapSuccessfull w \<and> \<not> preloadDetected w \<and> cfg_flag ''inferred_spans_enabled'' w"

lemma quiet_frame: "periodicTaskExecutor w' = periodicTaskExecutor w \<Longrightarrow> quiet w' = quiet w"
  by (simp add: quiet_def)

lemma reset_frame [simp]:
  "periodicTaskExecutor (resetRequest w) = periodicTaskExecutor w" "dependencyGuard (resetRequest w) = dependencyGuard w"
  "\<not> bootstrapSuccessfull (resetRequest w)" "workerHooks (resetRequest w) = Map.empty"
  "configManager (resetRequest w) = configManager w" "configStorage (resetRequest w) = configStorage w"
  "localConfigRevision (resetRequest w) = localConfigRevision w" "configWatched (resetRequest w) = configWatched w"
  "requestCounter (resetRequest w) = requestCounter w" "sapi (resetRequest w) = sapi w"
  "hooking (resetRequest w) = hooking w" "scopedNamespaces (resetRequest w) = scopedNamespaces w"
  by (simp_all add: resetRequest_def hooks_clear_def)

lemma start_will_be_quiet:
  assumes "quiet w" "\<not> bootstrapSuccessfull w" "start_instrumented_request env w = (calls, w')"
  shows "will_be_quiet w'"
proof -
  have "quiet (enter_request env w)" using assms(1) by (simp add: quiet_def)
  with assms(2,3) show ?thesis
    by (auto simp: start_instrumented_request_def will_be_quiet_def quiet_def cfg_flag_def Let_def split: if_splits prod.splits)
qed

lemma RINIT_will_be_quiet:
  assumes "idle w" "RINIT env w = (Inr (), calls, w')"
  shows "will_be_quiet w'"
  using assms(2)
proof (cases rule: RINIT_cases)
  case (started w1 w2 h)
  from started(2) obtain m where w1: "w1 = (resetRequest w)\<lparr>localConfigRevision := configRevision (re_shared env), configManager := m\<rparr>"
    by (rule triggerE)
  have "quiet (refresh_config w1)" "\<not> bootstrapSuccessfull (refresh_config w1)"
    using assms(1) by (auto simp: w1 idle_def quiet_def)
  from start_will_be_quiet [OF this started(5)] show ?thesis
    by (simp add: started(6) will_be_quiet_def quiet_def cfg_flag_def)
next
  case (unsupported h)
  then show ?thesis using assms(1) by (simp add: will_be_quiet_def quiet_def idle_def)
next
  case (disabled w1 h)
  from disabled(2) obtain m where "w1 = (resetRequest w)\<lparr>localConfigRevision := configRevision (re_shared env), configManager := m\<rparr>"
    by (rule triggerE)
  then show ?thesis using assms(1) by (simp add: disabled(6) will_be_quiet_def quiet_def idle_def)
qed simp

lemma RINIT_threw_idle:
  assumes "idle w" "RINIT env w = (Inl e, calls, w')"
  shows "idle w'"
  using assms(2)
proof (cases rule: RINIT_cases)
  case (threw e' w1)
  from threw(2) obtain m where "w1 = (resetRequest w)\<lparr>localConfigRevision := configRevision (re_shared env), configManager := m\<rparr>"
    by (rule triggerE)
  then show ?thesis using assms(1) by (simp add: threw(5) idle_def quiet_def)
qed simp_all

lemma body_will_be_quiet: "will_be_quiet w \<Longrightarrow> will_be_quiet (run_body b w)"
  by (auto simp: will_be_quiet_def quiet_def run_body_def cfg_flag_def)

lemma shutdown_quiet: "will_be_quiet w \<Longrightarrow> onRequestShutdown env w = (calls, w') \<Longrightarrow> quiet w'"
  by (auto simp: will_be_quiet_def quiet_def onRequestShutdown_def getPeriodicTaskExecutor_def suspendPeriodicTasks_def
      PeriodicTaskExecutor_ctor_def Let_def split: if_splits option.splits)

lemma post_deactivate_idle: "quiet w \<Longrightarrow> idle (onRequestPostDeactivate w)"
  by (simp add: onRequestPostDeactivate_def idle_def quiet_def guard_clear_def)

lemma serve_request_idle:
  assumes "idle w" "serve_request rq w = (r, calls, w')"
  shows "idle w'"
proof -
  obtain q cs w1 where init: "RINIT (rq_init rq) w = (q, cs, w1)" by (metis prod.collapse)
  show ?thesis
  proof (cases q)
    case (Inl e)
    then show ?thesis
      using RINIT_threw_idle [OF assms(1), of "rq_init rq" e cs w1] init assms(2) by (auto simp: serve_request_def)
  next
    case (Inr u)
    then have ok: "RINIT (rq_init rq) w = (Inr (), cs, w1)" using init by simp
    obtain cs2 w2 where shut: "onRequestShutdown (rq_shutdown rq) (run_body (rq_body rq) w1) = (cs2, w2)" by fastforce
    have "quiet w2" using shutdown_quiet [OF body_will_be_quiet [OF RINIT_will_be_quiet [OF assms(1) ok]] shut] .
    then show ?thesis using assms(2) by (auto simp: serve_request_def ok shut intro: post_deactivate_idle)
  qed
qed

lemma serve_requests_idle: "idle w \<Longrightarrow> idle (serve_requests rqs w)"
proof (induction rqs arbitrary: w)
  case (Cons rq rqs)
  obtain q cs w1 where one: "serve_request rq w = (q, cs, w1)" by (metis prod.collapse)
  from serve_request_idle [OF Cons.prems one] Cons.IH show ?case by (simp add: one split: sum.split)
qed simp

lemma ctor_idle: "idle (AgentGlobals_ctor p s now ptrs)"
  by (simp add: AgentGlobals_ctor_def idle_def quiet_def DependencyAutoLoaderGuard_ctor_def)

lemma idle_cong:
  "idle (w\<lparr>configManager := m\<rparr>) = idle w" "idle (w\<lparr>configWatched := b\<rparr>) = idle w"
  "idle (w\<lparr>localConfigRevision := r\<rparr>) = idle w" "idle (w\<lparr>configStorage := s\<rparr>) = idle w"
  "idle (w\<lparr>hooking := h, scopedNamespaces := b, observersRegistered := b'\<rparr>) = idle w"
  by (simp_all add: idle_def quiet_def)

lemma trigger_idle: "triggerRemoteConfigUpdates env w = (r, w') \<Longrightarrow> idle w' = idle w"
  by (erule triggerE) (simp add: idle_def quiet_def)

lemma moduleInit_idle: "idle w \<Longrightarrow> idle (snd (moduleInit env w))"
  by (auto simp: moduleInit_def Let_def idle_cong refresh_config_def split: sum.split prod.split dest!: trigger_idle)

text \<open>
  C4. Between requests a worker is at rest, whatever requests it has served, whatever PHP code
  did in them and however long its threads ran: periodic tasks are suspended, no
  hooks are stored, the autoloader guard is empty, and instrumentation counts as not started. This holds
  as well when an exception ends the start of a request.
\<close>

theorem worker_rests_between_requests:
  "idle (serve_requests rqs (snd (moduleInit env (AgentGlobals_ctor p phpSapi now ptrs))))"
  by (intro serve_requests_idle moduleInit_idle ctor_idle)

subsection \<open>When a request is instrumented\<close>

lemma not_instrumented:
  assumes "RINIT env w = (Inr (), calls, w')" "\<not> isSupported (sapi w) \<or> \<not> cfg_flag ''enabled'' w'"
  shows "\<not> bootstrapSuccessfull w'" "calls = []"
  using assms(1)
proof (atomize (full), cases rule: RINIT_cases)
  case (started w1 w2 h)
  from start_frame(1) [OF started(5)] have "cfg_flag ''enabled'' w' = cfg_flag ''enabled'' (refresh_config w1)"
    by (simp add: started(6) cfg_flag_def)
  with started(1,3) assms(2) show "\<not> bootstrapSuccessfull w' \<and> calls = []" by simp
next
  case (disabled w1 h)
  from disabled(2) obtain m where "w1 = (resetRequest w)\<lparr>localConfigRevision := configRevision (re_shared env), configManager := m\<rparr>"
    by (rule triggerE)
  then show "\<not> bootstrapSuccessfull w' \<and> calls = []" by (simp add: disabled(5,6))
qed auto

lemma bootstrap_result:
  "fst (bootstrapPHPSideInstrumentation env w) \<longleftrightarrow>
     fst (compileAndExecuteFile (re_facade env) (re_compiler env) (cfg_text ''bootstrap_php_part_file'' w) (re_eg env)) = Inr ()
     \<and> fst (callPHPSideEntryPoint (re_facade env) (scopedNamespaces w) (re_maxLogLevel env) (re_system_us env) (re_eg env))"
  "Entry_Point True \<in> set (snd (bootstrapPHPSideInstrumentation env w)) \<longleftrightarrow> fst (bootstrapPHPSideInstrumentation env w)"
  "Exit_Point b \<notin> set (snd (bootstrapPHPSideInstrumentation env w))"
  by (auto simp: bootstrapPHPSideInstrumentation_def Let_def split: sum.split)

lemma bootstrap_cong:
  assumes "configStorage w' = configStorage w" "scopedNamespaces w' = scopedNamespaces w"
  shows "bootstrapPHPSideInstrumentation env w' = bootstrapPHPSideInstrumentation env w"
  by (simp only: bootstrapPHPSideInstrumentation_def cfg_text_def assms)

lemma diagnostics_calls: "Entry_Point ok \<notin> set (diagnostics env w)" "Exit_Point b \<notin> set (diagnostics env w)"
  by (simp_all add: diagnostics_def)

text \<open>Whether \<open>start_instrumented_request\<close> gets as far as the bootstrap.\<close>

definition may_bootstrap :: "request_env \<Rightarrow> worker \<Rightarrow> bool" where
  "may_bootstrap env w \<longleftrightarrow> \<not> (requestCounter w = 0 \<and> detectOpcachePreload (re_opcache env))
     \<and> (isScriptRestricedByOpcacheAPI (re_opcache env) \<or> \<not> detectOpcacheRestartPending (re_opcache env))"

lemma start_stages:
  "bootstrapSuccessfull (snd (start_instrumented_request env w)) =
     (if may_bootstrap env w then fst (bootstrapPHPSideInstrumentation env w) else bootstrapSuccessfull w)"
  "may_bootstrap env w \<Longrightarrow> \<not> preloadDetected (snd (start_instrumented_request env w))"
  "\<exists>d w0. fst (start_instrumented_request env w) =
     (if d then diagnostics env w0 else []) @ (if may_bootstrap env w then snd (bootstrapPHPSideInstrumentation env w) else [])"
proof -
  have b: "bootstrapPHPSideInstrumentation env (enter_request env w) = bootstrapPHPSideInstrumentation env w"
    by (rule bootstrap_cong) simp_all
  show "bootstrapSuccessfull (snd (start_instrumented_request env w)) =
     (if may_bootstrap env w then fst (bootstrapPHPSideInstrumentation env w) else bootstrapSuccessfull w)"
    "may_bootstrap env w \<Longrightarrow> \<not> preloadDetected (snd (start_instrumented_request env w))"
    by (auto simp: start_instrumented_request_def may_bootstrap_def b Let_def case_prod_beta)
  show "\<exists>d w0. fst (start_instrumented_request env w) =
     (if d then diagnostics env w0 else []) @ (if may_bootstrap env w then snd (bootstrapPHPSideInstrumentation env w) else [])"
  proof (cases "requestCounter w = 0 \<and> detectOpcachePreload (re_opcache env)")
    case True
    then have "fst (start_instrumented_request env w) = []" "\<not> may_bootstrap env w"
      by (simp_all add: start_instrumented_request_def may_bootstrap_def Let_def)
    then show ?thesis by (intro exI [of _ False]) simp
  next
    case False
    show ?thesis
    proof (cases "may_bootstrap env w")
      case True
      with False have "fst (start_instrumented_request env w) = diagnostics env ((enter_request env w)
          \<lparr>bootstrapSuccessfull := fst (bootstrapPHPSideInstrumentation env w)\<rparr>) @ snd (bootstrapPHPSideInstrumentation env w)"
        by (auto simp: start_instrumented_request_def may_bootstrap_def b Let_def case_prod_beta)
      with True show ?thesis by (intro exI [of _ True] exI) simp
    next
      case stop: False
      with False have "fst (start_instrumented_request env w) = diagnostics env (enter_request env w)"
        by (auto simp: start_instrumented_request_def may_bootstrap_def Let_def)
      with stop show ?thesis by (intro exI [of _ True] exI) simp
    qed
  qed
qed

lemma start_bootstraps:
  assumes "start_instrumented_request env w = (calls, w')" "\<not> bootstrapSuccessfull w"
  shows "bootstrapSuccessfull w' \<longleftrightarrow> may_bootstrap env w \<and> fst (bootstrapPHPSideInstrumentation env w)"
    and "bootstrapSuccessfull w' \<Longrightarrow> \<not> preloadDetected w'"
    and "Entry_Point True \<in> set calls \<longleftrightarrow> bootstrapSuccessfull w'"
    and "Exit_Point b \<notin> set calls"
proof -
  have w': "w' = snd (start_instrumented_request env w)" and calls: "calls = fst (start_instrumented_request env w)"
    using assms(1) by simp_all
  show boot: "bootstrapSuccessfull w' \<longleftrightarrow> may_bootstrap env w \<and> fst (bootstrapPHPSideInstrumentation env w)"
    using assms(2) by (simp add: w' start_stages(1))
  show "bootstrapSuccessfull w' \<Longrightarrow> \<not> preloadDetected w'"
    using boot start_stages(2) [of env w] by (simp add: w')
  from start_stages(3) [of env w] obtain d w0 where "calls =
      (if d then diagnostics env w0 else []) @ (if may_bootstrap env w then snd (bootstrapPHPSideInstrumentation env w) else [])"
    unfolding calls by blast
  then show "Entry_Point True \<in> set calls \<longleftrightarrow> bootstrapSuccessfull w'" "Exit_Point b \<notin> set calls"
    unfolding boot by (simp_all add: diagnostics_calls bootstrap_result(2,3))
qed

text \<open>
  C5. A request is instrumented exactly if the server API is supported, the extension is enabled by
  the configuration the request starts with, the first request is no opcache preloading, no restart
  of opcache is pending (as far as the script may ask), and the PHP part loads and its entry point is
  accepted. Exactly then its end calls the exit point, once.
\<close>

theorem instrumented_exactly_when_possible:
  assumes "RINIT env w = (Inr (), calls, w')"
  shows "(bootstrapSuccessfull w' \<longleftrightarrow> isSupported (sapi w) \<and> cfg_flag ''enabled'' w'
      \<and> \<not> (requestCounter w = 0 \<and> detectOpcachePreload (re_opcache env))
      \<and> (isScriptRestricedByOpcacheAPI (re_opcache env) \<or> \<not> detectOpcacheRestartPending (re_opcache env))
      \<and> fst (compileAndExecuteFile (re_facade env) (re_compiler env) (cfg_text ''bootstrap_php_part_file'' w') (re_eg env)) = Inr ()
      \<and> fst (callPHPSideEntryPoint (re_facade env) (scopedNamespaces w) (re_maxLogLevel env) (re_system_us env) (re_eg env)))
    \<and> (Entry_Point True \<in> set calls \<longleftrightarrow> bootstrapSuccessfull w') \<and> Exit_Point b \<notin> set calls
    \<and> (\<exists>ok. fst (onRequestShutdown env' (run_body body w')) = (if bootstrapSuccessfull w' then [Exit_Point ok] else []))"
proof -
  have run: "bootstrapSuccessfull (run_body body w') = bootstrapSuccessfull w'" "preloadDetected (run_body body w') = preloadDetected w'"
    by (simp_all add: run_body_def)
  show ?thesis
  proof (cases "isSupported (sapi w) \<and> cfg_flag ''enabled'' w'")
    case False
    with not_instrumented [OF assms] show ?thesis by (auto simp: onRequestShutdown_def run)
  next
    case True
    from assms show ?thesis
    proof (cases rule: RINIT_cases)
      case (started w1 w2 h)
      from started(2) obtain m where w1: "w1 = (resetRequest w)\<lparr>localConfigRevision := configRevision (re_shared env), configManager := m\<rparr>"
        by (rule triggerE)
      let ?w = "refresh_config w1"
      have start: "\<not> bootstrapSuccessfull ?w" "requestCounter ?w = requestCounter w" "scopedNamespaces ?w = scopedNamespaces w"
        "cfg_text ''bootstrap_php_part_file'' ?w = cfg_text ''bootstrap_php_part_file'' w'"
        using start_frame(1) [OF started(5)] by (simp_all add: w1 started(6) cfg_text_def)
      have w': "bootstrapSuccessfull w' = bootstrapSuccessfull w2" "preloadDetected w' = preloadDetected w2"
        by (simp_all add: started(6))
      note boots = start_bootstraps [OF started(5) start(1)]
      have "fst (onRequestShutdown env' (run_body body w')) =
          (if bootstrapSuccessfull w2 then [Exit_Point (fst (callPHPSideExitPoint (re_facade env') (scopedNamespaces (snd (onRequestShutdown env' (run_body body w')))) (re_eg env')))] else [])"
        using boots(2) by (simp add: onRequestShutdown_def run w' Let_def case_prod_beta)
      then have "\<exists>ok. fst (onRequestShutdown env' (run_body body w')) = (if bootstrapSuccessfull w' then [Exit_Point ok] else [])"
        unfolding w'(1) by blast
      with boots(1,3,4) True show ?thesis
        unfolding w'(1) boots(1) bootstrap_result(1) may_bootstrap_def start(2-4) by blast
    next
      case (disabled w1 h)
      then show ?thesis using True by (simp add: cfg_flag_def)
    qed (use True in simp_all)
  qed
qed

subsection \<open>Configurations of a worker\<close>

text \<open>Manager and storage of a worker keep the invariant of the configuration theory.\<close>

definition config_ok :: "nat \<Rightarrow> worker \<Rightarrow> bool" where
  "config_ok n w = config_inv n (configManager w, configStorage w)"

lemma config_ok_mono:
  assumes "config_ok n w" "n \<le> k"
  shows "config_ok k w"
  using assms(2,1) by (induction k rule: dec_induct) (simp_all add: config_ok_def config_inv_mono)

lemma config_ok_publish:
  "config_ok n w \<Longrightarrow> n < 2 ^ 64 - 2 \<Longrightarrow> config_ok (Suc n) (w\<lparr>configManager := snd (manager_update v cf (configManager w))\<rparr>)"
  by (simp add: config_ok_def config_inv_publish)

lemma config_ok_refresh: "config_ok n w \<Longrightarrow> n < 2 ^ 64 - 2 \<Longrightarrow> config_ok (Suc n) (refresh_config w)"
  unfolding config_ok_def using config_inv_step [OF config_step.refresh] by (simp add: refresh_config_def)

lemma config_ok_ctor: "config_ok 1 (AgentGlobals_ctor p s now ptrs)"
  using config_inv_step [OF config_step.watch config_inv_start] by (simp add: config_ok_def AgentGlobals_ctor_def)

lemma config_ok_trigger:
  assumes "config_ok n w" "n < 2 ^ 64 - 2" "triggerRemoteConfigUpdates env w = (r, w')"
  shows "config_ok (Suc n) w'"
proof -
  have "config_ok (Suc n) (w\<lparr>configManager := snd (manager_update (re_world env) cf (configManager w))\<rparr>)" for cf
    using config_ok_publish [OF assms(1,2)] .
  moreover have "config_ok (Suc n) w" using config_ok_mono [OF assms(1)] by simp
  ultimately show ?thesis
    using assms(3)
    by (auto simp: triggerRemoteConfigUpdates_def config_ok_def Let_def split: option.splits if_splits prod.splits)
      (metis snd_conv)+
qed

lemma moduleInit_stages:
  fixes env w
  defines "w1 \<equiv> w\<lparr>configManager := snd (manager_update (re_world env) Map.empty (configManager w))\<rparr>"
  defines "w2 \<equiv> triggerRemoteConfigUpdates env ((refresh_config w1)\<lparr>configWatched := True\<rparr>)"
  shows "(configManager (snd (moduleInit env w)), configStorage (snd (moduleInit env w)))
    \<in> {(configManager w1, configStorage w1), (configManager (refresh_config w1), configStorage (refresh_config w1)),
       (configManager (snd w2), configStorage (snd w2))}"
proof (cases "fst (manager_update (re_world env) Map.empty (configManager w))")
  case (Inl e)
  then have "snd (moduleInit env w) = w1" by (simp add: moduleInit_def w1_def Let_def case_prod_beta)
  then show ?thesis by simp
next
  case (Inr u)
  show ?thesis
  proof (cases "module_active (refresh_config w1)")
    case False
    with Inr have "snd (moduleInit env w) = refresh_config w1" by (simp add: moduleInit_def w1_def Let_def case_prod_beta)
    then show ?thesis by simp
  next
    case True
    with Inr have "configManager (snd (moduleInit env w)) = configManager (snd w2)"
      "configStorage (snd (moduleInit env w)) = configStorage (snd w2)"
      by (simp_all add: moduleInit_def w1_def w2_def Let_def case_prod_beta split: sum.split)
    then show ?thesis by simp
  qed
qed

lemma config_ok_moduleInit:
  assumes "config_ok n w" "n < 2 ^ 64 - 4"
  shows "config_ok (n + 3) (snd (moduleInit env w))"
proof -
  let ?w1 = "w\<lparr>configManager := snd (manager_update (re_world env) Map.empty (configManager w))\<rparr>"
  let ?w2 = "(refresh_config ?w1)\<lparr>configWatched := True\<rparr>"
  have w1: "config_ok (n + 1) ?w1" using config_ok_publish [OF assms(1)] assms(2) by simp
  then have w2: "config_ok (n + 2) (refresh_config ?w1)" using config_ok_refresh [OF w1] assms(2) by simp
  then have "config_ok (n + 2) ?w2" by (simp add: config_ok_def)
  from config_ok_trigger [OF this _ prod.collapse [symmetric]]
  have w3: "config_ok (n + 3) (snd (triggerRemoteConfigUpdates env ?w2))" using assms(2) by (simp add: numeral_3_eq_3)
  from config_ok_mono [OF w1, of "n + 3"] config_ok_mono [OF w2, of "n + 3"] w3 moduleInit_stages [of env w]
  show ?thesis unfolding config_ok_def by auto
qed

text \<open>Requests, too: each at most two steps.\<close>

lemma config_ok_RINIT:
  assumes "config_ok n w" "n < 2 ^ 64 - 3" "RINIT env w = (r, calls, w')"
  shows "config_ok (n + 2) w'"
proof -
  have reset: "config_ok n (resetRequest w)" using assms(1) by (simp add: config_ok_def)
  from assms(3) show ?thesis
  proof (cases rule: RINIT_cases)
    case (threw e w1)
    with config_ok_trigger [OF reset _ threw(2)] assms(2) config_ok_mono [of "Suc n" w1 "n + 2"] show ?thesis by simp
  next
    case (unsupported h)
    with config_ok_mono [OF reset, of "n + 2"] show ?thesis by (simp add: config_ok_def)
  next
    case (disabled w1 h)
    have "config_ok (Suc n) w1" using config_ok_trigger [OF reset _ disabled(2)] assms(2) by simp
    from config_ok_refresh [OF this] assms(2) show ?thesis by (simp add: disabled(6) config_ok_def)
  next
    case (started w1 w2 h)
    have "config_ok (Suc n) w1" using config_ok_trigger [OF reset _ started(2)] assms(2) by simp
    from config_ok_refresh [OF this] assms(2) start_frame(1,2) [OF started(5)] show ?thesis
      by (simp add: started(6) config_ok_def)
  qed
qed

lemma shutdown_config [simp]:
  "configManager (snd (onRequestShutdown env w)) = configManager w" "configStorage (snd (onRequestShutdown env w)) = configStorage w"
  "configWatched (snd (onRequestShutdown env w)) = configWatched w" "sapi (snd (onRequestShutdown env w)) = sapi w"
  by (simp_all add: onRequestShutdown_def getPeriodicTaskExecutor_def Let_def case_prod_beta split: option.split)

lemma config_ok_serve_request:
  assumes "config_ok n w" "n < 2 ^ 64 - 3"
  shows "config_ok (n + 2) (snd (snd (serve_request rq w)))"
proof -
  obtain r calls w1 where init: "RINIT (rq_init rq) w = (r, calls, w1)" by (metis prod.collapse)
  from config_ok_RINIT [OF assms init] show ?thesis
    by (simp add: serve_request_def init config_ok_def case_prod_beta onRequestPostDeactivate_def run_body_def split: sum.split)
qed

lemma config_ok_serve_requests:
  assumes "config_ok n w" "n + 2 * length rqs < 2 ^ 64 - 3"
  shows "config_ok (n + 2 * length rqs) (serve_requests rqs w)"
  using assms
proof (induction rqs arbitrary: n w)
  case (Cons rq rqs)
  obtain r calls w1 where one: "serve_request rq w = (r, calls, w1)" by (metis prod.collapse)
  have ok: "config_ok (n + 2) w1" using config_ok_serve_request [OF Cons.prems(1), of rq] Cons.prems(2) by (simp add: one)
  show ?case
  proof (cases r)
    case (Inl e)
    with config_ok_mono [OF ok] show ?thesis by (simp add: one)
  next
    case (Inr u)
    with Cons.IH [OF ok] Cons.prems(2) show ?thesis by (simp add: one)
  qed
qed simp

lemma worker_config_ok:
  assumes "length rqs < 2 ^ 62"
  shows "config_ok (2 ^ 64 - 4) (serve_requests rqs (snd (moduleInit env (AgentGlobals_ctor p s now ptrs))))"
proof -
  have "config_ok (1 + 3) (snd (moduleInit env (AgentGlobals_ctor p s now ptrs)))"
    by (rule config_ok_moduleInit [OF config_ok_ctor]) simp
  from config_ok_serve_requests [OF this, of rqs] assms
  have "config_ok (1 + 3 + 2 * length rqs) (serve_requests rqs (snd (moduleInit env (AgentGlobals_ctor p s now ptrs))))" by simp
  then show ?thesis by (rule config_ok_mono) (use assms in simp)
qed

text \<open>A request with news: what the worker is configured with.\<close>

lemma RINIT_with_news:
  assumes "config_ok n w" "n < 2 ^ 64 - 2" "isSupported (sapi w)" "configWatched w"
    "configRevision (re_shared env) \<noteq> localConfigRevision w" "RINIT env w = (r, calls, w')"
  defines "files \<equiv> getConfigurationNoLock (re_shared env)"
  defines "u \<equiv> manager_update (re_world env) files (configManager w)"
  shows "if is_ok (fst u) then r = Inr () \<and> config (configStorage w') = current (snd u)
         else (\<exists>e. r = Inl e) \<and> calls = [] \<and> configStorage w' = configStorage w"
proof -
  let ?w1 = "(resetRequest w)\<lparr>localConfigRevision := configRevision (re_shared env), configManager := snd u\<rparr>"
  have trig: "triggerRemoteConfigUpdates env (resetRequest w) = (fst u, ?w1)"
    using assms(4,5) by (simp add: triggerRemoteConfigUpdates_def triggerUpdateIfChanged_def u_def files_def Let_def case_prod_beta)
  have "config_ok n (resetRequest w)" using assms(1) by (simp add: config_ok_def)
  from config_ok_trigger [OF this assms(2) trig] have "config_ok (Suc n) ?w1" .
  then have fresh: "config (configStorage (refresh_config ?w1)) = current (snd u)"
    by (auto simp: config_ok_def config_inv_def refresh_config_def manager.refresh_config)
  from assms(6) show ?thesis
  proof (cases rule: RINIT_cases)
    case (threw e w1)
    then have "w1 = ?w1" "fst u = Inl e" using trig by simp_all
    with threw show ?thesis by (simp add: is_ok_def)
  next
    case (disabled w1 h)
    with fresh show ?thesis by (auto simp: trig is_ok_def)
  next
    case (started w1 w2 h)
    with fresh start_frame(1) [OF started(5)] show ?thesis by (auto simp: trig is_ok_def)
  qed (use assms(3) in simp)
qed

subsection \<open>A worker at work\<close>

text \<open>A worker whose environment gives every option the text \<open>1\<close>.\<close>

definition ones_env :: "SharedData \<Rightarrow> request_env" where
  "ones_env sd = \<lparr>re_world = \<lparr>getenv = (\<lambda>_. Some ''1''), readIniValue = (\<lambda>_. None)\<rparr>, re_shared = sd, re_oneTimeTaskDone = True,
     re_facade = \<lparr>class_exists = (\<lambda>_. True), call_user_function = (\<lambda>_ _. (True, None)),
       exception_object = (\<lambda>_. \<lparr>ex_instance = True, ex_class_name = [], ex_property = (\<lambda>_. None)\<rparr>),
       php_scoper_prefix = [], php_scoper_prefix_lc = [], distro_version = ''1.0''\<rparr>,
     re_compiler = \<lparr>stream_open = (\<lambda>_. True), zend_compile_file = (\<lambda>_. (True, None)), zend_execute = (\<lambda>_. None)\<rparr>,
     re_opcache = \<lparr>sapi_name = ''cli'', ini_opcache_enable = False, ini_opcache_enable_cli = False, ini_preload = None,
       ini_restrict_api = None, sapi_activate = False, sapi_deactivate = False, sapi_register_server_variables = False,
       sapi_getenv = False, path_translated = None, status_function_exists = False, opcache_get_status = (False, Null)\<rparr>,
     re_php_version = (8, 3), re_maxLogLevel = logLevel_info, re_steady = 0, re_system_us = 0, re_eg = demo_eg\<rparr>"

definition ones_worker :: worker where
  "ones_worker = snd (moduleInit (ones_env SharedData_ctor)
     (AgentGlobals_ctor OptionValueProvider ''cli'' 0
       \<lparr>zend_execute_internal = None, zend_interrupt_function = None, zend_compile_file_ptr = None\<rparr>))"

lemma ones_fetch: "fetchStringValue (re_world (ones_env sd)) OptionValueProvider n b = Some ''1''"
  by (simp add: fetchStringValue_def ones_env_def)

lemma ones_parse: "case parse_value ty ''1'' of Inl e \<Rightarrow> (\<exists>m. e = Invalid_Argument m) | Inr _ \<Rightarrow> True"
proof (cases ty)
  case Type_duration
  have "is_ok (convertDurationWithUnit ''1'')"
  proof -
    have "nat_to_string 1 = ''1''" "remove_spaces ''1'' = ''1''" "duration_factor [] = Some 1" by code_simp+
    with convertDuration_nat [of "''1''" 1 "[]" 1] show ?thesis by (simp add: is_ok_def)
  qed
  then show ?thesis by (auto simp: Type_duration is_ok_def split: sum.splits)
next
  case Type_loglevel
  have "parseLogLevel ''1'' = Inl (Invalid_Argument ''Unknown log level: 1'')" by code_simp
  then show ?thesis by (simp add: Type_loglevel)
next
  case Type_bytes
  have "is_ok (parseByteUnits ''1'')"
  proof -
    have "nat_to_string 1 = ''1''" by code_simp
    with parseByteUnits_nat_to_string [of 1] show ?thesis by (simp add: is_ok_def)
  qed
  then show ?thesis by (auto simp: Type_bytes is_ok_def split: sum.splits)
qed simp_all

lemma ones_no_escape: "\<not> list_ex (escapes (re_world (ones_env sd)) OptionValueProvider) options_table"
proof -
  have "\<not> escapes (re_world (ones_env sd)) OptionValueProvider e" for e
    using ones_parse [of "option_type (snd e)"] by (auto simp: escapes_def ones_fetch split: sum.split cpp_exception.split)
  then show ?thesis by (simp add: list_ex_iff)
qed

lemma ones_update:
  fixes cf m sd
  defines "u \<equiv> manager_update (re_world (ones_env sd)) cf m"
  assumes "optionValueProvider m = OptionValueProvider"
  shows "fst u = Inr ()" "optionValueProvider (snd u) = OptionValueProvider" "remoteConfigFiles (current (snd u)) = cf"
    "members (current (snd u)) ''enabled'' = Some (Val_boolean True)"
    "members (current (snd u)) ''bootstrap_php_part_file'' = Some (Val_string ''1'')"
proof -
  have p: "provider_update (optionValueProvider m) cf = OptionValueProvider" using assms(2) by simp
  from manager_update_eq(3) [where m = m and w = "re_world (ones_env sd)" and cf = cf]
  have ok: "is_ok (fst u)" and c: "current (snd u) = \<lparr>members = map_of snapshot_defaults
       ++ (\<lambda>n. Option.bind (map_of options_table n) (\<lambda>md. configured (re_world (ones_env sd)) OptionValueProvider (n, md))),
      revision = upcomingConfigRevision m + 1, remoteConfigFiles = cf\<rparr>"
    unfolding p using ones_no_escape by (simp_all add: u_def)
  show "fst u = Inr ()" using ok by (cases "fst u") (simp_all add: is_ok_def)
  show "optionValueProvider (snd u) = OptionValueProvider"
    using manager_update_eq(2) [where m = m and w = "re_world (ones_env sd)" and cf = cf] p by (simp add: u_def)
  show "remoteConfigFiles (current (snd u)) = cf" by (simp add: c)
  have "map_of options_table ''enabled'' = Some (option_metadata Type_boolean ''enabled'' False False)"
    "map_of options_table ''bootstrap_php_part_file'' = Some (option_metadata Type_string ''bootstrap_php_part_file'' False False)"
    by (simp_all add: options_table_def)
  moreover have "parseBoolean ''1''" by code_simp
  ultimately show "members (current (snd u)) ''enabled'' = Some (Val_boolean True)"
    "members (current (snd u)) ''bootstrap_php_part_file'' = Some (Val_string ''1'')"
    by (simp_all add: c configured_def ones_fetch option_metadata_def)
qed

lemma ones_worker_ready:
  "isSupported (sapi ones_worker)" "configWatched ones_worker" "localConfigRevision ones_worker = configRevision SharedData_ctor"
  "optionValueProvider (configManager ones_worker) = OptionValueProvider"
proof -
  let ?env = "ones_env SharedData_ctor"
  let ?w0 = "AgentGlobals_ctor OptionValueProvider ''cli'' 0
    \<lparr>zend_execute_internal = None, zend_interrupt_function = None, zend_compile_file_ptr = None\<rparr>"
  let ?m = "snd (manager_update (re_world ?env) Map.empty (configManager ?w0))"
  let ?w1 = "refresh_config (?w0\<lparr>configManager := ?m\<rparr>)"
  have p0: "optionValueProvider (configManager ?w0) = OptionValueProvider"
    by (simp add: AgentGlobals_ctor_def ConfigurationManager_ctor_def getNextRevision_def Let_def)
  note u1 = ones_update [OF p0, of SharedData_ctor Map.empty]
  note u2 = ones_update [OF u1(2), of SharedData_ctor "getConfigurationNoLock SharedData_ctor"]
  have "config_ok (Suc 1) (?w0\<lparr>configManager := ?m\<rparr>)" by (rule config_ok_publish [OF config_ok_ctor]) simp
  then have "config (configStorage ?w1) = current ?m"
    by (auto simp: config_ok_def config_inv_def refresh_config_def manager.refresh_config)
  moreover have sup: "sapi ?w1 = Sapi_CLI" "localConfigRevision ?w1 = 0" "configManager ?w1 = ?m"
    by (simp_all add: AgentGlobals_ctor_def parseSapi_def)
  ultimately have active: "module_active ?w1"
    using u1(4,5) by (simp add: module_active_def isSupported_def cfg_flag_def cfg_text_def)
  have re: "re_shared ?env = SharedData_ctor" by (simp add: ones_env_def)
  have rev: "configRevision SharedData_ctor \<noteq> 0" by (simp add: SharedData_ctor_def)
  have trig: "triggerRemoteConfigUpdates ?env (?w1\<lparr>configWatched := True\<rparr>) =
     (Inr (), ?w1\<lparr>configWatched := True, localConfigRevision := configRevision SharedData_ctor,
        configManager := snd (manager_update (re_world ?env) (getConfigurationNoLock SharedData_ctor) ?m)\<rparr>)"
    using u2(1) rev sup(2,3) by (simp add: triggerRemoteConfigUpdates_def triggerUpdateIfChanged_def re Let_def case_prod_beta)
  have "isSupported (sapi ones_worker) \<and> configWatched ones_worker \<and> localConfigRevision ones_worker = configRevision SharedData_ctor
    \<and> optionValueProvider (configManager ones_worker) = OptionValueProvider"
    using u1(1) active trig sup u2(2) by (simp add: ones_worker_def moduleInit_def Let_def case_prod_beta isSupported_def)
  then show "isSupported (sapi ones_worker)" "configWatched ones_worker" "localConfigRevision ones_worker = configRevision SharedData_ctor"
    "optionValueProvider (configManager ones_worker) = OptionValueProvider" by simp_all
qed

theorem instrumented_exactly_when_possible_witness:
  "let env = ones_env (storeConfigFiles [] SharedData_ctor); (r, calls, w') = RINIT env ones_worker
   in bootstrapSuccessfull w' \<and> Entry_Point True \<in> set calls \<and> Exit_Point True \<notin> set calls"
proof -
  let ?env = "ones_env (storeConfigFiles [] SharedData_ctor)"
  obtain r calls w' where init: "RINIT ?env ones_worker = (r, calls, w')" by (metis prod.collapse)
  have re: "re_shared ?env = storeConfigFiles [] SharedData_ctor" by (simp add: ones_env_def)
  have ok: "config_ok (2 ^ 64 - 4) ones_worker"
    using worker_config_ok [of "[]"] by (simp add: ones_worker_def)
  have news: "configRevision (re_shared ?env) \<noteq> localConfigRevision ones_worker"
    unfolding re ones_worker_ready(3) by (simp add: storeConfigFiles_def)
  note u = ones_update [OF ones_worker_ready(4), of "storeConfigFiles [] SharedData_ctor" "getConfigurationNoLock (re_shared ?env)"]
  from RINIT_with_news [OF ok _ ones_worker_ready(1,2) news init] u
  have r: "r = Inr ()" and flags: "cfg_flag ''enabled'' w'" "cfg_text ''bootstrap_php_part_file'' w' = ''1''"
    by (simp_all add: is_ok_def cfg_flag_def cfg_text_def)
  have opcache: "\<not> detectOpcachePreload (re_opcache ?env)" "\<not> detectOpcacheRestartPending (re_opcache ?env)"
    by (simp_all add: ones_env_def detectOpcachePreload_def detectOpcacheRestartPending_def isOpcacheEnabled_def)
  have php: "fst (compileAndExecuteFile (re_facade ?env) (re_compiler ?env) ''1'' (re_eg ?env)) = Inr ()"
    "fst (callPHPSideEntryPoint (re_facade ?env) (scopedNamespaces ones_worker) (re_maxLogLevel ?env) (re_system_us ?env) (re_eg ?env))"
    by (simp_all add: ones_env_def compileAndExecuteFile_def open_compile_execute_def callPHPSideEntryPoint_def call_facade_def
        php_callMethod_def Let_def case_prod_beta)
  show ?thesis
    using instrumented_exactly_when_possible [OF init [unfolded r], of True ?env "\<lparr>rb_hooks = Map.empty, rb_files = ([], 0, 0),
        rb_spans = InferredSpans_ctor 0, rb_thread_steps = 0\<rparr>"]
    by (simp add: init flags ones_worker_ready(1) opcache php)
qed

end
