(* ===== verification/OtlpExport.thy ===== *)
theory OtlpExport
  imports Zval "HOL-Library.Sublist"
begin

section \<open>The native OTLP exporters\<close>

text \<open>
  The converters of libphpbridge/code/OtlpExporter turn a batch of PHP objects (spans, log
  records, metrics) into an OTLP request. Each groups its items by resource and, within a
  resource, by instrumentation scope, with the help of two hash maps from identifiers to
  places in the request. The messages are records with the fields that the code sets;
  protobuf's serialization is not modelled. The main result is that the grouping is exact.
\<close>

subsection \<open>Messages\<close>

type_synonym attributes = "(string \<times> AnyValue) list"

record resource_part =
  resource_attributes :: attributes
  resource_dropped :: "32 word"
  resource_schema_url :: string

record scope_part =
  scope_name :: string
  scope_version :: string
  scope_attributes :: attributes
  scope_dropped :: "32 word"
  scope_schema_url :: string

record 'a scope_group =
  group_scope :: scope_part
  group_items :: "'a list"

record 'a resource_group =
  group_resource :: resource_part
  group_scopes :: "'a scope_group list"

datatype SpanKind =
  SPAN_KIND_UNSPECIFIED | SPAN_KIND_INTERNAL | SPAN_KIND_SERVER | SPAN_KIND_CLIENT
| SPAN_KIND_PRODUCER | SPAN_KIND_CONSUMER

datatype StatusCode = STATUS_CODE_UNSET | STATUS_CODE_OK | STATUS_CODE_ERROR

record Span_Event =
  event_time :: "64 word"
  event_name :: string
  event_attributes :: attributes
  event_dropped :: "32 word"

record Span_Link =
  link_trace_id :: string
  link_span_id :: string
  link_flags :: "32 word"
  link_trace_state :: string
  link_attributes :: attributes
  link_dropped :: "32 word"

record Span =
  trace_id :: string
  span_id :: string
  span_flags :: "32 word"
  trace_state :: string
  parent_span_id :: string
  span_name :: string
  span_kind :: SpanKind
  start_time :: "64 word"
  end_time :: "64 word"
  span_attributes :: attributes
  span_dropped :: "32 word"
  events :: "Span_Event list"
  dropped_events :: "32 word"
  links :: "Span_Link list"
  dropped_links :: "32 word"
  status_message :: string
  status_code :: StatusCode

subsection \<open>ConverterHelpers\<close>

definition php_serialize_zval :: "php_engine \<Rightarrow> zval \<Rightarrow> string" where
  "php_serialize_zval e zv = (case php_serialize e zv of Some (Str s _) \<Rightarrow> s | _ \<Rightarrow> [])"

definition php_array :: "php_engine \<Rightarrow> zval list \<Rightarrow> zval" where
  "php_array e vs = fold (\<lambda>v a. arrayAddNextWithRef a v) vs (arrayInit e)"

definition getResourceId :: "php_engine \<Rightarrow> zval \<Rightarrow> string result" where
  "getResourceId e resourceInfo =
     bind_result (callMethod e resourceInfo ''getSchemaUrl'') (\<lambda>schemaUrl.
     bind_result (callMethod e resourceInfo ''getAttributes'') (\<lambda>attributes.
     bind_result (callMethod e attributes ''getDroppedAttributesCount'') (\<lambda>dropped.
     bind_result (callMethod e attributes ''toArray'') (\<lambda>attributesArray.
     Inr (php_serialize_zval e (php_array e [schemaUrl, attributesArray, dropped]))))))"

definition getScopeId :: "php_engine \<Rightarrow> zval \<Rightarrow> string result" where
  "getScopeId e scopeInfo =
     bind_result (callMethod e scopeInfo ''getName'') (\<lambda>name.
     bind_result (callMethod e scopeInfo ''getVersion'') (\<lambda>version.
     bind_result (callMethod e scopeInfo ''getSchemaUrl'') (\<lambda>schemaUrl.
     bind_result (callMethod e scopeInfo ''getAttributes'') (\<lambda>attributes.
     bind_result (callMethod e attributes ''getDroppedAttributesCount'') (\<lambda>dropped.
     bind_result (callMethod e attributes ''toArray'') (\<lambda>attributesArray.
     Inr (php_serialize_zval e (php_array e [name, version, schemaUrl, attributesArray, dropped]))))))))"

subsection \<open>Grouping\<close>

text \<open>
  The pointers the two maps hold are positions in the request under construction: the
  index of a resource, and the indices of a resource and of a scope in it.
\<close>

record 'a grouping =
  request :: "'a resource_group list"
  resource_map :: "string \<rightharpoonup> nat"
  scope_map :: "string \<rightharpoonup> nat \<times> nat"

definition empty_grouping :: "'a grouping" where
  "empty_grouping = \<lparr>request = [], resource_map = Map.empty, scope_map = Map.empty\<rparr>"

text \<open>One item on its way: the two identifiers and the three conversions.\<close>

record 'a item_parts =
  item_resource_id :: string
  item_scope_id :: string
  item_resource :: "resource_part result"
  item_scope :: "scope_part result"
  item_message :: "'a result"

definition find_resource :: "'a item_parts \<Rightarrow> 'a grouping \<Rightarrow> (nat \<times> 'a grouping) result" where
  "find_resource it g =
     (case resource_map g (item_resource_id it) of
        Some i \<Rightarrow> Inr (i, g)
      | None \<Rightarrow> bind_result (item_resource it) (\<lambda>r. let i = length (request g) in
          Inr (i, g\<lparr>request := request g @ [\<lparr>group_resource = r, group_scopes = []\<rparr>],
                    resource_map := (resource_map g)(item_resource_id it \<mapsto> i)\<rparr>)))"

definition append_scope :: "nat \<Rightarrow> scope_part \<Rightarrow> 'a resource_group list \<Rightarrow> 'a resource_group list" where
  "append_scope i s req = req[i := (req ! i)\<lparr>group_scopes := group_scopes (req ! i) @ [\<lparr>group_scope = s, group_items = []\<rparr>]\<rparr>]"

definition append_item :: "nat \<Rightarrow> nat \<Rightarrow> 'a \<Rightarrow> 'a resource_group list \<Rightarrow> 'a resource_group list" where
  "append_item i j x req =
     (let scopes = group_scopes (req ! i)
      in req[i := (req ! i)\<lparr>group_scopes := scopes[j := (scopes ! j)\<lparr>group_items := group_items (scopes ! j) @ [x]\<rparr>]\<rparr>])"

definition find_scope :: "nat \<Rightarrow> 'a item_parts \<Rightarrow> 'a grouping \<Rightarrow> ((nat \<times> nat) \<times> 'a grouping) result" where
  "find_scope i it g =
     (let compositeKey = item_resource_id it @ ''|'' @ item_scope_id it in
      case scope_map g compositeKey of
        Some p \<Rightarrow> Inr (p, g)
      | None \<Rightarrow> bind_result (item_scope it) (\<lambda>s. let j = length (group_scopes (request g ! i)) in
          Inr ((i, j), g\<lparr>request := append_scope i s (request g),
                         scope_map := (scope_map g)(compositeKey \<mapsto> (i, j))\<rparr>)))"

definition place_item :: "'a item_parts \<Rightarrow> 'a grouping \<Rightarrow> 'a grouping result" where
  "place_item it g =
     bind_result (find_resource it g) (\<lambda>(i, g1).
     bind_result (find_scope i it g1) (\<lambda>((i', j), g2).
     bind_result (item_message it) (\<lambda>x. Inr (g2\<lparr>request := append_item i' j x (request g2)\<rparr>))))"

text \<open>The loop over the batch; taking an item apart may throw as well.\<close>

fun group_items_loop :: "('v \<Rightarrow> 'a item_parts result) \<Rightarrow> 'v list \<Rightarrow> 'a grouping \<Rightarrow> 'a grouping result" where
  "group_items_loop parts [] g = Inr g"
| "group_items_loop parts (v # vs) g =
     bind_result (parts v) (\<lambda>it. bind_result (place_item it g) (group_items_loop parts vs))"

subsection \<open>SpanConverter\<close>

definition string_or :: "string \<Rightarrow> zval \<Rightarrow> string" where
  "string_or d v = (case getOptStringView v of Some s \<Rightarrow> s | None \<Rightarrow> d)"

text \<open>An unset protobuf string field reads as the empty string.\<close>

definition call_opt_string :: "php_engine \<Rightarrow> zval \<Rightarrow> string \<Rightarrow> string result" where
  "call_opt_string e v m = bind_result (callMethod e v m) (\<lambda>r. Inr (string_or [] r))"

definition dropped_count :: "php_engine \<Rightarrow> zval \<Rightarrow> 32 word result" where
  "dropped_count e attributes =
     bind_result (call_long e attributes ''getDroppedAttributesCount'') (\<lambda>n. Inr (word_of_int n))"

definition convertResourceSpans :: "php_engine \<Rightarrow> zval \<Rightarrow> resource_part result" where
  "convertResourceSpans e resourceInfo =
     bind_result (call_opt_string e resourceInfo ''getSchemaUrl'') (\<lambda>schemaUrl.
     bind_result (callMethod e resourceInfo ''getAttributes'') (\<lambda>attributes.
     bind_result (convertAttributes e attributes) (\<lambda>attrs.
     bind_result (dropped_count e attributes) (\<lambda>dropped.
     Inr \<lparr>resource_attributes = attrs, resource_dropped = dropped, resource_schema_url = schemaUrl\<rparr>))))"

definition convertScopeSpans :: "php_engine \<Rightarrow> zval \<Rightarrow> scope_part result" where
  "convertScopeSpans e instrumentationScope =
     bind_result (call_string e instrumentationScope ''getName'') (\<lambda>name.
     bind_result (call_opt_string e instrumentationScope ''getVersion'') (\<lambda>version.
     bind_result (callMethod e instrumentationScope ''getAttributes'') (\<lambda>attributes.
     bind_result (convertAttributes e attributes) (\<lambda>attrs.
     bind_result (dropped_count e attributes) (\<lambda>dropped.
     bind_result (call_opt_string e instrumentationScope ''getSchemaUrl'') (\<lambda>schemaUrl.
     Inr \<lparr>scope_name = name, scope_version = version, scope_attributes = attrs, scope_dropped = dropped,
          scope_schema_url = schemaUrl\<rparr>))))))"

text \<open>The argument is an \<open>int\<close>: of a PHP integer only the low 32 bits count.\<close>

definition convertSpanKind :: "32 word \<Rightarrow> SpanKind" where
  "convertSpanKind kind =
     (if kind = 0 then SPAN_KIND_INTERNAL
      else if kind = 1 then SPAN_KIND_CLIENT
      else if kind = 2 then SPAN_KIND_SERVER
      else if kind = 3 then SPAN_KIND_PRODUCER
      else if kind = 4 then SPAN_KIND_CONSUMER
      else SPAN_KIND_UNSPECIFIED)"

definition convertStatusCode :: "string \<Rightarrow> StatusCode" where
  "convertStatusCode status =
     (if ci_equal status ''Unset'' then STATUS_CODE_UNSET
      else if ci_equal status ''Ok'' then STATUS_CODE_OK
      else if ci_equal status ''Error'' then STATUS_CODE_ERROR
      else STATUS_CODE_UNSET)"

definition addRemoteFlags :: "php_engine \<Rightarrow> zval \<Rightarrow> 32 word \<Rightarrow> 32 word result" where
  "addRemoteFlags e spanContext baseFlags =
     bind_result (call_bool e spanContext ''isRemote'') (\<lambda>remote.
     Inr (let flags = or baseFlags 0x100 in if remote then or flags 0x200 else flags))"

definition buildFlagsForSpan :: "php_engine \<Rightarrow> zval \<Rightarrow> zval \<Rightarrow> 32 word result" where
  "buildFlagsForSpan e spanContext parentSpanContext =
     bind_result (call_long e spanContext ''getTraceFlags'') (\<lambda>flags.
     addRemoteFlags e parentSpanContext (word_of_int flags))"

definition buildFlagsForLink :: "php_engine \<Rightarrow> zval \<Rightarrow> 32 word result" where
  "buildFlagsForLink e linkSpanContext =
     bind_result (call_long e linkSpanContext ''getTraceFlags'') (\<lambda>flags.
     addRemoteFlags e linkSpanContext (word_of_int flags))"

definition convertTraceState :: "php_engine \<Rightarrow> zval \<Rightarrow> string result" where
  "convertTraceState e context =
     bind_result (callMethod e context ''getTraceState'') (\<lambda>traceState.
     if isObject traceState then call_string e traceState ''__toString'' else Inr [])"

definition convertEvent :: "php_engine \<Rightarrow> zval \<Rightarrow> Span_Event result" where
  "convertEvent e event =
     bind_result (call_long e event ''getEpochNanos'') (\<lambda>time.
     bind_result (call_string e event ''getName'') (\<lambda>name.
     bind_result (callMethod e event ''getAttributes'') (\<lambda>attributes.
     bind_result (convertAttributes e attributes) (\<lambda>attrs.
     bind_result (dropped_count e attributes) (\<lambda>dropped.
     Inr \<lparr>event_time = word_of_int time, event_name = name, event_attributes = attrs, event_dropped = dropped\<rparr>)))))"

definition convertLink :: "php_engine \<Rightarrow> zval \<Rightarrow> Span_Link result" where
  "convertLink e link =
     bind_result (callMethod e link ''getSpanContext'') (\<lambda>linkSpanContext.
     bind_result (call_string e linkSpanContext ''getTraceIdBinary'') (\<lambda>traceId.
     bind_result (call_string e linkSpanContext ''getSpanIdBinary'') (\<lambda>spanId.
     bind_result (buildFlagsForLink e linkSpanContext) (\<lambda>flags.
     bind_result (convertTraceState e linkSpanContext) (\<lambda>traceState.
     bind_result (callMethod e link ''getAttributes'') (\<lambda>attributes.
     bind_result (convertAttributes e attributes) (\<lambda>attrs.
     bind_result (dropped_count e attributes) (\<lambda>dropped.
     Inr \<lparr>link_trace_id = traceId, link_span_id = spanId, link_flags = flags, link_trace_state = traceState,
          link_attributes = attrs, link_dropped = dropped\<rparr>))))))))"

definition convertParentId :: "php_engine \<Rightarrow> zval \<Rightarrow> string result" where
  "convertParentId e parentSpanContext =
     bind_result (call_bool e parentSpanContext ''isValid'') (\<lambda>valid.
     if valid then call_string e parentSpanContext ''getSpanIdBinary'' else Inr [])"

definition convertSpan :: "php_engine \<Rightarrow> zval \<Rightarrow> Span result" where
  "convertSpan e zspan =
     bind_result (callMethod e zspan ''getContext'') (\<lambda>context.
     bind_result (call_string e context ''getTraceIdBinary'') (\<lambda>traceId.
     bind_result (call_string e context ''getSpanIdBinary'') (\<lambda>spanId.
     bind_result (callMethod e zspan ''getParentContext'') (\<lambda>parentSpanContext.
     bind_result (buildFlagsForSpan e context parentSpanContext) (\<lambda>flags.
     bind_result (convertTraceState e context) (\<lambda>traceState.
     bind_result (convertParentId e parentSpanContext) (\<lambda>parentId.
     bind_result (call_string e zspan ''getName'') (\<lambda>name.
     bind_result (call_long e zspan ''getKind'') (\<lambda>kind.
     bind_result (call_long e zspan ''getStartEpochNanos'') (\<lambda>start.
     bind_result (call_long e zspan ''getEndEpochNanos'') (\<lambda>end_nanos.
     bind_result (callMethod e zspan ''getAttributes'') (\<lambda>attributes.
     bind_result (dropped_count e attributes) (\<lambda>dropped.
     bind_result (convertAttributes e attributes) (\<lambda>attrs.
     bind_result (bind_result (callMethod e zspan ''getEvents'') array_values) (\<lambda>evs.
     bind_result (for_each (convertEvent e) evs) (\<lambda>outEvents.
     bind_result (call_long e zspan ''getTotalDroppedEvents'') (\<lambda>droppedEvents.
     bind_result (bind_result (callMethod e zspan ''getLinks'') array_values) (\<lambda>lks.
     bind_result (for_each (convertLink e) lks) (\<lambda>outLinks.
     bind_result (call_long e zspan ''getTotalDroppedLinks'') (\<lambda>droppedLinks.
     bind_result (callMethod e zspan ''getStatus'') (\<lambda>status.
     bind_result (call_string e status ''getDescription'') (\<lambda>description.
     bind_result (call_string e status ''getCode'') (\<lambda>code.
     Inr \<lparr>trace_id = traceId, span_id = spanId, span_flags = flags, trace_state = traceState,
          parent_span_id = parentId, span_name = name, span_kind = convertSpanKind (word_of_int kind),
          start_time = word_of_int start, end_time = word_of_int end_nanos,
          span_attributes = attrs, span_dropped = dropped,
          events = outEvents, dropped_events = word_of_int droppedEvents,
          links = outLinks, dropped_links = word_of_int droppedLinks,
          status_message = description, status_code = convertStatusCode code\<rparr>)))))))))))))))))))))))"

definition scoped_name :: "php_engine \<Rightarrow> bool \<Rightarrow> string \<Rightarrow> string" where
  "scoped_name e scopedNamespacesEnabled name = (if scopedNamespacesEnabled then scoper_prefix e @ name else name)"

definition span_parts :: "php_engine \<Rightarrow> bool \<Rightarrow> zval \<Rightarrow> Span item_parts result" where
  "span_parts e scoped zspan =
     bind_result (assertObjectType zspan (scoped_name e scoped (php_name [''OpenTelemetry'', ''SDK'', ''Trace'', ''ImmutableSpan'']))) (\<lambda>_.
     bind_result (callMethod e zspan ''getResource'') (\<lambda>resourceInfo.
     bind_result (callMethod e zspan ''getInstrumentationScope'') (\<lambda>instrumentationScope.
     bind_result (getResourceId e resourceInfo) (\<lambda>resourceId.
     bind_result (getScopeId e instrumentationScope) (\<lambda>scopeId.
     Inr \<lparr>item_resource_id = resourceId, item_scope_id = scopeId,
          item_resource = convertResourceSpans e resourceInfo,
          item_scope = convertScopeSpans e instrumentationScope,
          item_message = convertSpan e zspan\<rparr>)))))"

definition SpanConverter_convert :: "php_engine \<Rightarrow> bool \<Rightarrow> zval \<Rightarrow> Span resource_group list result" where
  "SpanConverter_convert e scoped spans =
     (if \<not> isArray spans then Inl (Runtime_Error ''Invalid iterable passed to SpanConverter'')
      else bind_result (array_values spans) (\<lambda>vs.
           bind_result (group_items_loop (span_parts e scoped) vs empty_grouping) (\<lambda>g. Inr (request g))))"

subsection \<open>LogsConverter\<close>

record LogRecord =
  log_body :: "AnyValue option"
  log_time :: "64 word"
  log_observed_time :: "64 word"
  log_trace_id :: string
  log_span_id :: string
  log_flags :: "32 word"
  log_severity_number :: "int option"
  log_severity_text :: string
  log_event_name :: string
  log_attributes :: attributes
  log_dropped :: "32 word"

text \<open>The resource of a log batch gets no schema URL.\<close>

definition convertResourceLogs :: "php_engine \<Rightarrow> zval \<Rightarrow> resource_part result" where
  "convertResourceLogs e resourceInfo =
     bind_result (callMethod e resourceInfo ''getAttributes'') (\<lambda>attributes.
     bind_result (convertAttributes e attributes) (\<lambda>attrs.
     bind_result (dropped_count e attributes) (\<lambda>dropped.
     Inr \<lparr>resource_attributes = attrs, resource_dropped = dropped, resource_schema_url = []\<rparr>)))"

definition convertInstrumentationScope :: "php_engine \<Rightarrow> zval \<Rightarrow> scope_part result" where
  "convertInstrumentationScope e scopeInfo =
     bind_result (call_string e scopeInfo ''getName'') (\<lambda>name.
     bind_result (call_opt_string e scopeInfo ''getVersion'') (\<lambda>version.
     bind_result (callMethod e scopeInfo ''getAttributes'') (\<lambda>attributes.
     bind_result (convertAttributes e attributes) (\<lambda>attrs.
     bind_result (dropped_count e attributes) (\<lambda>dropped.
     bind_result (call_opt_string e scopeInfo ''getSchemaUrl'') (\<lambda>schemaUrl.
     Inr \<lparr>scope_name = name, scope_version = version, scope_attributes = attrs, scope_dropped = dropped,
          scope_schema_url = schemaUrl\<rparr>))))))"

definition long_or_zero :: "zval \<Rightarrow> 64 word" where
  "long_or_zero v = word_of_int (case getOptLong v of Some n \<Rightarrow> n | None \<Rightarrow> 0)"

text \<open>Trace id, span id and flags, when there is a valid span context.\<close>

definition convertLogContext :: "php_engine \<Rightarrow> zval \<Rightarrow> (string \<times> string \<times> 32 word) result" where
  "convertLogContext e spanContext =
     (if isNull spanContext then Inr ([], [], 0)
      else bind_result (call_bool e spanContext ''isValid'') (\<lambda>valid.
        if \<not> valid then Inr ([], [], 0)
        else bind_result (call_string e spanContext ''getTraceIdBinary'') (\<lambda>traceId.
             bind_result (call_string e spanContext ''getSpanIdBinary'') (\<lambda>spanId.
             bind_result (call_long e spanContext ''getTraceFlags'') (\<lambda>flags.
             Inr (traceId, spanId, word_of_int flags))))))"

definition convertLogRecord :: "php_engine \<Rightarrow> zval \<Rightarrow> LogRecord result" where
  "convertLogRecord e zlog =
     bind_result (callMethod e zlog ''getBody'') (\<lambda>body.
     bind_result (callMethod e zlog ''getTimestamp'') (\<lambda>timestamp.
     bind_result (callMethod e zlog ''getObservedTimestamp'') (\<lambda>observed.
     bind_result (callMethod e zlog ''getSpanContext'') (\<lambda>spanContext.
     bind_result (convertLogContext e spanContext) (\<lambda>(traceId, spanId, flags).
     bind_result (callMethod e zlog ''getSeverityNumber'') (\<lambda>severityNumber.
     bind_result (call_opt_string e zlog ''getSeverityText'') (\<lambda>severityText.
     bind_result (call_opt_string e zlog ''getEventName'') (\<lambda>eventName.
     bind_result (callMethod e zlog ''getAttributes'') (\<lambda>attributes.
     bind_result (convertAttributes e attributes) (\<lambda>attrs.
     bind_result (dropped_count e attributes) (\<lambda>dropped.
     Inr \<lparr>log_body = (if isNull body \<or> isUndef body then None else Some (convertAnyValue body)),
          log_time = long_or_zero timestamp, log_observed_time = long_or_zero observed,
          log_trace_id = traceId, log_span_id = spanId, log_flags = flags,
          log_severity_number = getOptLong severityNumber, log_severity_text = severityText,
          log_event_name = eventName, log_attributes = attrs, log_dropped = dropped\<rparr>)))))))))))"

definition log_parts :: "php_engine \<Rightarrow> zval \<Rightarrow> LogRecord item_parts result" where
  "log_parts e zlog =
     bind_result (callMethod e zlog ''getResource'') (\<lambda>resourceInfo.
     bind_result (callMethod e zlog ''getInstrumentationScope'') (\<lambda>instrumentationScope.
     bind_result (getResourceId e resourceInfo) (\<lambda>resourceId.
     bind_result (getScopeId e instrumentationScope) (\<lambda>scopeId.
     Inr \<lparr>item_resource_id = resourceId, item_scope_id = scopeId,
          item_resource = convertResourceLogs e resourceInfo,
          item_scope = convertInstrumentationScope e instrumentationScope,
          item_message = convertLogRecord e zlog\<rparr>))))"

definition LogsConverter_convert :: "php_engine \<Rightarrow> zval \<Rightarrow> LogRecord resource_group list result" where
  "LogsConverter_convert e logs =
     (if \<not> isArray logs then Inl (Runtime_Error ''Invalid iterable passed to LogsConverter'')
      else bind_result (array_values logs) (\<lambda>vs.
           bind_result (group_items_loop (log_parts e) vs empty_grouping) (\<lambda>g. Inr (request g))))"

subsection \<open>MetricConverter\<close>

datatype number = As_Int int | As_Double double | No_Number

datatype Temporality = TEMPORALITY_UNSPECIFIED | TEMPORALITY_DELTA | TEMPORALITY_CUMULATIVE

record Exemplar =
  exemplar_attributes :: attributes
  exemplar_time :: "64 word"
  exemplar_span_id :: string
  exemplar_trace_id :: string
  exemplar_value :: number

record NumberDataPoint =
  point_attributes :: attributes
  point_start :: "64 word"
  point_time :: "64 word"
  point_value :: number
  point_exemplars :: "Exemplar list"

record HistogramDataPoint =
  hist_attributes :: attributes
  hist_start :: "64 word"
  hist_time :: "64 word"
  hist_count :: "64 word"
  hist_sum :: double
  hist_min :: double
  hist_max :: double
  bucket_counts :: "64 word list"
  explicit_bounds :: "double list"
  hist_exemplars :: "Exemplar list"

datatype metric_data =
  Data_Gauge "NumberDataPoint list"
| Data_Sum "NumberDataPoint list" bool Temporality
| Data_Histogram "HistogramDataPoint list" Temporality
| Data_Unset

record Metric =
  metric_name :: string
  metric_description :: string
  metric_unit :: string
  metric_data :: metric_data

definition convertResourceMetrics :: "php_engine \<Rightarrow> zval \<Rightarrow> resource_part result" where
  "convertResourceMetrics e res =
     bind_result (callMethod e res ''getAttributes'') (\<lambda>attributes.
     bind_result (convertAttributes e attributes) (\<lambda>attrs.
     bind_result (dropped_count e attributes) (\<lambda>dropped.
     bind_result (call_opt_string e res ''getSchemaUrl'') (\<lambda>schemaUrl.
     Inr \<lparr>resource_attributes = attrs, resource_dropped = dropped, resource_schema_url = schemaUrl\<rparr>))))"

definition convertScopeMetrics :: "php_engine \<Rightarrow> zval \<Rightarrow> scope_part result" where
  "convertScopeMetrics e scopeMetrics =
     bind_result (call_string e scopeMetrics ''getName'') (\<lambda>name.
     bind_result (call_opt_string e scopeMetrics ''getVersion'') (\<lambda>version.
     bind_result (callMethod e scopeMetrics ''getAttributes'') (\<lambda>attributes.
     bind_result (convertAttributes e attributes) (\<lambda>attrs.
     bind_result (dropped_count e attributes) (\<lambda>dropped.
     bind_result (call_opt_string e scopeMetrics ''getSchemaUrl'') (\<lambda>schemaUrl.
     Inr \<lparr>scope_name = name, scope_version = version, scope_attributes = attrs, scope_dropped = dropped,
          scope_schema_url = schemaUrl\<rparr>))))))"

text \<open>\<open>boost::algorithm::unhex\<close> throws on a character that is no hexadecimal digit.\<close>

fun unhex :: "string \<Rightarrow> string result" where
  "unhex (a # b # rest) =
     (if isxdigit a \<and> isxdigit b
      then bind_result (unhex rest) (\<lambda>r. Inr (char_of (16 * xdigit_value a + xdigit_value b) # r))
      else Inl (Runtime_Error ''non_hex_input''))"
| "unhex [] = Inr []"
| "unhex [a] = Inl (Runtime_Error ''not_enough_input'')"

definition hex2bin :: "string \<Rightarrow> string result" where
  "hex2bin input =
     (if length input mod 2 \<noteq> 0 then Inl (Invalid_Argument ''hex2bin: input string must have even length'')
      else unhex input)"

fun convertTemporality :: "zval \<Rightarrow> Temporality result" where
  "convertTemporality (Long n) =
     Inr (if n = 1 then TEMPORALITY_DELTA else if n = 2 then TEMPORALITY_CUMULATIVE else TEMPORALITY_UNSPECIFIED)"
| "convertTemporality (Str s _) =
     Inr (if ci_equal s ''Delta'' then TEMPORALITY_DELTA
          else if ci_equal s ''Cumulative'' then TEMPORALITY_CUMULATIVE else TEMPORALITY_UNSPECIFIED)"
| "convertTemporality _ = Inl (Runtime_Error ''Invalid temporality value'')"

fun convert_number :: "zval \<Rightarrow> number" where
  "convert_number (Long n) = As_Int n"
| "convert_number (Double d) = As_Double d"
| "convert_number _ = No_Number"

definition read_hex_id :: "php_engine \<Rightarrow> zval \<Rightarrow> string \<Rightarrow> string result" where
  "read_hex_id e v p =
     bind_result (readProperty e v p) (\<lambda>i. case getOptStringView i of Some s \<Rightarrow> hex2bin s | None \<Rightarrow> Inr [])"

definition read_attributes :: "php_engine \<Rightarrow> zval \<Rightarrow> attributes result" where
  "read_attributes e v = bind_result (readProperty e v ''attributes'') (convertAttributes e)"

definition convertExemplar :: "php_engine \<Rightarrow> zval \<Rightarrow> Exemplar result" where
  "convertExemplar e ex =
     bind_result (read_attributes e ex) (\<lambda>attrs.
     bind_result (read_long e ex ''timestamp'') (\<lambda>time.
     bind_result (read_hex_id e ex ''spanId'') (\<lambda>spanId.
     bind_result (read_hex_id e ex ''traceId'') (\<lambda>traceId.
     bind_result (readProperty e ex ''value'') (\<lambda>val.
     Inr \<lparr>exemplar_attributes = attrs, exemplar_time = word_of_int time, exemplar_span_id = spanId,
          exemplar_trace_id = traceId, exemplar_value = convert_number val\<rparr>)))))"

definition convertNumberDataPoint :: "php_engine \<Rightarrow> zval \<Rightarrow> NumberDataPoint result" where
  "convertNumberDataPoint e point =
     bind_result (read_attributes e point) (\<lambda>attrs.
     bind_result (read_long e point ''startTimestamp'') (\<lambda>start.
     bind_result (read_long e point ''timestamp'') (\<lambda>time.
     bind_result (readProperty e point ''value'') (\<lambda>val.
     bind_result (read_values e point ''exemplars'') (\<lambda>exs.
     bind_result (for_each (convertExemplar e) exs) (\<lambda>exemplars.
     Inr \<lparr>point_attributes = attrs, point_start = word_of_int start, point_time = word_of_int time,
          point_value = convert_number val, point_exemplars = exemplars\<rparr>))))))"

definition convertHistogramDataPoint :: "php_engine \<Rightarrow> zval \<Rightarrow> HistogramDataPoint result" where
  "convertHistogramDataPoint e point =
     bind_result (read_attributes e point) (\<lambda>attrs.
     bind_result (read_long e point ''startTimestamp'') (\<lambda>start.
     bind_result (read_long e point ''timestamp'') (\<lambda>time.
     bind_result (read_long e point ''count'') (\<lambda>cnt.
     bind_result (read_number e point ''sum'') (\<lambda>sum_val.
     bind_result (read_number e point ''min'') (\<lambda>min_val.
     bind_result (read_number e point ''max'') (\<lambda>max_val.
     bind_result (bind_result (read_values e point ''bucketCounts'') (for_each getLong)) (\<lambda>counts.
     bind_result (bind_result (read_values e point ''explicitBounds'') (for_each getNumberAsDouble)) (\<lambda>bounds.
     bind_result (read_values e point ''exemplars'') (\<lambda>exs.
     bind_result (for_each (convertExemplar e) exs) (\<lambda>exemplars.
     Inr \<lparr>hist_attributes = attrs, hist_start = word_of_int start, hist_time = word_of_int time,
          hist_count = word_of_int cnt, hist_sum = sum_val, hist_min = min_val, hist_max = max_val,
          bucket_counts = map word_of_int counts, explicit_bounds = bounds, hist_exemplars = exemplars\<rparr>)))))))))))"

definition convertGauge :: "php_engine \<Rightarrow> zval \<Rightarrow> metric_data result" where
  "convertGauge e gauge =
     bind_result (bind_result (read_values e gauge ''dataPoints'') (for_each (convertNumberDataPoint e))) (\<lambda>ps.
     Inr (Data_Gauge ps))"

definition convertSum :: "php_engine \<Rightarrow> zval \<Rightarrow> metric_data result" where
  "convertSum e zsum =
     bind_result (bind_result (read_values e zsum ''dataPoints'') (for_each (convertNumberDataPoint e))) (\<lambda>ps.
     bind_result (bind_result (readProperty e zsum ''monotonic'') getBoolean) (\<lambda>monotonic.
     bind_result (bind_result (readProperty e zsum ''temporality'') convertTemporality) (\<lambda>temporality.
     Inr (Data_Sum ps monotonic temporality))))"

definition convertHistogram :: "php_engine \<Rightarrow> zval \<Rightarrow> metric_data result" where
  "convertHistogram e hist =
     bind_result (bind_result (read_values e hist ''dataPoints'') (for_each (convertHistogramDataPoint e))) (\<lambda>ps.
     bind_result (bind_result (readProperty e hist ''temporality'') convertTemporality) (\<lambda>temporality.
     Inr (Data_Histogram ps temporality)))"

definition metric_class :: "php_engine \<Rightarrow> bool \<Rightarrow> string \<Rightarrow> string" where
  "metric_class e scoped name = scoped_name e scoped (php_name [''OpenTelemetry'', ''SDK'', ''Metrics'', ''Data'', name])"

definition convertMetricData :: "php_engine \<Rightarrow> bool \<Rightarrow> zval \<Rightarrow> metric_data result" where
  "convertMetricData e scoped data =
     bind_result (instanceOf data (metric_class e scoped ''Gauge'')) (\<lambda>is_gauge.
     if is_gauge then convertGauge e data
     else bind_result (instanceOf data (metric_class e scoped ''Sum'')) (\<lambda>is_sum.
     if is_sum then convertSum e data
     else bind_result (instanceOf data (metric_class e scoped ''Histogram'')) (\<lambda>is_histogram.
     if is_histogram then convertHistogram e data
     else Inr Data_Unset)))"

definition convertMetric :: "php_engine \<Rightarrow> bool \<Rightarrow> zval \<Rightarrow> Metric result" where
  "convertMetric e scoped metric =
     bind_result (bind_result (readProperty e metric ''name'') getStringView) (\<lambda>name.
     bind_result (readProperty e metric ''description'') (\<lambda>description.
     bind_result (readProperty e metric ''unit'') (\<lambda>unit_text.
     bind_result (bind_result (readProperty e metric ''data'') (convertMetricData e scoped)) (\<lambda>data.
     Inr \<lparr>metric_name = name, metric_description = string_or [] description,
          metric_unit = string_or [] unit_text, metric_data = data\<rparr>))))"

definition metric_parts :: "php_engine \<Rightarrow> bool \<Rightarrow> zval \<Rightarrow> Metric item_parts result" where
  "metric_parts e scoped metric =
     bind_result (readProperty e metric ''resource'') (\<lambda>res.
     bind_result (readProperty e metric ''instrumentationScope'') (\<lambda>zscope.
     bind_result (getResourceId e res) (\<lambda>resourceId.
     bind_result (getScopeId e zscope) (\<lambda>scopeId.
     Inr \<lparr>item_resource_id = resourceId, item_scope_id = scopeId,
          item_resource = convertResourceMetrics e res,
          item_scope = convertScopeMetrics e zscope,
          item_message = convertMetric e scoped metric\<rparr>))))"

definition MetricConverter_convert :: "php_engine \<Rightarrow> bool \<Rightarrow> zval \<Rightarrow> Metric resource_group list result" where
  "MetricConverter_convert e scoped metrics =
     (if \<not> isArray metrics then Inl (Runtime_Error ''Invalid iterable passed to MetricsConverter'')
      else bind_result (array_values metrics) (\<lambda>vs.
           bind_result (group_items_loop (metric_parts e scoped) vs empty_grouping) (\<lambda>g. Inr (request g))))"

subsection \<open>The request a batch should give\<close>

text \<open>A batch whose conversions succeed, item by item.\<close>

record 'a placed =
  p_rid :: string
  p_sid :: string
  p_resource :: resource_part
  p_scope :: scope_part
  p_message :: 'a

definition parts_of :: "'a placed \<Rightarrow> 'a item_parts" where
  "parts_of p = \<lparr>item_resource_id = p_rid p, item_scope_id = p_sid p, item_resource = Inr (p_resource p),
     item_scope = Inr (p_scope p), item_message = Inr (p_message p)\<rparr>"

text \<open>The elements of a list in the order of their first occurrence.\<close>

definition firsts :: "'a list \<Rightarrow> 'a list" where
  "firsts xs = fold (\<lambda>x acc. if x \<in> set acc then acc else acc @ [x]) xs []"

definition in_resource :: "string \<Rightarrow> 'a placed list \<Rightarrow> 'a placed list" where
  "in_resource r ps = filter (\<lambda>p. p_rid p = r) ps"

definition in_scope :: "string \<Rightarrow> string \<Rightarrow> 'a placed list \<Rightarrow> 'a placed list" where
  "in_scope r s ps = filter (\<lambda>p. p_rid p = r \<and> p_sid p = s) ps"

definition resources :: "'a placed list \<Rightarrow> string list" where
  "resources ps = firsts (map p_rid ps)"

definition scopes :: "'a placed list \<Rightarrow> string \<Rightarrow> string list" where
  "scopes ps r = firsts (map p_sid (in_resource r ps))"

definition scope_entry :: "'a placed list \<Rightarrow> string \<Rightarrow> string \<Rightarrow> 'a scope_group" where
  "scope_entry ps r s = \<lparr>group_scope = p_scope (hd (in_scope r s ps)), group_items = map p_message (in_scope r s ps)\<rparr>"

definition resource_entry :: "'a placed list \<Rightarrow> string \<Rightarrow> 'a resource_group" where
  "resource_entry ps r = \<lparr>group_resource = p_resource (hd (in_resource r ps)),
     group_scopes = map (scope_entry ps r) (scopes ps r)\<rparr>"

text \<open>
  One group for each resource and in it one for each scope, in the order of their first
  items, with the descriptions of these first items, and the items in their order.
\<close>

definition grouped :: "'a placed list \<Rightarrow> 'a resource_group list" where
  "grouped ps = map (resource_entry ps) (resources ps)"

text \<open>
  Identifiers are outputs of PHP's \<open>serialize\<close> for arrays, which is self-delimiting: no output is a
  proper prefix of another.
\<close>

definition self_delimiting :: "string list \<Rightarrow> bool" where
  "self_delimiting ids \<longleftrightarrow> (\<forall>a \<in> set ids. \<forall>b \<in> set ids. prefix a b \<longrightarrow> a = b)"

subsection \<open>The grouping is exact\<close>

lemma firsts_simps [simp]:
  "firsts [] = []"
  "firsts (xs @ [x]) = (if x \<in> set (firsts xs) then firsts xs else firsts xs @ [x])"
  by (simp_all add: firsts_def)

lemma set_firsts [simp]: "set (firsts xs) = set xs"
  by (induction xs rule: rev_induct) auto

lemma distinct_firsts [simp]: "distinct (firsts xs)"
  by (induction xs rule: rev_induct) auto

lemma in_simps [simp]:
  "in_resource r (ps @ [p]) = (if p_rid p = r then in_resource r ps @ [p] else in_resource r ps)"
  "in_scope r s (ps @ [p]) = (if p_rid p = r \<and> p_sid p = s then in_scope r s ps @ [p] else in_scope r s ps)"
  by (simp_all add: in_resource_def in_scope_def)

lemma in_Nil_iff:
  "in_resource r ps = [] \<longleftrightarrow> r \<notin> set (resources ps)"
  "in_scope r s ps = [] \<longleftrightarrow> s \<notin> set (scopes ps r)"
  by (auto simp: in_resource_def in_scope_def resources_def scopes_def filter_empty_conv)

lemma hd_in_snoc [simp]:
  "r \<in> set (resources ps) \<Longrightarrow> hd (in_resource r ps @ xs) = hd (in_resource r ps)"
  "s \<in> set (scopes ps r) \<Longrightarrow> hd (in_scope r s ps @ xs) = hd (in_scope r s ps)"
  using in_Nil_iff(1) [of r ps] in_Nil_iff(2) [of r s ps] by (simp_all add: hd_append)

lemma resources_snoc:
  "resources (ps @ [p]) = (if p_rid p \<in> set (resources ps) then resources ps else resources ps @ [p_rid p])"
  by (simp add: resources_def)

lemma scopes_snoc:
  "scopes (ps @ [p]) r = (if p_rid p = r \<and> p_sid p \<notin> set (scopes ps r) then scopes ps r @ [p_sid p] else scopes ps r)"
  by (simp add: scopes_def)

lemma distinct_keys [simp]: "distinct (resources ps)" "distinct (scopes ps r)"
  by (simp_all add: resources_def scopes_def)

lemma scopes_new: "r \<notin> set (resources ps) \<Longrightarrow> scopes ps r = []"
  by (auto simp: scopes_def in_Nil_iff(1) [symmetric])

lemma map_update_at:
  assumes "distinct ks" "i < length ks" "ks ! i = k"
  shows "(map f ks)[i := v] = map (f(k := v)) ks"
  using assms by (auto simp: list_eq_iff_nth_eq nth_list_update nth_eq_iff_index_eq)

definition composite :: "string \<Rightarrow> string \<Rightarrow> string" where
  "composite r s = r @ ''|'' @ s"

lemma composite_inject:
  assumes "self_delimiting ids" "a \<in> set ids" "b \<in> set ids" "composite a s = composite b t"
  shows "a = b \<and> s = t"
proof -
  from assms(4) have "prefix a b \<or> prefix b a"
    unfolding composite_def by (metis prefixI prefix_same_cases)
  with assms(1-3) have "a = b" by (auto simp: self_delimiting_def)
  with assms(4) show ?thesis by (simp add: composite_def)
qed

lemma self_delimiting_mono: "set a \<subseteq> set b \<Longrightarrow> self_delimiting b \<Longrightarrow> self_delimiting a"
  unfolding self_delimiting_def by blast

text \<open>What the maps know of the items placed so far.\<close>

definition maps_ok :: "'a placed list \<Rightarrow> string list \<Rightarrow> (string \<Rightarrow> string list) \<Rightarrow> 'a grouping \<Rightarrow> bool" where
  "maps_ok ps rs ss g \<longleftrightarrow>
     (\<forall>r i. resource_map g r = Some i \<longleftrightarrow> i < length rs \<and> rs ! i = r)
     \<and> (\<forall>k i j. scope_map g k = Some (i, j) \<longleftrightarrow>
          i < length rs \<and> j < length (ss (rs ! i)) \<and> k = composite (rs ! i) (ss (rs ! i) ! j))"

definition half_entry :: "'a placed list \<Rightarrow> 'a placed list \<Rightarrow> string \<Rightarrow> 'a resource_group" where
  "half_entry ps ps' r = \<lparr>group_resource = p_resource (hd (in_resource r ps')),
     group_scopes = map (scope_entry ps r) (scopes ps r)\<rparr>"

definition full_entry :: "'a placed list \<Rightarrow> 'a placed list \<Rightarrow> string \<Rightarrow> 'a resource_group" where
  "full_entry ps ps' r = \<lparr>group_resource = p_resource (hd (in_resource r ps')),
     group_scopes = map (\<lambda>s. \<lparr>group_scope = p_scope (hd (in_scope r s ps')),
       group_items = map p_message (in_scope r s ps)\<rparr>) (scopes ps' r)\<rparr>"

lemma find_resource_ok:
  fixes g :: "'a grouping" and p :: "'a placed"
  assumes g: "request g = map (resource_entry ps) (resources ps)" "maps_ok ps (resources ps) (scopes ps) g"
  defines "ps' \<equiv> ps @ [p]"
  obtains i g1 where "find_resource (parts_of p) g = Inr (i, g1)" "i < length (resources ps')"
    "resources ps' ! i = p_rid p" "request g1 = map (half_entry ps ps') (resources ps')"
    "maps_ok ps (resources ps') (scopes ps) g1"
proof (cases "p_rid p \<in> set (resources ps)")
  case True
  then obtain i where i: "i < length (resources ps)" "resources ps ! i = p_rid p" by (auto simp: in_set_conv_nth)
  with g(2) have "resource_map g (p_rid p) = Some i" by (simp add: maps_ok_def)
  then have "find_resource (parts_of p) g = Inr (i, g)" by (simp add: find_resource_def parts_of_def)
  moreover have "map (resource_entry ps) (resources ps) = map (half_entry ps ps') (resources ps)"
    by (auto simp: resource_entry_def half_entry_def ps'_def)
  ultimately show thesis using that i g True by (simp add: ps'_def resources_snoc)
next
  case False
  then have none: "resource_map g (p_rid p) = None"
    using g(2) by (metis in_set_conv_nth maps_ok_def not_None_eq)
  have last: "half_entry ps ps' (p_rid p) = \<lparr>group_resource = p_resource p, group_scopes = []\<rparr>"
    using False in_Nil_iff(1) [of "p_rid p" ps] by (simp add: half_entry_def ps'_def scopes_new)
  have rest: "map (resource_entry ps) (resources ps) = map (half_entry ps ps') (resources ps)"
    using False by (auto simp: resource_entry_def half_entry_def ps'_def)
  let ?i = "length (request g)"
  let ?g = "g\<lparr>request := request g @ [\<lparr>group_resource = p_resource p, group_scopes = []\<rparr>],
              resource_map := (resource_map g)(p_rid p \<mapsto> ?i)\<rparr>"
  have len: "?i = length (resources ps)" using g(1) by simp
  have "find_resource (parts_of p) g = Inr (?i, ?g)"
    using none by (simp add: find_resource_def parts_of_def Let_def)
  moreover have "maps_ok ps (resources ps') (scopes ps) ?g"
    using g(2) False none len unfolding maps_ok_def
    by (auto simp: ps'_def resources_snoc nth_append less_Suc_eq scopes_new dest: nth_mem)
  moreover have "request ?g = map (half_entry ps ps') (resources ps')"
    using False last rest g(1) by (simp add: ps'_def resources_snoc)
  moreover have "?i < length (resources ps')" "resources ps' ! ?i = p_rid p"
    using False len by (simp_all add: ps'_def resources_snoc)
  ultimately show thesis using that by blast
qed

lemma find_scope_ok:
  fixes g1 :: "'a grouping" and ps :: "'a placed list" and p :: "'a placed"
  defines "ps' \<equiv> ps @ [p]"
  assumes inj: "self_delimiting (map p_rid ps')"
    and i: "i < length (resources ps')" "resources ps' ! i = p_rid p"
    and g: "request g1 = map (half_entry ps ps') (resources ps')" "maps_ok ps (resources ps') (scopes ps) g1"
  obtains j g2 where "find_scope i (parts_of p) g1 = Inr ((i, j), g2)" "j < length (scopes ps' (p_rid p))"
    "scopes ps' (p_rid p) ! j = p_sid p" "request g2 = map (full_entry ps ps') (resources ps')"
    "maps_ok ps (resources ps') (scopes ps') g2"
proof (cases "p_sid p \<in> set (scopes ps (p_rid p))")
  case True
  let ?r = "p_rid p"
  from True obtain j where j: "j < length (scopes ps ?r)" "scopes ps ?r ! j = p_sid p" by (auto simp: in_set_conv_nth)
  have same: "scopes ps' r = scopes ps r" for r using True by (auto simp: ps'_def scopes_snoc)
  then have same': "scopes ps' = scopes ps" by blast
  have "scope_map g1 (composite ?r (p_sid p)) = Some (i, j)" using g(2) i j by (simp add: maps_ok_def)
  then have "find_scope i (parts_of p) g1 = Inr ((i, j), g1)"
    by (simp add: find_scope_def parts_of_def composite_def Let_def)
  moreover have "half_entry ps ps' r = full_entry ps ps' r" for r
    unfolding half_entry_def full_entry_def same scope_entry_def by (auto simp: ps'_def)
  ultimately show thesis using that j g by (simp add: same')
next
  case False
  let ?r = "p_rid p" and ?j = "length (scopes ps (p_rid p))"
  have rids: "k < length (resources ps') \<Longrightarrow> resources ps' ! k \<in> set (map p_rid ps')" for k
    using nth_mem [of k "resources ps'"] unfolding resources_def set_firsts .
  have keys: "resources ps' ! k = ?r \<and> s = t"
    if "k < length (resources ps')" "composite (resources ps' ! k) s = composite ?r t" for k s t
    using composite_inject [OF inj rids [OF that(1)] rids [OF i(1)], of s t] that(2) i(2) by simp
  have scopes': "scopes ps' = (scopes ps)(?r := scopes ps ?r @ [p_sid p])"
    using False by (auto simp: ps'_def scopes_snoc)
  have "scope_map g1 (composite ?r (p_sid p)) \<noteq> Some (i', j')" for i' j'
  proof
    assume "scope_map g1 (composite ?r (p_sid p)) = Some (i', j')"
    then have ij: "i' < length (resources ps')" "j' < length (scopes ps (resources ps' ! i'))"
      "composite ?r (p_sid p) = composite (resources ps' ! i') (scopes ps (resources ps' ! i') ! j')"
      using g(2) by (simp_all add: maps_ok_def)
    from keys [OF ij(1) ij(3) [symmetric]] ij(2) False show False using nth_mem by force
  qed
  then have none: "scope_map g1 (composite ?r (p_sid p)) = None" by (cases "scope_map g1 (composite ?r (p_sid p))") auto
  let ?g = "g1\<lparr>request := append_scope i (p_scope p) (request g1),
               scope_map := (scope_map g1)(composite ?r (p_sid p) \<mapsto> (i, ?j))\<rparr>"
  have at_i: "request g1 ! i = half_entry ps ps' ?r" using g(1) i by simp
  have "find_scope i (parts_of p) g1 = Inr ((i, ?j), ?g)"
    using none at_i by (simp add: find_scope_def parts_of_def composite_def Let_def half_entry_def)
  moreover have "request ?g = map (full_entry ps ps') (resources ps')"
  proof -
    have "request ?g = map ((half_entry ps ps')(?r := (half_entry ps ps' ?r)\<lparr>group_scopes :=
        group_scopes (half_entry ps ps' ?r) @ [\<lparr>group_scope = p_scope p, group_items = []\<rparr>]\<rparr>)) (resources ps')"
      using map_update_at [OF distinct_keys(1) i] g(1) at_i by (simp add: append_scope_def)
    moreover have "((half_entry ps ps')(?r := (half_entry ps ps' ?r)\<lparr>group_scopes :=
        group_scopes (half_entry ps ps' ?r) @ [\<lparr>group_scope = p_scope p, group_items = []\<rparr>]\<rparr>)) r = full_entry ps ps' r" for r
      using False in_Nil_iff(2) [of ?r "p_sid p" ps]
      unfolding half_entry_def full_entry_def scope_entry_def scopes' by (auto simp: ps'_def)
    ultimately show ?thesis by simp
  qed
  moreover have "maps_ok ps (resources ps') (scopes ps') ?g"
  proof -
    have uniq: "i' < length (resources ps') \<Longrightarrow> resources ps' ! i' = ?r \<Longrightarrow> i' = i" for i'
      using i distinct_keys(1) [of ps'] by (metis nth_eq_iff_index_eq)
    have fresh: "composite (resources ps' ! i') (scopes ps (resources ps' ! i') ! j') \<noteq> composite ?r (p_sid p)"
      if "i' < length (resources ps')" "j' < length (scopes ps (resources ps' ! i'))" for i' j'
      using g(2) none that by (metis maps_ok_def option.distinct(1))
    have entry: "j' < length (scopes ps' r) \<and> k = composite r (scopes ps' r ! j') \<longleftrightarrow>
      (j' < length (scopes ps r) \<and> k = composite r (scopes ps r ! j')) \<or> (r = ?r \<and> j' = ?j \<and> k = composite ?r (p_sid p))" for r j' k
      by (auto simp: scopes' nth_append less_Suc_eq)
    have old: "scope_map g1 k = Some (i', j') \<longleftrightarrow> i' < length (resources ps') \<and>
      (j' < length (scopes ps (resources ps' ! i')) \<and> k = composite (resources ps' ! i') (scopes ps (resources ps' ! i') ! j'))" for k i' j'
      using g(2) by (simp add: maps_ok_def)
    have "scope_map ?g k = Some (i', j') \<longleftrightarrow> i' < length (resources ps') \<and>
      (j' < length (scopes ps' (resources ps' ! i')) \<and> k = composite (resources ps' ! i') (scopes ps' (resources ps' ! i') ! j'))" for k i' j'
      unfolding entry using old [of k i' j'] fresh [of i' j'] i by (auto dest: uniq)
    then show ?thesis using g(2) by (simp add: maps_ok_def)
  qed
  ultimately show thesis using that by (simp add: scopes')
qed

lemma append_item_ok:
  fixes ps :: "'a placed list" and p :: "'a placed"
  defines "ps' \<equiv> ps @ [p]"
  assumes i: "i < length (resources ps')" "resources ps' ! i = p_rid p"
    and j: "j < length (scopes ps' (p_rid p))" "scopes ps' (p_rid p) ! j = p_sid p"
  shows "append_item i j (p_message p) (map (full_entry ps ps') (resources ps')) = grouped ps'"
proof -
  let ?r = "p_rid p" and ?E = "full_entry ps ps'"
  let ?F = "\<lambda>s. \<lparr>group_scope = p_scope (hd (in_scope ?r s ps')), group_items = map p_message (in_scope ?r s ps)\<rparr>"
  have "append_item i j (p_message p) (map ?E (resources ps')) =
      map (?E(?r := (?E ?r)\<lparr>group_scopes := map (?F(p_sid p := (?F (p_sid p))\<lparr>group_items :=
        group_items (?F (p_sid p)) @ [p_message p]\<rparr>)) (scopes ps' ?r)\<rparr>)) (resources ps')"
    using map_update_at [OF distinct_keys(1) i] map_update_at [OF distinct_keys(2) j, of ?F] i j
    by (simp add: append_item_def full_entry_def)
  also have "\<dots> = grouped ps'"
    unfolding grouped_def by (auto simp: full_entry_def resource_entry_def scope_entry_def ps'_def)
  finally show ?thesis .
qed

lemma place_item_ok:
  assumes "request g = grouped ps" "maps_ok ps (resources ps) (scopes ps) g" "self_delimiting (map p_rid (ps @ [p]))"
  shows "\<exists>g'. place_item (parts_of p) g = Inr g' \<and> request g' = grouped (ps @ [p]) \<and>
    maps_ok (ps @ [p]) (resources (ps @ [p])) (scopes (ps @ [p])) g'"
proof -
  from find_resource_ok [OF assms(1) [unfolded grouped_def] assms(2)] obtain i g1
    where 1: "find_resource (parts_of p) g = Inr (i, g1)" "i < length (resources (ps @ [p]))"
      "resources (ps @ [p]) ! i = p_rid p" "request g1 = map (half_entry ps (ps @ [p])) (resources (ps @ [p]))"
      "maps_ok ps (resources (ps @ [p])) (scopes ps) g1"
    by metis
  from find_scope_ok [OF assms(3) 1(2-5)] obtain j g2
    where 2: "find_scope i (parts_of p) g1 = Inr ((i, j), g2)" "j < length (scopes (ps @ [p]) (p_rid p))"
      "scopes (ps @ [p]) (p_rid p) ! j = p_sid p" "request g2 = map (full_entry ps (ps @ [p])) (resources (ps @ [p]))"
      "maps_ok ps (resources (ps @ [p])) (scopes (ps @ [p])) g2"
    by metis
  have "item_message (parts_of p) = Inr (p_message p)" by (simp add: parts_of_def)
  with 1 2 append_item_ok [OF 1(2,3) 2(2,3)] show ?thesis
    by (simp add: place_item_def) (simp add: maps_ok_def)
qed

lemma group_loop_ok:
  assumes "map parts vs = map (\<lambda>p. Inr (parts_of p)) ps" "request g = grouped ps0" "maps_ok ps0 (resources ps0) (scopes ps0) g"
    "self_delimiting (map p_rid (ps0 @ ps))"
  shows "\<exists>g'. group_items_loop parts vs g = Inr g' \<and> request g' = grouped (ps0 @ ps)"
  using assms
proof (induction vs arbitrary: ps ps0 g)
  case Nil
  then show ?case by simp
next
  case (Cons v vs)
  from Cons.prems(1) obtain p ps' where ps: "ps = p # ps'" "parts v = Inr (parts_of p)" "map parts vs = map (\<lambda>p. Inr (parts_of p)) ps'"
    by (cases ps) simp_all
  have "self_delimiting (map p_rid (ps0 @ [p]))" by (rule self_delimiting_mono [OF _ Cons.prems(4)]) (auto simp: ps(1))
  from place_item_ok [OF Cons.prems(2,3) this] obtain g'
    where g': "place_item (parts_of p) g = Inr g'" "request g' = grouped (ps0 @ [p])"
      "maps_ok (ps0 @ [p]) (resources (ps0 @ [p])) (scopes (ps0 @ [p])) g'" by blast
  have "self_delimiting (map p_rid ((ps0 @ [p]) @ ps'))" using Cons.prems(4) by (simp add: ps(1))
  from Cons.IH [OF ps(3) g'(2,3) this] show ?case by (simp add: ps(1,2) g'(1))
qed

lemma empty_grouping_ok: "request empty_grouping = grouped []" "maps_ok [] (resources []) (scopes []) empty_grouping"
  by (simp_all add: empty_grouping_def grouped_def resources_def maps_ok_def)

lemma convert_loop:
  assumes "array_values batch = Inr vs" "map parts vs = map (\<lambda>p. Inr (parts_of p)) ps" "self_delimiting (map p_rid ps)"
  shows "(if \<not> isArray batch then Inl err else bind_result (array_values batch) (\<lambda>vs.
    bind_result (group_items_loop parts vs empty_grouping) (\<lambda>g. Inr (request g)))) = Inr (grouped ps)"
proof -
  have "isArray batch" using assms(1) by (cases batch) simp_all
  moreover have "self_delimiting (map p_rid ([] @ ps))" using assms(3) by simp
  from group_loop_ok [OF assms(2) empty_grouping_ok this] obtain g'
    where "group_items_loop parts vs empty_grouping = Inr g'" "request g' = grouped ps" by auto
  ultimately show ?thesis using assms(1) by simp
qed

text \<open>
  C20. Exporting a batch of spans, log records or metrics. If each item can be taken apart and
  converted, and the resource identifiers are self-delimiting as outputs of \<open>serialize\<close> are, then
  the request consists of one group per resource and in it one group per scope, in the
  order of first occurrence and described by the first item; every item is in the group of
  its own resource and scope, exactly once and in batch order. So the composite
  key with the bar confuses no two scopes. Anything but an array is refused.
\<close>

theorem otlp_batches_are_grouped:
  "(array_values spans = Inr vs \<longrightarrow> map (span_parts e scoped) vs = map (\<lambda>p. Inr (parts_of p)) ps \<longrightarrow>
      self_delimiting (map p_rid ps) \<longrightarrow> SpanConverter_convert e scoped spans = Inr (grouped ps))
   \<and> (array_values logs = Inr lvs \<longrightarrow> map (log_parts e) lvs = map (\<lambda>p. Inr (parts_of p)) lps \<longrightarrow>
      self_delimiting (map p_rid lps) \<longrightarrow> LogsConverter_convert e logs = Inr (grouped lps))
   \<and> (array_values metrics = Inr mvs \<longrightarrow> map (metric_parts e scoped) mvs = map (\<lambda>p. Inr (parts_of p)) mps \<longrightarrow>
      self_delimiting (map p_rid mps) \<longrightarrow> MetricConverter_convert e scoped metrics = Inr (grouped mps))
   \<and> (\<not> isArray v \<longrightarrow> \<not> is_ok (SpanConverter_convert e scoped v) \<and> \<not> is_ok (LogsConverter_convert e v)
        \<and> \<not> is_ok (MetricConverter_convert e scoped v))"
proof (intro conjI impI)
  assume "array_values spans = Inr vs" "map (span_parts e scoped) vs = map (\<lambda>p. Inr (parts_of p)) ps" "self_delimiting (map p_rid ps)"
  from convert_loop [OF this] show "SpanConverter_convert e scoped spans = Inr (grouped ps)"
    unfolding SpanConverter_convert_def .
next
  assume "array_values logs = Inr lvs" "map (log_parts e) lvs = map (\<lambda>p. Inr (parts_of p)) lps" "self_delimiting (map p_rid lps)"
  from convert_loop [OF this] show "LogsConverter_convert e logs = Inr (grouped lps)"
    unfolding LogsConverter_convert_def .
next
  assume "array_values metrics = Inr mvs" "map (metric_parts e scoped) mvs = map (\<lambda>p. Inr (parts_of p)) mps"
    "self_delimiting (map p_rid mps)"
  from convert_loop [OF this] show "MetricConverter_convert e scoped metrics = Inr (grouped mps)"
    unfolding MetricConverter_convert_def .
qed (simp_all add: SpanConverter_convert_def LogsConverter_convert_def MetricConverter_convert_def)

text \<open>An engine in which every object answers alike.\<close>

definition demo_engine :: php_engine where
  "demo_engine = \<lparr>
     call_user_method = (\<lambda>v m.
       if m = ''getAttributes'' then Some (Obj ''Attributes'' 9)
       else if m = ''getDroppedAttributesCount'' then Some (Long 0)
       else if m = ''toArray'' then Some (Arr [] 0)
       else if m = ''getName'' then Some (Str ''scope'' False)
       else Some Null),
     zend_read_property = (\<lambda>v p.
       if p = ''name'' then Some (Str ''metric'' False)
       else if p = ''description'' \<or> p = ''unit'' then None
       else Some (Obj ''Object'' 1)),
     php_serialize = (\<lambda>_. Some (Str ''a:0:{}'' False)), next_free_start = 0, scoper_prefix = []\<rparr>"

definition demo_metric :: "Metric placed" where
  "demo_metric = \<lparr>p_rid = ''a:0:{}'', p_sid = ''a:0:{}'',
     p_resource = \<lparr>resource_attributes = [], resource_dropped = 0, resource_schema_url = []\<rparr>,
     p_scope = \<lparr>scope_name = ''scope'', scope_version = [], scope_attributes = [], scope_dropped = 0, scope_schema_url = []\<rparr>,
     p_message = \<lparr>metric_name = ''metric'', metric_description = [], metric_unit = [], metric_data = Data_Unset\<rparr>\<rparr>"

lemmas converter_defs = metric_parts_def readProperty_def AutoZval_of_pointer_def getResourceId_def getScopeId_def callMethod_def
  php_serialize_zval_def convertResourceMetrics_def convertScopeMetrics_def convertAttributes_def dropped_count_def
  call_long_def call_string_def call_opt_string_def string_or_def convertMetric_def convertMetricData_def metric_class_def
  scoped_name_def map_filter_simps

lemma demo_metric_parts: "metric_parts demo_engine False (Obj ''Metric'' h) = Inr (parts_of demo_metric)"
  by (simp add: converter_defs parts_of_def demo_engine_def demo_metric_def)

theorem otlp_batches_are_grouped_witness:
  "MetricConverter_convert demo_engine False (Arr [(Int_Key 0, Obj ''Metric'' 4), (Int_Key 1, Obj ''Metric'' 5)] 2)
     = Inr (grouped [demo_metric, demo_metric])"
  using otlp_batches_are_grouped [of "Arr [] 0" "[]" demo_engine False "[]" "Arr [] 0" "[]" "[]"
      "Arr [(Int_Key 0, Obj ''Metric'' 4), (Int_Key 1, Obj ''Metric'' 5)] 2" "[Obj ''Metric'' 4, Obj ''Metric'' 5]"
      "[demo_metric, demo_metric]" Null]
  by (simp add: demo_metric_parts self_delimiting_def)

subsection \<open>Span kinds, status and identifiers\<close>

text \<open>Of the five kinds of the PHP SDK none is confused with another, and only they are known.\<close>

lemma convertSpanKind_known:
  "convertSpanKind k = SPAN_KIND_UNSPECIFIED \<longleftrightarrow> k \<notin> {0, 1, 2, 3, 4}"
  by (simp add: convertSpanKind_def)

lemma convertSpanKind_inject:
  "convertSpanKind j \<noteq> SPAN_KIND_UNSPECIFIED \<Longrightarrow> convertSpanKind j = convertSpanKind k \<Longrightarrow> j = k"
  by (simp add: convertSpanKind_def split: if_splits)

text \<open>The flags keep the low byte of the context; bit 8 is always set and bit 9 tells whether it is remote.\<close>

lemma remote_flags:
  assumes "callMethod e ctx ''isRemote'' = Inr (Bool remote)"
  shows "\<exists>f. addRemoteFlags e ctx base = Inr f \<and> and f 0xFF = and base 0xFF \<and> bit f 8
    \<and> (bit f 9 \<longleftrightarrow> remote \<or> bit base 9)"
proof -
  have "bit (0x100 :: 32 word) 8" "\<not> bit (0x100 :: 32 word) 9" "bit (0x200 :: 32 word) 9" by simp_all
  moreover have "and (0x100 :: 32 word) 0xFF = 0" "and (0x200 :: 32 word) 0xFF = 0" by simp_all
  ultimately show ?thesis using assms
    by (cases remote) (simp_all add: addRemoteFlags_def call_bool_def bit_or_iff bit.conj_disj_distrib2)
qed

text \<open>\<open>hex2bin\<close> undoes hexadecimal printing.\<close>

fun bin2hex :: "string \<Rightarrow> string" where
  "bin2hex [] = []"
| "bin2hex (c # cs) = (let d = (\<lambda>n. char_of (if n < 10 then 48 + n else 87 + n))
     in d (char_code c div 16) # d (char_code c mod 16) # bin2hex cs)"

lemma xdigit_nibble:
  assumes "n < 16"
  shows "isxdigit (char_of (if n < 10 then 48 + n else 87 + n :: nat))"
    "xdigit_value (char_of (if n < 10 then 48 + n else 87 + n :: nat)) = n"
  using assms by (auto simp: isxdigit_def in_range_def xdigit_value_def isdigit_def)

lemma hex2bin_bin2hex: "hex2bin (bin2hex s) = Inr s"
proof -
  have "unhex (bin2hex s) = Inr s"
  proof (induction s)
    case Nil
    then show ?case by simp
  next
    case (Cons c cs)
    have "char_code c div 16 < 16" by (rule less_mult_imp_div_less) simp
    with Cons xdigit_nibble [of "char_code c div 16"] xdigit_nibble [of "char_code c mod 16"]
    show ?case by (simp add: Let_def)
  qed
  moreover have "length (bin2hex s) mod 2 = 0" by (induction s) (simp_all add: Let_def)
  ultimately show ?thesis by (simp add: hex2bin_def)
qed

end
