(* ===== verification/Logging.thy ===== *)
theory Logging
  imports Configuration
begin

section \<open>Logging\<close>

text \<open>
  libcommon/code/Logger.h, Logger.cpp, the macro \<open>ELOG\<close> of LoggerInterface.h, and from
  extension/code/ModuleEntry.cpp the logger that is built at start and the function that adapts it
  to a configuration. Writing to a file descriptor and to syslog are the output; opening a
  file, the clock and the process and thread numbers are parameters. Shown: a message
  reaches exactly the sinks the configuration enables for it, and at most one log file is open.
\<close>

subsection \<open>Sinks\<close>

text \<open>
  The three sinks that exist, shared between the logger and the update function;
  \<open>log_fds\<close> are the descriptors of log files that the process has open.
\<close>

datatype sink = LoggerSinkStdErr | LoggerSinkSysLog | LoggerSinkFile

record sink_state =
  stderr_level :: LogLevel
  syslog_level :: LogLevel
  file_level :: LogLevel
  log_fd :: "nat option"
  openedFilePath :: string
  log_fds :: "(nat \<times> string) list"

datatype log_output = To_StdErr string | To_SysLog string | To_File nat string

definition sinks_start :: sink_state where
  "sinks_start = \<lparr>stderr_level = logLevel_off, syslog_level = logLevel_warning, file_level = logLevel_off,
     log_fd = None, openedFilePath = [], log_fds = []\<rparr>"

fun getLevel :: "sink \<Rightarrow> sink_state \<Rightarrow> LogLevel" where
  "getLevel LoggerSinkStdErr st = stderr_level st"
| "getLevel LoggerSinkSysLog st = syslog_level st"
| "getLevel LoggerSinkFile st = file_level st"

fun setLevel :: "sink \<Rightarrow> LogLevel \<Rightarrow> sink_state \<Rightarrow> sink_state" where
  "setLevel LoggerSinkStdErr l st = st\<lparr>stderr_level := l\<rparr>"
| "setLevel LoggerSinkSysLog l st = st\<lparr>syslog_level := l\<rparr>"
| "setLevel LoggerSinkFile l st = st\<lparr>file_level := l\<rparr>"

text \<open>syslog gets the text through a format that stops at a NUL.\<close>

fun writeLog :: "sink \<Rightarrow> sink_state \<Rightarrow> string \<Rightarrow> log_output list" where
  "writeLog LoggerSinkStdErr st formattedOutput = [To_StdErr formattedOutput]"
| "writeLog LoggerSinkSysLog st formattedOutput = [To_SysLog (c_str formattedOutput)]"
| "writeLog LoggerSinkFile st formattedOutput =
     (case log_fd st of None \<Rightarrow> [] | Some fd \<Rightarrow> [To_File fd formattedOutput])"

definition reopen :: "(string \<Rightarrow> nat option) \<Rightarrow> string \<Rightarrow> sink_state \<Rightarrow> bool \<times> sink_state" where
  "reopen open_log fileName st =
     (if openedFilePath st = fileName then (True, st)
      else let st = (case log_fd st of
                       Some fd \<Rightarrow> st\<lparr>log_fds := filter (\<lambda>(d, _). d \<noteq> fd) (log_fds st), openedFilePath := []\<rparr>
                     | None \<Rightarrow> st)
           in case open_log fileName of
                Some fd \<Rightarrow> (True, st\<lparr>log_fd := Some fd, log_fds := (fd, fileName) # log_fds st, openedFilePath := fileName\<rparr>)
              | None \<Rightarrow> (False, st\<lparr>log_fd := None\<rparr>))"

subsection \<open>The logger\<close>

text \<open>\<open>feature_ALL\<close> stands for the code of the feature \<open>ALL\<close>; the codes are generated.\<close>

record Logger =
  sinks :: "sink list"
  features :: "LogFeature \<rightharpoonup> LogLevel"

definition setLogFeatures :: "(LogFeature \<rightharpoonup> LogLevel) \<Rightarrow> Logger \<Rightarrow> Logger" where
  "setLogFeatures fs lg = lg\<lparr>features := fs\<rparr>"

definition attachSink :: "sink \<Rightarrow> Logger \<Rightarrow> Logger" where
  "attachSink s lg = lg\<lparr>sinks := sinks lg @ [s]\<rparr>"

definition getMaxLogLevel :: "Logger \<Rightarrow> sink_state \<Rightarrow> LogLevel" where
  "getMaxLogLevel lg st = fold (\<lambda>s m. if getLevel s st < m then m else getLevel s st) (sinks lg) logLevel_off"

definition doesMeetsLevelCondition :: "Logger \<Rightarrow> sink_state \<Rightarrow> LogLevel \<Rightarrow> bool" where
  "doesMeetsLevelCondition lg st level \<longleftrightarrow>
     level \<le> fold (\<lambda>s m. if getLevel s st < m then m else getLevel s st) (sinks lg) logLevel_off"

definition doesFeatureMeetsLevelCondition :: "LogFeature \<Rightarrow> Logger \<Rightarrow> sink_state \<Rightarrow> LogLevel \<Rightarrow> LogFeature \<Rightarrow> bool" where
  "doesFeatureMeetsLevelCondition feature_ALL lg st level feature =
     (if features lg = Map.empty then doesMeetsLevelCondition lg st level
      else case features lg feature of
             Some l \<Rightarrow> level \<le> l
           | None \<Rightarrow> (case features lg feature_ALL of Some l \<Rightarrow> level \<le> l | None \<Rightarrow> False))"

text \<open>Numbers with leading zeros (\<open>%4.4d\<close> and the like); the fields of \<open>struct tm\<close>.\<close>

definition padded :: "nat \<Rightarrow> int \<Rightarrow> string" where
  "padded w i = (if i < 0 then [CHR ''-''] else [])
     @ (let s = nat_to_string (nat \<bar>i\<bar>) in replicate (w - length s) (CHR ''0'') @ s)"

record calendar_time =
  tm_year :: int
  tm_mon :: int
  tm_mday :: int
  tm_hour :: int
  tm_min :: int
  tm_sec :: int

record log_moment =
  lm_tm :: calendar_time
  lm_micros :: int
  lm_pid :: int
  lm_tid :: int

definition getFormattedTime :: "log_moment \<Rightarrow> string" where
  "getFormattedTime m = (let t = lm_tm m in
     CHR ''['' # padded 4 (tm_year t + 1900) @ ''-'' @ padded 2 (tm_mon t + 1) @ ''-'' @ padded 2 (tm_mday t) @ '' ''
       @ padded 2 (tm_hour t) @ '':'' @ padded 2 (tm_min t) @ '':'' @ padded 2 (tm_sec t) @ ''.'' @ padded 6 (lm_micros m) @ '' UTC]'')"

definition getFormattedProcessData :: "log_moment \<Rightarrow> string" where
  "getFormattedProcessData m = CHR ''['' # int_to_string (lm_pid m) @ ''/'' @ int_to_string (lm_tid m) @ '']''"

text \<open>The line, and the pieces of it that are handed to the sinks: message, time, level and process.\<close>

record log_pieces =
  piece_output :: string
  piece_message :: string
  piece_time :: string
  piece_level :: string
  piece_process :: string

definition log_line :: "log_moment \<Rightarrow> LogLevel \<Rightarrow> string \<Rightarrow> log_pieces" where
  "log_line m level message =
     (let output = ''[OTEL] '' @ getFormattedTime m @ '' '';
          indexOfProcessData = length output;
          output = output @ getFormattedProcessData m;
          indexOfLogLevel = length output;
          output = output @ '' ['' @ getLogLevelName level @ ''] '';
          indexOfMessage = length output;
          output = output @ message @ [CHR 0x0A]
      in \<lparr>piece_output = output,
          piece_message = take (length output - indexOfMessage - 1) (drop indexOfMessage output),
          piece_time = take (indexOfProcessData - 1) output,
          piece_level = take (indexOfMessage - indexOfLogLevel - 2) (drop (indexOfLogLevel + 1) output),
          piece_process = take (indexOfLogLevel - indexOfProcessData) (drop indexOfProcessData output)\<rparr>)"

definition Logger_log :: "log_moment \<Rightarrow> Logger \<Rightarrow> sink_state \<Rightarrow> LogLevel \<Rightarrow> string \<Rightarrow> log_output list" where
  "Logger_log m lg st level message =
     concat (map (\<lambda>s. if getLevel s st < level then [] else writeLog s st (piece_output (log_line m level message))) (sinks lg))"

text \<open>\<open>printf\<close> does the same with a message that \<open>stringVPrintf\<close> has made of format and arguments.\<close>

definition Logger_printf :: "log_moment \<Rightarrow> Logger \<Rightarrow> sink_state \<Rightarrow> LogLevel \<Rightarrow> string \<Rightarrow> log_output list" where
  "Logger_printf m lg st level msg =
     concat (map (\<lambda>s. if getLevel s st < level then [] else writeLog s st (piece_output (log_line m level msg))) (sinks lg))"

definition ELOG ::
    "LogFeature \<Rightarrow> log_moment \<Rightarrow> Logger \<Rightarrow> sink_state \<Rightarrow> LogLevel \<Rightarrow> LogFeature \<times> string \<Rightarrow> string \<Rightarrow> log_output list" where
  "ELOG feature_ALL m lg st level feature text =
     (if \<not> doesFeatureMeetsLevelCondition feature_ALL lg st level (fst feature) then []
      else Logger_log m lg st level (CHR ''['' # snd feature @ ''] '' @ text))"

subsection \<open>The logger of the extension\<close>

definition GINIT_logger :: Logger where
  "GINIT_logger = \<lparr>sinks = [LoggerSinkStdErr, LoggerSinkSysLog, LoggerSinkFile], features = Map.empty\<rparr>"

definition snapshot_text :: "string \<Rightarrow> ConfigurationSnapshot \<Rightarrow> string" where
  "snapshot_text n c = (case members c n of Some (Val_string s) \<Rightarrow> s | _ \<Rightarrow> [])"

definition snapshot_level :: "string \<Rightarrow> ConfigurationSnapshot \<Rightarrow> LogLevel" where
  "snapshot_level n c = (case members c n of Some (Val_loglevel l) \<Rightarrow> l | _ \<Rightarrow> logLevel_off)"

text \<open>What the function uses of its surroundings: the names of features, \<open>open\<close>, the process number and the time.\<close>

record log_env =
  enum_cast :: "string \<Rightarrow> LogFeature option"
  open_log :: "string \<Rightarrow> nat option"
  log_pid :: nat
  log_now :: nat

definition loggerConfigUpdateFunc :: "log_env \<Rightarrow> ConfigurationSnapshot \<Rightarrow> Logger \<times> sink_state \<Rightarrow> Logger \<times> sink_state" where
  "loggerConfigUpdateFunc env cfg s = (case s of (lg, st) \<Rightarrow>
     let st = setLevel LoggerSinkStdErr (snapshot_level ''log_level_stderr'' cfg) st;
         st = setLevel LoggerSinkSysLog (snapshot_level ''log_level_syslog'' cfg) st;
         st = (if snapshot_text ''log_file'' cfg = [] then setLevel LoggerSinkFile logLevel_off st
               else snd (reopen (open_log env) (getParameterizedString (log_pid env) (log_now env) (snapshot_text ''log_file'' cfg))
                          (setLevel LoggerSinkFile (snapshot_level ''log_level_file'' cfg) st)))
     in (setLogFeatures (parseLogFeatures (enum_cast env) (snapshot_text ''log_features'' cfg)) lg, st))"

subsection \<open>Who gets a message\<close>

lemma max_level_fold:
  "level \<le> fold (\<lambda>s m. if getLevel s st < m then m else getLevel s st) ss a \<longleftrightarrow> level \<le> a \<or> (\<exists>s \<in> set ss. level \<le> getLevel s st)"
  by (induction ss arbitrary: a) (auto simp: not_less)

lemma doesMeetsLevelCondition_iff:
  "doesMeetsLevelCondition lg st level \<longleftrightarrow> level \<le> logLevel_off \<or> (\<exists>s \<in> set (sinks lg). level \<le> getLevel s st)"
  by (simp add: doesMeetsLevelCondition_def max_level_fold)

lemma getMaxLogLevel_iff: "level \<le> getMaxLogLevel lg st \<longleftrightarrow> doesMeetsLevelCondition lg st level"
  by (simp add: getMaxLogLevel_def doesMeetsLevelCondition_def)

text \<open>The pieces are the parts the line was made of.\<close>

lemma log_line_pieces:
  "piece_output (log_line m level msg) = piece_time (log_line m level msg) @ '' '' @ piece_process (log_line m level msg)
     @ '' '' @ piece_level (log_line m level msg) @ '' '' @ piece_message (log_line m level msg) @ [CHR 0x0A]"
  "piece_message (log_line m level msg) = msg" "piece_level (log_line m level msg) = ''['' @ getLogLevelName level @ '']''"
  "piece_process (log_line m level msg) = getFormattedProcessData m"
  by (simp_all add: log_line_def Let_def)

lemma Logger_log_eq:
  "Logger_log m lg st level msg =
     concat (map (\<lambda>s. if level \<le> getLevel s st then writeLog s st (piece_output (log_line m level msg)) else []) (sinks lg))"
  unfolding Logger_log_def by (intro arg_cong [where f = concat] map_cong) auto

text \<open>The level condition that is tested first never suppresses what a sink would take.\<close>

lemma log_without_condition:
  "\<not> doesMeetsLevelCondition lg st level \<Longrightarrow> Logger_log m lg st level msg = []"
  by (auto simp: doesMeetsLevelCondition_iff Logger_log_def not_le)

definition feature_enabled :: "LogFeature \<Rightarrow> (LogFeature \<rightharpoonup> LogLevel) \<Rightarrow> LogFeature \<Rightarrow> LogLevel \<Rightarrow> bool" where
  "feature_enabled feature_ALL fs feature level \<longleftrightarrow> fs = Map.empty
     \<or> (\<exists>l. (fs feature = Some l \<or> fs feature = None \<and> fs feature_ALL = Some l) \<and> level \<le> l)"

lemma ELOG_eq:
  "ELOG feature_ALL m lg st level feature body =
     (if feature_enabled feature_ALL (features lg) (fst feature) level
      then Logger_log m lg st level (CHR ''['' # snd feature @ ''] '' @ body) else [])"
  by (auto simp: ELOG_def doesFeatureMeetsLevelCondition_def feature_enabled_def log_without_condition split: option.splits)

text \<open>The logger after the configurations that were applied since the start.\<close>

definition configured_logger :: "(log_env \<times> ConfigurationSnapshot) list \<Rightarrow> Logger \<times> sink_state" where
  "configured_logger updates = fold (\<lambda>(env, cfg). loggerConfigUpdateFunc env cfg) updates (GINIT_logger, sinks_start)"

lemma configured_logger_snoc:
  "configured_logger (updates @ [(env, cfg)]) = loggerConfigUpdateFunc env cfg (configured_logger updates)"
  by (simp add: configured_logger_def)

lemma reopen_levels [simp]:
  "stderr_level (snd (reopen op n st)) = stderr_level st" "syslog_level (snd (reopen op n st)) = syslog_level st"
  "file_level (snd (reopen op n st)) = file_level st"
  by (auto simp: reopen_def Let_def split: option.split)

lemma update_levels:
  assumes "loggerConfigUpdateFunc env cfg (lg, st) = (lg', st')"
  shows "stderr_level st' = snapshot_level ''log_level_stderr'' cfg"
    "syslog_level st' = snapshot_level ''log_level_syslog'' cfg"
    "file_level st' = (if snapshot_text ''log_file'' cfg = [] then logLevel_off else snapshot_level ''log_level_file'' cfg)"
    "sinks lg' = sinks lg" "features lg' = parseLogFeatures (enum_cast env) (snapshot_text ''log_features'' cfg)"
proof -
  have "lg' = fst (loggerConfigUpdateFunc env cfg (lg, st))" "st' = snd (loggerConfigUpdateFunc env cfg (lg, st))"
    by (simp_all add: assms)
  note parts = this [unfolded loggerConfigUpdateFunc_def Let_def prod.case fst_conv snd_conv]
  show "stderr_level st' = snapshot_level ''log_level_stderr'' cfg"
    "syslog_level st' = snapshot_level ''log_level_syslog'' cfg"
    "file_level st' = (if snapshot_text ''log_file'' cfg = [] then logLevel_off else snapshot_level ''log_level_file'' cfg)"
    unfolding parts(2) by simp_all
  show "sinks lg' = sinks lg" "features lg' = parseLogFeatures (enum_cast env) (snapshot_text ''log_features'' cfg)"
    unfolding parts(1) by (simp_all add: setLogFeatures_def)
qed

lemma update_sinks [simp]: "sinks (fst (loggerConfigUpdateFunc env cfg s)) = sinks (fst s)"
  by (cases s) (simp add: loggerConfigUpdateFunc_def setLogFeatures_def Let_def del: setLevel.simps)

lemma configured_sinks: "sinks (fst (configured_logger updates)) = [LoggerSinkStdErr, LoggerSinkSysLog, LoggerSinkFile]"
proof (induction updates rule: rev_induct)
  case Nil
  then show ?case by (simp add: configured_logger_def GINIT_logger_def)
next
  case (snoc u us)
  then show ?case by (cases u) (simp add: configured_logger_snoc)
qed

text \<open>
  C31. A message of some level reaches exactly the sinks that the last configuration enables for it: provided the
  configured features let the level pass (the feature's own entry, else that of \<open>ALL\<close>; any level
  if no features are configured), it is written to the error output if the level of that
  sink reaches it, to syslog likewise, and to the log file if one is configured, its level
  reaches it and the file could be opened; to each once, as the same line.
\<close>

theorem messages_reach_exactly_the_enabled_sinks:
  assumes "level \<noteq> logLevel_off"
  shows "let (lg, st) = configured_logger (updates @ [(env, cfg)]);
             message = piece_output (log_line m level (CHR ''['' # snd feature @ ''] '' @ body))
         in ELOG feature_ALL m lg st level feature body =
              (if feature_enabled feature_ALL (parseLogFeatures (enum_cast env) (snapshot_text ''log_features'' cfg)) (fst feature) level
               then (if level \<le> snapshot_level ''log_level_stderr'' cfg then [To_StdErr message] else [])
                 @ (if level \<le> snapshot_level ''log_level_syslog'' cfg then [To_SysLog (c_str message)] else [])
                 @ (case log_fd st of
                      Some fd \<Rightarrow> if snapshot_text ''log_file'' cfg \<noteq> [] \<and> level \<le> snapshot_level ''log_level_file'' cfg
                                 then [To_File fd message] else []
                    | None \<Rightarrow> [])
               else [])"
proof -
  obtain lg0 st0 where before: "configured_logger updates = (lg0, st0)" by fastforce
  obtain lg st where after: "loggerConfigUpdateFunc env cfg (lg0, st0) = (lg, st)" by fastforce
  have off: "\<not> level \<le> logLevel_off" using assms by (cases level) (simp_all add: less_eq_LogLevel_def)
  have "sinks lg = [LoggerSinkStdErr, LoggerSinkSysLog, LoggerSinkFile]"
    using configured_sinks [of updates] before update_levels(4) [OF after] by simp
  note shape = this update_levels [OF after]
  define message where "message = (\<lambda>t. piece_output (log_line m level t))"
  have written: "Logger_log m lg st level t =
      (if level \<le> stderr_level st then [To_StdErr (message t)] else [])
      @ (if level \<le> syslog_level st then [To_SysLog (c_str (message t))] else [])
      @ (if level \<le> file_level st then case log_fd st of None \<Rightarrow> [] | Some fd \<Rightarrow> [To_File fd (message t)] else [])" for t
    unfolding Logger_log_eq shape(1) message_def by simp
  have to_file: "level \<le> file_level st \<longleftrightarrow> snapshot_text ''log_file'' cfg \<noteq> [] \<and> level \<le> snapshot_level ''log_level_file'' cfg"
    unfolding shape using off by simp
  show ?thesis
    unfolding configured_logger_snoc before after Let_def prod.case ELOG_eq written to_file shape(6) shape(2,3)
    by (cases "log_fd st") (simp_all add: message_def)
qed

definition demo_moment :: log_moment where
  "demo_moment = \<lparr>lm_tm = \<lparr>tm_year = 125, tm_mon = 0, tm_mday = 2, tm_hour = 3, tm_min = 4, tm_sec = 5\<rparr>,
     lm_micros = 6, lm_pid = 7, lm_tid = 8\<rparr>"

definition demo_log_env :: log_env where
  "demo_log_env = \<lparr>enum_cast = (\<lambda>_. None), open_log = (\<lambda>_. Some 3), log_pid = 7, log_now = 0\<rparr>"

theorem messages_reach_exactly_the_enabled_sinks_witness:
  "let (lg, st) = configured_logger [(demo_log_env, default_snapshot)]
   in ELOG 0 demo_moment lg st logLevel_error (0, ''ALL'') ''x'' =
        [To_SysLog (c_str (piece_output (log_line demo_moment logLevel_error ''[ALL] x'')))]"
proof -
  have level: "logLevel_error \<noteq> logLevel_off" by simp
  have cfg: "snapshot_level ''log_level_stderr'' default_snapshot = logLevel_off"
    "snapshot_level ''log_level_syslog'' default_snapshot = logLevel_info"
    "snapshot_text ''log_file'' default_snapshot = []" "snapshot_text ''log_features'' default_snapshot = []"
    by (simp_all add: snapshot_level_def snapshot_text_def default_snapshot_def snapshot_defaults_def)
  have order: "\<not> logLevel_error \<le> logLevel_off" "logLevel_error \<le> logLevel_info" by (simp_all add: less_eq_LogLevel_def)
  show ?thesis
    using messages_reach_exactly_the_enabled_sinks
      [OF level, of "[]" demo_log_env default_snapshot demo_moment "(0, ''ALL'')" "''x''" 0]
    by (simp add: cfg order feature_enabled_def parseLogFeatures_def case_prod_beta Let_def split: option.splits)
qed

subsection \<open>One log file at a time\<close>

definition log_file_inv :: "sink_state \<Rightarrow> bool" where
  "log_file_inv st \<longleftrightarrow> log_fds st = (case log_fd st of Some fd \<Rightarrow> [(fd, openedFilePath st)] | None \<Rightarrow> [])
     \<and> (log_fd st = None \<longrightarrow> openedFilePath st = [])"

lemma log_file_inv_levels [simp]:
  "log_file_inv (setLevel s l st) = log_file_inv st" for l
  by (cases s) (auto simp: log_file_inv_def split: option.split)

lemma reopen_inv: "log_file_inv st \<Longrightarrow> log_file_inv (snd (reopen op n st))"
  by (auto simp: log_file_inv_def reopen_def Let_def split: option.splits)

lemma update_inv: "log_file_inv (snd s) \<Longrightarrow> log_file_inv (snd (loggerConfigUpdateFunc env cfg s))"
  by (cases s) (simp add: loggerConfigUpdateFunc_def Let_def reopen_inv del: setLevel.simps)

text \<open>
  Whatever configurations are applied one after another, and whichever files can be opened, the process has
  at most one log file open: the one the sink writes to, under the name it has noted.
\<close>

lemma at_most_one_log_file:
  "let st = snd (configured_logger updates)
   in log_fds st = (case log_fd st of Some fd \<Rightarrow> [(fd, openedFilePath st)] | None \<Rightarrow> [])"
proof -
  have "log_file_inv (snd (configured_logger updates))"
  proof (induction updates rule: rev_induct)
    case Nil
    then show ?case by (simp add: configured_logger_def sinks_start_def log_file_inv_def)
  next
    case (snoc u us)
    then show ?case by (cases u) (simp add: configured_logger_snoc update_inv)
  qed
  then show ?thesis by (simp add: log_file_inv_def Let_def)
qed

end
