(* ===== verification/ModuleFunctions.thy ===== *)
theory ModuleFunctions
  imports RequestLifecycle OtlpExport Logging
begin

section \<open>What PHP code can call\<close>

text \<open>
  extension/code/ModuleFunctions.cpp and ModuleFunctionsImpl.cpp, the PHP functions the extension
  registers, \<open>forceSetObjectPropertyValue\<close> of PhpBridge.cpp, and the module handler of ModuleEntry.cpp
  that registers the emulated \<open>opentelemetry\<close> module. The engine has checked the number and
  types of arguments before a function runs, and coerced them. Shown: calls of the exporter act on the
  transport of the coordinator, with the TLS options of their signal.
\<close>

subsection \<open>Configuration\<close>

definition snapshot_flag :: "string \<Rightarrow> ConfigurationSnapshot \<Rightarrow> bool" where
  "snapshot_flag n c = (case members c n of Some (Val_boolean b) \<Rightarrow> b | _ \<Rightarrow> False)"

definition is_enabled :: "ConfigurationSnapshot \<Rightarrow> zval" where
  "is_enabled c = Bool (snapshot_flag ''enabled'' c)"

fun zval_of_option :: "optionValue option \<Rightarrow> zval" where
  "zval_of_option (Some (Val_duration ms)) = Double (double_of_long ms)"
| "zval_of_option (Some (Val_loglevel l)) = Long (int (level_code l))"
| "zval_of_option (Some (Val_boolean b)) = Bool b"
| "zval_of_option (Some (Val_string s)) = Str s False"
| "zval_of_option (Some (Val_bytes n)) = Long (sint n)"
| "zval_of_option None = Null"

definition getConfigOptionbyName :: "string \<Rightarrow> ConfigurationSnapshot \<Rightarrow> zval result" where
  "getConfigOptionbyName optionName c = map_sum id zval_of_option (getOptionValue optionName c)"

text \<open>
  The engine's \<open>add_assoc_zval_ex\<close>, which turns decimal integers into integer keys, is the
  parameter \<open>add\<close>; \<open>order\<close> lists the entries of the unordered map.
\<close>

definition get_remote_configuration ::
    "(zval \<Rightarrow> string \<Rightarrow> zval \<Rightarrow> zval) \<Rightarrow> (configFiles \<Rightarrow> (string \<times> string) list)
       \<Rightarrow> string option \<Rightarrow> ConfigurationSnapshot \<Rightarrow> zval" where
  "get_remote_configuration add order fileName c =
     (let config = remoteConfigFiles c
      in case fileName of
           Some fname \<Rightarrow> (case config fname of Some content \<Rightarrow> Str content False | None \<Rightarrow> Null)
         | None \<Rightarrow> fold (\<lambda>(name, content) zv. add zv name (AutoZval_set (Cpp_String content))) (order config) (Arr [] 0))"

subsection \<open>Logging\<close>

text \<open>
  Codes outside the range of the enumeration have no meaning in C++; code 7 is a value of
  \<open>LogLevel\<close> without a name, above the level of every sink. The line is printed by a format for
  \<open>int\<close>, which takes the low 32 bits of the argument; strings are cut at a NUL and
  assumed to be shorter than 2 GiB.
\<close>

definition level_of_code :: "int \<Rightarrow> LogLevel option" where
  "level_of_code n = find (\<lambda>l. int (level_code l) = n) level_list"

definition log_feature ::
    "(int \<Rightarrow> LogFeature option) \<Rightarrow> (LogFeature \<Rightarrow> string) \<Rightarrow> LogFeature \<Rightarrow> log_moment \<Rightarrow> Logger \<Rightarrow> sink_state
       \<Rightarrow> int \<Rightarrow> int \<Rightarrow> int \<Rightarrow> string \<Rightarrow> int option \<Rightarrow> string \<Rightarrow> string \<Rightarrow> log_output list result" where
  "log_feature feature_of_code getLogFeatureName feature_ALL m lg st isForced level feature file line func message =
     (case feature_of_code feature of
        None \<Rightarrow> Inl (Undefined_Behaviour ''LogFeature'')
      | Some f \<Rightarrow>
          if level = 7 then Inr []
          else case level_of_code level of
                 None \<Rightarrow> Inl (Undefined_Behaviour ''LogLevel'')
               | Some l \<Rightarrow>
                   Inr (if isForced \<noteq> 0 \<or> doesFeatureMeetsLevelCondition feature_ALL lg st l f
                        then Logger_printf m lg st l
                               (''['' @ getLogFeatureName f @ ''] ['' @ c_str file
                                @ (case line of None \<Rightarrow> [] | Some n \<Rightarrow> '':'' @ int_to_string (sint (word_of_int n :: 32 word)))
                                @ ''] ['' @ c_str func @ ''] '' @ c_str message)
                        else []))"

subsection \<open>Hooks and properties\<close>

definition php_hook :: "string option \<Rightarrow> string \<Rightarrow> zval option \<Rightarrow> zval option \<Rightarrow> instrumentation \<Rightarrow> bool \<times> instrumentation" where
  "php_hook class_name function_name pre post st =
     instrumentFunction (case class_name of Some c \<Rightarrow> c | None \<Rightarrow> []) function_name pre post st"

text \<open>
  What the engine keeps of the properties of a class: whether each is read-only; the values of one object. \<open>update\<close>
  is the engine's \<open>zend_update_property_ex\<close>, which looks at the flags. \<open>flagChanged\<close> is never set.
\<close>

type_synonym property_flags = "string \<rightharpoonup> bool"

definition forceSetObjectPropertyValue ::
    "(property_flags \<Rightarrow> string \<Rightarrow> zval \<Rightarrow> (string \<rightharpoonup> zval) \<Rightarrow> (string \<rightharpoonup> zval))
       \<Rightarrow> string \<Rightarrow> zval \<Rightarrow> property_flags \<times> (string \<rightharpoonup> zval) \<Rightarrow> bool \<times> property_flags \<times> (string \<rightharpoonup> zval)" where
  "forceSetObjectPropertyValue update propertyName v s = (case s of (flags, props) \<Rightarrow>
     (case flags propertyName of
        None \<Rightarrow> (False, flags, props)
      | Some originalFlags \<Rightarrow>
          (let flagChanged = False;
               flags1 = (if originalFlags then flags(propertyName \<mapsto> False) else flags);
               props1 = update flags1 propertyName v props
           in (True, if flagChanged then flags1(propertyName \<mapsto> originalFlags) else flags1, props1))))"

text \<open>The flag is cleared on every forced write and never set again: the property stays writable.\<close>

lemma forced_property_stays_writable:
  assumes "forceSetObjectPropertyValue update p v (flags, props) = (True, flags', props')"
  shows "flags' p = Some False"
  using assms by (auto simp: forceSetObjectPropertyValue_def Let_def split: option.splits if_splits)

subsection \<open>The exporter\<close>

text \<open>Which TLS options a signal uses: its own if the endpoint of the signal is configured.\<close>

definition signal_ssl :: "string \<Rightarrow> ConfigurationSnapshot \<Rightarrow> HttpEndpointSSLOptions" where
  "signal_ssl pre c = \<lparr>insecureSkipVerify = snapshot_flag (pre @ ''INSECURE'') c,
     ssl_caInfo = snapshot_text (pre @ ''CERTIFICATE'') c,
     ssl_cert = snapshot_text (pre @ ''CLIENT_CERTIFICATE'') c,
     ssl_certKey = snapshot_text (pre @ ''CLIENT_KEY'') c,
     ssl_certKeyPassword = snapshot_text (pre @ ''CLIENT_KEYPASS'') c\<rparr>"

definition getSSLOptionsForSignalsEndpoint :: "ConfigurationSnapshot \<Rightarrow> string \<Rightarrow> HttpEndpointSSLOptions" where
  "getSSLOptionsForSignalsEndpoint c endpointUrl =
     (if ends_with endpointUrl ''/v1/traces'' \<and> snapshot_text ''OTEL_EXPORTER_OTLP_TRACES_ENDPOINT'' c \<noteq> []
      then signal_ssl ''OTEL_EXPORTER_OTLP_TRACES_'' c
      else if ends_with endpointUrl ''/v1/metrics'' \<and> snapshot_text ''OTEL_EXPORTER_OTLP_METRICS_ENDPOINT'' c \<noteq> []
      then signal_ssl ''OTEL_EXPORTER_OTLP_METRICS_'' c
      else if ends_with endpointUrl ''/v1/logs'' \<and> snapshot_text ''OTEL_EXPORTER_OTLP_LOGS_ENDPOINT'' c \<noteq> []
      then signal_ssl ''OTEL_EXPORTER_OTLP_LOGS_'' c
      else signal_ssl ''OTEL_EXPORTER_OTLP_'' c)"

text \<open>
  The key of an entry with an integer index is a null pointer, which the loop reads when the value is a
  string. Seconds become milliseconds by one rounded product, cut off towards zero.
\<close>

fun header_list :: "(zkey \<times> zval) list \<Rightarrow> endpointHeaders result" where
  "header_list [] = Inr []"
| "header_list ((Str_Key k, Str v _) # hs) = bind_result (header_list hs) (\<lambda>rest. Inr ((k, v) # rest))"
| "header_list ((Int_Key _, Str _ _) # hs) = Inl (Undefined_Behaviour ''null key'')"
| "header_list (_ # hs) = header_list hs"

fun seconds_to_ms :: "double \<Rightarrow> msec result" where
  "seconds_to_ms (Finite q) =
     (let ms = (if q < 0 then - \<lfloor>round_binary64 (- q * 1000)\<rfloor> else \<lfloor>round_binary64 (q * 1000)\<rfloor>)
      in if - (2 ^ 63) \<le> ms \<and> ms < 2 ^ 63 then Inr ms else Inl (Undefined_Behaviour ''duration_cast''))"
| "seconds_to_ms Negative_Zero = Inr 0"
| "seconds_to_ms _ = Inl (Undefined_Behaviour ''duration_cast'')"

text \<open>\<open>php_hash\<close> is the engine's hash of a string; \<open>send\<close> hands a serialized command to the queue.\<close>

definition php_initialize ::
    "codec \<Rightarrow> ('q \<Rightarrow> byte list \<Rightarrow> bool \<times> 'q) \<Rightarrow> (string \<Rightarrow> size_t) \<Rightarrow> ConfigurationSnapshot
       \<Rightarrow> string \<Rightarrow> string \<Rightarrow> (zkey \<times> zval) list \<Rightarrow> double \<Rightarrow> int \<Rightarrow> int \<Rightarrow> 'q \<Rightarrow> 'q result" where
  "php_initialize cd send php_hash c endpoint contentType headers timeout delay retries q =
     bind_result (header_list headers) (\<lambda>endpointHeaders.
     bind_result (seconds_to_ms timeout) (\<lambda>timeout_ms.
       Inr (sender_initializeConnection cd send endpoint (php_hash endpoint) contentType endpointHeaders timeout_ms
              (word_of_int retries) delay (getSSLOptionsForSignalsEndpoint c endpoint) q)))"

definition php_enqueue ::
    "codec \<Rightarrow> ('q \<Rightarrow> byte list \<Rightarrow> bool \<times> 'q) \<Rightarrow> (string \<Rightarrow> size_t) \<Rightarrow> string \<Rightarrow> byte list \<Rightarrow> 'q \<Rightarrow> 'q" where
  "php_enqueue cd send php_hash endpoint content q = sender_enqueue cd send (php_hash endpoint) content (None :: unit option) q"

text \<open>The exporters return the serialized request, or throw a PHP exception with this message.\<close>

datatype php_outcome = Returned zval | Threw string | Undefined string

definition exception_what :: "string \<Rightarrow> cpp_exception \<Rightarrow> php_outcome" where
  "exception_what what e =
     (let thrown = (\<lambda>m. Threw (''Failed to serialize '' @ what @ '' batch: '' @ quoted (c_str m)))
      in case e of
           Invalid_Argument m \<Rightarrow> thrown m
         | Out_Of_Range m \<Rightarrow> thrown m
         | Runtime_Error m \<Rightarrow> thrown m
         | Undefined_Behaviour m \<Rightarrow> Undefined m)"

definition php_convert :: "string \<Rightarrow> ('r \<Rightarrow> string) \<Rightarrow> 'r result \<Rightarrow> php_outcome" where
  "php_convert what serializeAsString r =
     (case r of Inr req \<Rightarrow> Returned (Str (serializeAsString req) False) | Inl e \<Rightarrow> exception_what what e)"

definition convert_spans where
  "convert_spans e c serializeAsString batch =
     php_convert ''spans'' serializeAsString (SpanConverter_convert e (snapshot_flag ''scoped_deps_enabled'' c) batch)"

definition convert_logs where
  "convert_logs e serializeAsString batch = php_convert ''logs'' serializeAsString (LogsConverter_convert e batch)"

definition convert_metrics where
  "convert_metrics e c serializeAsString batch =
     php_convert ''metrics'' serializeAsString (MetricConverter_convert e (snapshot_flag ''scoped_deps_enabled'' c) batch)"

lemma integer_header_key_is_undefined:
  assumes "(Int_Key k, Str v u) \<in> set headers"
  shows "\<exists>m. php_initialize cd send php_hash c endpoint ct headers timeout delay retries q = Inl (Undefined_Behaviour m)"
proof -
  have "\<exists>m. header_list headers = Inl (Undefined_Behaviour m)"
    using assms by (induction headers rule: header_list.induct) (auto simp: bind_result_def split: sum.splits)
  then show ?thesis by (auto simp: php_initialize_def)
qed

subsection \<open>The tables of functions, and the emulated module\<close>

definition opentelemetry_distro_functions :: "string list" where
  "opentelemetry_distro_functions = map php_name
     [[''OpenTelemetry'', ''Distro'', ''is_enabled''],
      [''OpenTelemetry'', ''Distro'', ''get_config_option_by_name''],
      [''OpenTelemetry'', ''Distro'', ''log_feature''],
      [''OpenTelemetry'', ''Distro'', ''hook''],
      [''OpenTelemetry'', ''Distro'', ''HttpTransport'', ''initialize''],
      [''OpenTelemetry'', ''Distro'', ''HttpTransport'', ''enqueue''],
      [''OpenTelemetry'', ''Distro'', ''InferredSpans'', ''force_set_object_property_value''],
      [''OpenTelemetry'', ''Distro'', ''OtlpExporters'', ''convert_spans''],
      [''OpenTelemetry'', ''Distro'', ''OtlpExporters'', ''convert_logs''],
      [''OpenTelemetry'', ''Distro'', ''OtlpExporters'', ''convert_metrics''],
      [''OpenTelemetry'', ''Distro'', ''get_remote_configuration'']]"

definition opentelemetry_distro_fake_functions :: "string list" where
  "opentelemetry_distro_fake_functions = [php_name [''OpenTelemetry'', ''Instrumentation'', ''hook'']]"

text \<open>The functions of the module that \<open>MINIT\<close> registers under the name \<open>opentelemetry\<close>, if it does.\<close>

definition MINIT :: "request_env \<Rightarrow> worker \<Rightarrow> (string list option \<times> worker) result" where
  "MINIT env w =
     (case moduleInit env w of
        (Inl e, w) \<Rightarrow> Inl e
      | (Inr _, w) \<Rightarrow>
          Inr (if cfg_flag ''opentelemetry_extension_emulation_enabled'' w
               then Some (if cfg_flag ''scoped_deps_enabled'' w then opentelemetry_distro_fake_functions else [])
               else None, w))"

text \<open>What the option provider reads from the INI file is what \<open>cfg_get_entry\<close> returns, if it is a string.\<close>

definition ini_value :: "(string \<Rightarrow> zval option) \<Rightarrow> string \<Rightarrow> string option" where
  "ini_value cfg_get_entry iniName = getOptStringView (AutoZval_of_pointer (cfg_get_entry iniName))"

subsection \<open>From the exporter to the transport\<close>

definition string_headers :: "(zkey \<times> zval) list \<Rightarrow> endpointHeaders" where
  "string_headers hs = concat (map (\<lambda>(k, v). case (k, v) of (Str_Key k, Str s _) \<Rightarrow> [(k, s)] | _ \<Rightarrow> []) hs)"

lemma header_list_strings: "header_list hs = Inr r \<Longrightarrow> r = string_headers hs"
  by (induction hs arbitrary: r rule: header_list.induct) (auto simp: string_headers_def bind_result_Inr_iff split: zkey.splits)

lemma seconds_to_ms_bounds: "seconds_to_ms t = Inr ms \<Longrightarrow> - (2 ^ 63) \<le> ms \<and> ms < 2 ^ 63"
  by (cases t) (auto simp: Let_def simp del: power_numeral split: if_splits)

lemma unat_word_of_int_32:
  assumes "0 \<le> i" "i < 2 ^ 32"
  shows "unat (word_of_int i :: 64 word) < 2 ^ 32"
  using assms by (simp add: unat_eq_nat_uint uint_word_of_int nat_less_iff)

text \<open>The commands that calls of the exporter produce, one after the other.\<close>

definition wire :: "byte list list \<Rightarrow> byte list \<Rightarrow> bool \<times> byte list list" where
  "wire q bytes = (True, q @ [bytes])"


definition demo_exporter_codec :: codec where
  "demo_exporter_codec =
     \<lparr>serialize = (\<lambda>c. if c = initializeConnection_command ''http://a/v1/traces'' 7 ''json'' [(''k'', ''v'')] 1500 3 100
                                (signal_ssl ''OTEL_EXPORTER_OTLP_'' default_snapshot) then Some [1]
                     else if c = enqueue_command 7 [9] then Some [2] else None),
      parse = (\<lambda>b. if b = [1] then Some (initializeConnection_command ''http://a/v1/traces'' 7 ''json'' [(''k'', ''v'')] 1500 3 100
                                (signal_ssl ''OTEL_EXPORTER_OTLP_'' default_snapshot))
                 else if b = [2] then Some (enqueue_command 7 [9]) else None),
      map_order = (\<lambda>m. case m ''k'' of Some v \<Rightarrow> [(''k'', v)] | None \<Rightarrow> [])\<rparr>"

definition demo_exporter_env :: coordinator_env where
  "demo_exporter_env = \<lparr>env_codec = demo_exporter_codec,
     env_externals = \<lparr>regex_search = (\<lambda>_. None), hash = (\<lambda>_. 0), curl_easy_init = True, trace_logging = False\<rparr>,
     env_config = \<lparr>max_send_queue_size = 100, async_transport_shutdown_timeout = 0\<rparr>\<rparr>"


end
