(* ===== verification/RemoteConfig.thy ===== *)
theory RemoteConfig
  imports ModuleFunctions OpAmp
begin

section \<open>Remote configuration in the coordinator\<close>

text \<open>
  How the constructor of libcommon/code/coordinator/CoordinatorProcess.cpp connects the components of
  the coordinator: a configuration from the OpAMP server goes to the shared memory for the
  workers, then to the coordinator's own manager and storage, whose watchers adapt the logger and
  the intervals of the OpAMP client. With it, forking the coordinator at the start of the
  extension (ModuleEntry.cpp). The codec and the order in which a map is traversed are
  parameters. Shown: what a new configuration does in the coordinator.
\<close>

subsection \<open>The parts of the coordinator\<close>

record coordinator_agent =
  ca_process :: CoordinatorProcess
  ca_manager :: ConfigurationManager
  ca_storage :: ConfigurationStorage
  ca_opamp :: OpAmp
  ca_shared :: SharedData
  ca_logger :: "Logger \<times> sink_state"

record remote_env =
  rc_world :: world
  rc_codec :: opamp_codec
  rc_log :: log_env
  rc_order :: "configFiles \<Rightarrow> (string \<times> string) list"

text \<open>
  The watchers of the storage in the order of their registration: number 0 is the function that
  adapts the logger, number 1 passes the two intervals to the OpAMP client.
\<close>

definition config_watcher :: "remote_env \<Rightarrow> nat \<times> ConfigurationSnapshot \<Rightarrow> coordinator_agent \<Rightarrow> coordinator_agent" where
  "config_watcher env call ca = (case call of (i, cfg) \<Rightarrow>
     if i = 0 then ca\<lparr>ca_logger := loggerConfigUpdateFunc (rc_log env) cfg (ca_logger ca)\<rparr>
     else ca\<lparr>ca_opamp := updatePollingInterval (cfg_duration ''opamp_polling_interval'' cfg)
                          (updateHeartbeatInterval (cfg_duration ''opamp_heartbeat_interval'' cfg) (ca_opamp ca))\<rparr>)"

definition coordinator_refresh :: "remote_env \<Rightarrow> coordinator_agent \<Rightarrow> coordinator_agent" where
  "coordinator_refresh env ca =
     (let (calls, s) = storage_update (updateIfChanged (ca_manager ca)) (ca_storage ca)
      in fold (config_watcher env) calls (ca\<lparr>ca_storage := s\<rparr>))"

text \<open>\<open>ConfigurationManager::update\<close>, then \<open>ConfigurationStorage::update\<close> unless the former throws.\<close>

definition coordinator_configure :: "remote_env \<Rightarrow> configFiles \<Rightarrow> coordinator_agent \<Rightarrow> unit result \<times> coordinator_agent" where
  "coordinator_configure env configFiles ca =
     (let (res, m) = manager_update (rc_world env) configFiles (ca_manager ca); ca = ca\<lparr>ca_manager := m\<rparr>
      in case res of Inl e \<Rightarrow> (Inl e, ca) | Inr _ \<Rightarrow> (Inr (), coordinator_refresh env ca))"

definition CoordinatorProcess_ctor ::
    "remote_env \<Rightarrow> pid \<Rightarrow> provider \<Rightarrow> byte list \<Rightarrow> SharedData \<Rightarrow> Logger \<times> sink_state \<Rightarrow> unit result \<times> coordinator_agent" where
  "CoordinatorProcess_ctor env parent optionProvider uid sd logger =
     coordinator_configure env Map.empty
       \<lparr>ca_process = \<lparr>coordinator_working = True, parentProcessId = parent, workerRegistry = [],
          httpTransport = HttpTransportAsync_ctor, recievedMessages = [], lastCleanupTime = None\<rparr>,
        ca_manager = ConfigurationManager_ctor optionProvider,
        ca_storage = snd (addConfigUpdateWatcher (snd (addConfigUpdateWatcher ConfigurationStorage_ctor))),
        ca_opamp = OpAmp_ctor uid, ca_shared = sd, ca_logger = logger\<rparr>"

definition CoordinatorProcess_dtor :: "coordinator_agent \<Rightarrow> coordinator_agent" where
  "CoordinatorProcess_dtor ca = ca\<lparr>ca_storage := removeAllConfigUpdateWatchers (ca_storage ca)\<rparr>"

text \<open>What \<open>fork\<close> returns decides whether the extension goes on or the coordinator runs in its place.\<close>

datatype 'c forked = Extension_Continues | Coordinator_Runs 'c

definition forkCoordinatorProcess ::
    "remote_env \<Rightarrow> int \<Rightarrow> pid \<Rightarrow> provider \<Rightarrow> byte list \<Rightarrow> SharedData \<Rightarrow> Logger \<times> sink_state
       \<Rightarrow> (unit result \<times> coordinator_agent) forked" where
  "forkCoordinatorProcess env processId getpid optionProvider uid sd logger =
     (if processId < 0 then Extension_Continues
      else if processId = 0 then Coordinator_Runs (CoordinatorProcess_ctor env getpid optionProvider uid sd logger)
      else Extension_Continues)"

subsection \<open>Messages of the server\<close>

text \<open>The watcher of the OpAMP client; the first thing it does is to store the files for the workers.\<close>

definition onRemoteConfig :: "remote_env \<Rightarrow> configFiles \<Rightarrow> coordinator_agent \<Rightarrow> unit result \<times> coordinator_agent" where
  "onRemoteConfig env configFiles ca =
     coordinator_configure env configFiles (ca\<lparr>ca_shared := storeConfigFiles (rc_order env configFiles) (ca_shared ca)\<rparr>)"

text \<open>
  \<open>handleServerToAgent\<close> with this watcher. An exception leaves it before the part about errors of the
  server, so that the retry delay of the transport is not updated; the caller logs it.
\<close>

definition opamp_response :: "remote_env \<Rightarrow> byte list \<Rightarrow> coordinator_agent \<Rightarrow> unit result \<times> coordinator_agent" where
  "opamp_response env bytes ca =
     (let (ag, t, news) = handleServerToAgent (rc_codec env) bytes (ca_opamp ca, httpTransport (ca_process ca));
          ca = ca\<lparr>ca_opamp := ag\<rparr>;
          (res, ca) = (case news of None \<Rightarrow> (Inr (), ca) | Some files \<Rightarrow> onRemoteConfig env files ca)
      in case res of
           Inl e \<Rightarrow> (Inl e, ca)
         | Inr _ \<Rightarrow> (Inr (), ca\<lparr>ca_process := (ca_process ca)\<lparr>httpTransport := t\<rparr>\<rparr>))"

definition opamp_responses :: "(remote_env \<times> byte list) list \<Rightarrow> coordinator_agent \<Rightarrow> coordinator_agent" where
  "opamp_responses rs ca = fold (\<lambda>(env, bytes) ca. snd (opamp_response env bytes ca)) rs ca"

subsection \<open>Manager and storage of the coordinator\<close>

definition ca_ok :: "nat \<Rightarrow> coordinator_agent \<Rightarrow> bool" where
  "ca_ok n ca \<longleftrightarrow> config_inv n (ca_manager ca, ca_storage ca) \<and> watchers (ca_storage ca) = [0, 1]"

lemma config_watcher_frame [simp]:
  "ca_manager (config_watcher env call ca) = ca_manager ca" "ca_storage (config_watcher env call ca) = ca_storage ca"
  "ca_shared (config_watcher env call ca) = ca_shared ca" "ca_process (config_watcher env call ca) = ca_process ca"
  by (simp_all add: config_watcher_def case_prod_beta)

lemma fold_watcher_frame [simp]:
  "ca_manager (fold (config_watcher env) calls ca) = ca_manager ca" "ca_storage (fold (config_watcher env) calls ca) = ca_storage ca"
  "ca_shared (fold (config_watcher env) calls ca) = ca_shared ca" "ca_process (fold (config_watcher env) calls ca) = ca_process ca"
  by (induction calls arbitrary: ca) simp_all

lemma coordinator_refresh_frame [simp]:
  "ca_manager (coordinator_refresh env ca) = ca_manager ca" "ca_shared (coordinator_refresh env ca) = ca_shared ca"
  "ca_process (coordinator_refresh env ca) = ca_process ca"
  "ca_storage (coordinator_refresh env ca) = snd (storage_update (updateIfChanged (ca_manager ca)) (ca_storage ca))"
  by (simp_all add: coordinator_refresh_def Let_def case_prod_beta)

lemma coordinator_configure_frame [simp]:
  "ca_shared (snd (coordinator_configure env cf ca)) = ca_shared ca"
  "ca_process (snd (coordinator_configure env cf ca)) = ca_process ca"
  by (simp_all add: coordinator_configure_def Let_def case_prod_beta split: sum.split)

lemma ca_ok_configure:
  assumes "ca_ok n ca" "n < 2 ^ 64 - 3"
  shows "ca_ok (n + 2) (snd (coordinator_configure env cf ca))"
proof -
  let ?m = "snd (manager_update (rc_world env) cf (ca_manager ca))"
  let ?s = "snd (storage_update (updateIfChanged ?m) (ca_storage ca))"
  have one: "config_inv (n + 1) (?m, ca_storage ca)"
    using config_inv_publish [of n "ca_manager ca" "ca_storage ca" "rc_world env" cf] assms by (simp add: ca_ok_def)
  have two: "config_inv (n + 2) (?m, ?s)" "config_inv (n + 2) (?m, ca_storage ca)"
    using config_inv_step [OF config_step.refresh one] config_inv_mono [OF one] assms(2) by simp_all
  have "watchers ?s = watchers (ca_storage ca)" by (simp add: storage_update_def case_prod_beta Let_def)
  with two assms(1) show ?thesis
    by (simp add: coordinator_configure_def ca_ok_def Let_def case_prod_beta split: sum.split)
qed

lemma ca_ok_response:
  assumes "ca_ok n ca" "n < 2 ^ 64 - 3"
  shows "ca_ok (n + 2) (snd (opamp_response env bytes ca))"
proof -
  have mono: "ca_ok (n + 2) ca" if "ca_ok n ca" for ca
    using that config_inv_mono [of n "(ca_manager ca, ca_storage ca)"] config_inv_mono [of "Suc n" "(ca_manager ca, ca_storage ca)"]
    by (simp add: ca_ok_def)
  have cong: "ca_ok k (ca\<lparr>ca_opamp := ag\<rparr>) = ca_ok k ca" "ca_ok k (ca\<lparr>ca_shared := sd\<rparr>) = ca_ok k ca"
    "ca_ok k (ca\<lparr>ca_process := p\<rparr>) = ca_ok k ca" for k ca ag sd p by (simp_all add: ca_ok_def)
  show ?thesis
    using mono [OF assms(1)] ca_ok_configure [OF _ assms(2)] assms(1)
    by (simp add: opamp_response_def onRemoteConfig_def Let_def case_prod_beta cong split: option.split sum.split)
qed

lemma ca_ok_ctor: "ca_ok 4 (snd (CoordinatorProcess_ctor env parent p uid sd lg))"
proof -
  note watch = config_inv_step [OF config_step.watch]
  let ?s = "snd (addConfigUpdateWatcher (snd (addConfigUpdateWatcher ConfigurationStorage_ctor)))"
  have "config_inv (Suc (Suc 0)) (ConfigurationManager_ctor p, ?s)"
    by (rule watch [OF watch [OF config_inv_start]]) simp_all
  then have "config_inv 2 (ConfigurationManager_ctor p, ?s)" by (simp add: numeral_2_eq_2)
  moreover have "watchers ?s = [0, 1]" by (simp add: addConfigUpdateWatcher_def ConfigurationStorage_ctor_def)
  ultimately show ?thesis
    unfolding CoordinatorProcess_ctor_def by (intro ca_ok_configure [of 2, simplified]) (simp_all add: ca_ok_def)
qed

lemma ca_ok_responses:
  assumes "ca_ok n ca" "n + 2 * length rs < 2 ^ 64 - 3"
  shows "ca_ok (n + 2 * length rs) (opamp_responses rs ca)"
  using assms
proof (induction rs arbitrary: n ca)
  case (Cons r rs)
  have "ca_ok (n + 2) (snd (opamp_response (fst r) (snd r) ca))"
    using Cons.prems by (intro ca_ok_response) simp_all
  from Cons.IH [OF this] Cons.prems(2) show ?case by (simp add: opamp_responses_def case_prod_beta)
qed (simp add: opamp_responses_def)

definition coordinator_life ::
    "remote_env \<Rightarrow> pid \<Rightarrow> provider \<Rightarrow> byte list \<Rightarrow> SharedData \<Rightarrow> Logger \<times> sink_state \<Rightarrow> (remote_env \<times> byte list) list \<Rightarrow> coordinator_agent" where
  "coordinator_life env parent p uid sd lg rs = opamp_responses rs (snd (CoordinatorProcess_ctor env parent p uid sd lg))"

lemma coordinator_life_ok:
  assumes "length rs < 2 ^ 62"
  shows "ca_ok (4 + 2 * length rs) (coordinator_life env parent p uid sd lg rs)"
  unfolding coordinator_life_def using assms by (intro ca_ok_responses ca_ok_ctor) simp

subsection \<open>A new configuration\<close>

lemma coordinator_configure_eq:
  fixes env cf ca
  defines "u \<equiv> manager_update (rc_world env) cf (ca_manager ca)"
  assumes "ca_ok n ca" "n < 2 ^ 64 - 3" "coordinator_configure env cf ca = (r, ca')"
  shows "if is_ok (fst u)
    then r = Inr () \<and> config (ca_storage ca') = current (snd u)
      \<and> ca_logger ca' = loggerConfigUpdateFunc (rc_log env) (current (snd u)) (ca_logger ca)
      \<and> ca_opamp ca' = updatePollingInterval (cfg_duration ''opamp_polling_interval'' (current (snd u)))
           (updateHeartbeatInterval (cfg_duration ''opamp_heartbeat_interval'' (current (snd u))) (ca_opamp ca))
    else (\<exists>e. r = Inl e) \<and> ca_storage ca' = ca_storage ca \<and> ca_logger ca' = ca_logger ca \<and> ca_opamp ca' = ca_opamp ca"
proof (cases "fst u")
  case (Inl e)
  with assms(4) have "r = Inl e" "ca' = ca\<lparr>ca_manager := snd u\<rparr>"
    by (simp_all add: coordinator_configure_def u_def [symmetric] Let_def case_prod_beta)
  with Inl show ?thesis by simp
next
  case (Inr v)
  let ?m = "snd u" and ?s = "ca_storage ca"
  have inv: "config_inv n (ca_manager ca, ?s)" "watchers ?s = [0, 1]" using assms(2) by (simp_all add: ca_ok_def)
  have "is_ok (fst u)" using Inr by simp
  then have "revision (current ?m) = upcomingConfigRevision (ca_manager ca) + 1"
    using manager_update_eq(3) [where m = "ca_manager ca" and w = "rc_world env" and cf = cf]
    by (auto simp: u_def split: if_splits)
  moreover have "unat (upcomingConfigRevision (ca_manager ca) + 1) = unat (upcomingConfigRevision (ca_manager ca)) + 1"
    "unat (revision (config ?s)) \<le> unat (upcomingConfigRevision (ca_manager ca))"
    using inv(1) assms(3) by (simp_all add: config_inv_def unat_plus_if')
  ultimately have news: "revision (config ?s) \<noteq> revision (current ?m)" by auto
  have upd: "storage_update (updateIfChanged ?m) ?s = ([(0, current ?m), (1, current ?m)], ?s\<lparr>config := current ?m\<rparr>)"
    using news by (simp add: storage_update_def updateIfChanged_def inv(2))
  from assms(4) have "r = Inr ()" "ca' = coordinator_refresh env (ca\<lparr>ca_manager := ?m\<rparr>)"
    by (simp_all add: coordinator_configure_def u_def [symmetric] Let_def case_prod_beta Inr)
  then show ?thesis
    by (simp add: Inr coordinator_refresh_def upd config_watcher_def)
qed

lemma interval_after_watcher:
  "heartbeatInterval (updatePollingInterval p (updateHeartbeatInterval h ag)) = (if h > 0 then h else heartbeatInterval ag)"
  "currentConfigHash (updatePollingInterval p (updateHeartbeatInterval h ag)) = currentConfigHash ag"
  by (simp_all add: updatePollingInterval_def updateHeartbeatInterval_def)

lemma new_configuration_announced:
  assumes "parse_server oc bytes = Some msg" "remote_config msg = Some (h, files)" "currentConfigHash ag \<noteq> h"
    "handleServerToAgent oc bytes (ag, t) = (ag', t', news)"
  shows "news = Some (map_of (rev files))" "currentConfigHash ag' = h"
    "heartbeatInterval ag' = (case heartbeat_interval_seconds msg of Some s \<Rightarrow> sint s * 1000 | None \<Rightarrow> heartbeatInterval ag)"
  using assms
  by (cases "new_instance_uid msg"; cases "heartbeat_interval_seconds msg",
      auto simp: handleServerToAgent_def Let_def fold_map_upd)+

lemma opamp_response_new:
  fixes files env ca
  defines "delivered \<equiv> map_of (rev files)"
  assumes "parse_server (rc_codec env) bytes = Some msg" "remote_config msg = Some (h, files)"
    "currentConfigHash (ca_opamp ca) \<noteq> h" "opamp_response env bytes ca = (r, ca')"
  obtains ag ca1 where "coordinator_configure env delivered
      (ca\<lparr>ca_opamp := ag, ca_shared := storeConfigFiles (rc_order env delivered) (ca_shared ca)\<rparr>) = (r, ca1)"
    "ca_storage ca' = ca_storage ca1" "ca_logger ca' = ca_logger ca1" "ca_opamp ca' = ca_opamp ca1" "ca_shared ca' = ca_shared ca1"
    "currentConfigHash ag = h"
    "heartbeatInterval ag = (case heartbeat_interval_seconds msg of Some s \<Rightarrow> sint s * 1000 | None \<Rightarrow> heartbeatInterval (ca_opamp ca))"
proof -
  obtain ag t news where handled: "handleServerToAgent (rc_codec env) bytes (ca_opamp ca, httpTransport (ca_process ca)) = (ag, t, news)"
    by (metis prod.collapse)
  note announced = new_configuration_announced [OF assms(2,3,4) handled, folded delivered_def]
  obtain q ca1 where c: "coordinator_configure env delivered
      (ca\<lparr>ca_opamp := ag, ca_shared := storeConfigFiles (rc_order env delivered) (ca_shared ca)\<rparr>) = (q, ca1)" by fastforce
  have "opamp_response env bytes ca = (case q of Inl e \<Rightarrow> (Inl e, ca1) | Inr _ \<Rightarrow> (Inr (), ca1\<lparr>ca_process := (ca_process ca1)\<lparr>httpTransport := t\<rparr>\<rparr>))"
    by (simp add: opamp_response_def handled announced(1) onRemoteConfig_def c)
  with assms(5) have "q = r" "ca_storage ca' = ca_storage ca1" "ca_logger ca' = ca_logger ca1" "ca_opamp ca' = ca_opamp ca1"
    "ca_shared ca' = ca_shared ca1"
    by (auto split: sum.splits)
  with c announced(2,3) show thesis by (intro that) simp_all
qed


subsection \<open>A coordinator at work\<close>

lemma configure_hash: "currentConfigHash (ca_opamp (snd (coordinator_configure env cf ca))) = currentConfigHash (ca_opamp ca)"
proof -
  have one: "currentConfigHash (ca_opamp (config_watcher env call ca)) = currentConfigHash (ca_opamp ca)" for call ca
    by (simp add: config_watcher_def interval_after_watcher case_prod_beta)
  have "currentConfigHash (ca_opamp (fold (config_watcher env) calls ca)) = currentConfigHash (ca_opamp ca)" for calls ca
    by (induction calls arbitrary: ca) (simp_all add: one)
  then show ?thesis by (simp add: coordinator_configure_def coordinator_refresh_def Let_def case_prod_beta split: sum.split)
qed

lemma configure_manager:
  "ca_manager (snd (coordinator_configure env cf ca)) = snd (manager_update (rc_world env) cf (ca_manager ca))"
  by (simp add: coordinator_configure_def Let_def case_prod_beta split: sum.split)

text \<open>A server that sends one file, and a coordinator whose environment gives every option the text \<open>1\<close>.\<close>

definition one_file_message :: ServerToAgent where
  "one_file_message = \<lparr>new_instance_uid = None, heartbeat_interval_seconds = None,
     remote_config = Some (''h'', [(''a'', ''x'')]), unavailable_retry_after_ns = None\<rparr>"

definition ones_remote_env :: remote_env where
  "ones_remote_env = \<lparr>rc_world = re_world (ones_env SharedData_ctor),
     rc_codec = \<lparr>serialize_agent = (\<lambda>_. None), parse_server = (\<lambda>_. Some one_file_message), uuid_to_string = (\<lambda>_. [])\<rparr>,
     rc_log = demo_log_env, rc_order = (\<lambda>m. case m ''a'' of Some v \<Rightarrow> [(''a'', v)] | None \<Rightarrow> [])\<rparr>"

definition ones_coordinator :: coordinator_agent where
  "ones_coordinator = coordinator_life ones_remote_env 1 OptionValueProvider [] SharedData_ctor (GINIT_logger, sinks_start) []"

lemma ones_coordinator_ready:
  "optionValueProvider (ca_manager ones_coordinator) = OptionValueProvider" "ca_shared ones_coordinator = SharedData_ctor"
  "currentConfigHash (ca_opamp ones_coordinator) = []"
proof -
  have "optionValueProvider (ConfigurationManager_ctor OptionValueProvider) = OptionValueProvider"
    by (simp add: ConfigurationManager_ctor_def getNextRevision_def Let_def)
  from ones_update(2) [OF this, of SharedData_ctor Map.empty]
  show "optionValueProvider (ca_manager ones_coordinator) = OptionValueProvider"
    by (simp add: ones_coordinator_def coordinator_life_def opamp_responses_def CoordinatorProcess_ctor_def configure_manager
        ones_remote_env_def)
  show "ca_shared ones_coordinator = SharedData_ctor" "currentConfigHash (ca_opamp ones_coordinator) = []"
    by (simp_all add: ones_coordinator_def coordinator_life_def opamp_responses_def CoordinatorProcess_ctor_def configure_hash OpAmp_ctor_def)
qed

lemma ones_remote_simps:
  "parse_server (rc_codec ones_remote_env) b = Some one_file_message" "remote_config one_file_message = Some (''h'', [(''a'', ''x'')])"
  "rc_world ones_remote_env = re_world (ones_env SharedData_ctor)" "rc_order ones_remote_env [''a'' \<mapsto> ''x''] = [(''a'', ''x'')]"
  by (simp_all add: ones_remote_env_def one_file_message_def)


end
