(* ===== verification/Disclosure.thy ===== *)
theory Disclosure
  imports Configuration
begin

text \<open>
  What the extension discloses of its environment and its configuration: the start-up
  preamble of the log (\<open>ModuleInit.cpp\<close>) with \<open>sanitizeKeyValueString\<close>, the table of
  \<open>phpinfo()\<close> (\<open>ModuleInfo.cpp\<close>) and the INI entries with their displayer for secret
  values (\<open>ModuleIniEntries.cpp\<close>). The theorems are statements of non-interference:
  two runs that differ in a secret only print the same text.
\<close>

subsection \<open>Masking a value (\<open>CommonUtils.cpp\<close>)\<close>

text \<open>
  The expression is the name of the variable, an equals sign and either a quoted text or the
  longest run of characters that are neither commas nor white space; it ignores case. The
  name is read literally, which is what the expression means for names of letters, digits and
  underscores (\<open>literal_token\<close>); every caller passes such a name.
\<close>

definition icase_matches :: "string \<Rightarrow> string \<Rightarrow> bool" where
  "icase_matches m s = (map char_tolower (take (length m) s) = map char_tolower m)"

definition unquoted :: "char \<Rightarrow> bool" where
  "unquoted c = (c \<noteq> CHR '','' \<and> \<not> isspace c)"

definition value_length :: "string \<Rightarrow> nat" where
  "value_length s =
     (case s of
        [] \<Rightarrow> 0
      | c # cs \<Rightarrow>
          if c = CHR 0x22 \<and> CHR 0x22 \<in> set cs
          then length (takeWhile (\<lambda>d. d \<noteq> CHR 0x22) cs) + 2
          else length (takeWhile unquoted s))"

function sanitizeKeyValueString :: "string \<Rightarrow> string \<Rightarrow> string" where
  "sanitizeKeyValueString tokenName [] = []"
| "sanitizeKeyValueString tokenName (c # cs) =
     (let m = tokenName @ ''='' in
      if icase_matches m (c # cs)
      then tokenName @ ''=***''
        @ sanitizeKeyValueString tokenName
            (drop (length m + value_length (drop (length m) (c # cs))) (c # cs))
      else c # sanitizeKeyValueString tokenName cs)"
  by pat_completeness auto
termination by (relation "measure (length \<circ> snd)") auto

subsection \<open>The start-up preamble\<close>

record build_info =
  product_name :: string
  distro_version :: string
  php_major :: nat
  php_minor :: nat

text \<open>\<open>OsUtils.cpp\<close>: a file of \<open>/proc\<close> with its NUL bytes replaced by spaces.\<close>

definition getProcDataToString :: "string option \<Rightarrow> string" where
  "getProcDataToString contents =
     (case contents of
        None \<Rightarrow> []
      | Some s \<Rightarrow> map (\<lambda>c. if char_code c = 0 then CHR '' '' else c) s)"

definition headers_variable :: string where
  "headers_variable = ''OTEL_EXPORTER_OTLP_HEADERS''"

definition left_aligned :: "nat \<Rightarrow> string \<Rightarrow> string" where
  "left_aligned width s = s @ replicate (width - length s) (CHR '' '')"

text \<open>The customizations of a vendor are given by the name and the version they report.\<close>

definition logStartupPreamble ::
  "build_info \<Rightarrow> (string \<times> string) option \<Rightarrow> string option \<Rightarrow> string option \<Rightarrow> string list" where
  "logStartupPreamble b vendorCustomizations commandLine environment =
     (case vendorCustomizations of
        Some (name, version) \<Rightarrow>
          [name @ '' version: '' @ version,
           left_aligned 40 ''OpenTelemetry distro base version:'' @ distro_version b]
      | None \<Rightarrow>
          [product_name b, left_aligned 40 ''Native part version:'' @ distro_version b])
     @ [left_aligned 40 ''Process command line:''
          @ c_str (sanitizeKeyValueString headers_variable (getProcDataToString commandLine)),
        left_aligned 40 ''Process environment:''
          @ c_str (sanitizeKeyValueString headers_variable (getProcDataToString environment))]"

subsection \<open>The table of phpinfo (\<open>ModuleInfo.cpp\<close>)\<close>

definition getlines :: "string \<Rightarrow> string list" where
  "getlines contents =
     (let ps = split_on (CHR 0x0A) contents in if last ps = [] then butlast ps else ps)"

text \<open>The members behind \<open>EAPM_CFG\<close> have the type the snapshot declares.\<close>

definition member_string :: "string \<Rightarrow> ConfigurationSnapshot \<Rightarrow> string result" where
  "member_string name snapshot =
     (case members snapshot name of
        Some (Val_string s) \<Rightarrow> Inr s
      | _ \<Rightarrow> Inl (Undefined_Behaviour ''member type''))"

definition member_boolean :: "string \<Rightarrow> ConfigurationSnapshot \<Rightarrow> bool result" where
  "member_boolean name snapshot =
     (case members snapshot name of
        Some (Val_boolean b) \<Rightarrow> Inr b
      | _ \<Rightarrow> Inl (Undefined_Behaviour ''member type''))"

text \<open>The version is the text between the prefix and the next quote and semicolon.\<close>

fun version_in_lines :: "string list \<Rightarrow> string" where
  "version_in_lines [] = []"
| "version_in_lines (line # rest) =
     (let start = ''    public const VALUE = '' @ [CHR 0x27] in
      case find_sub start line of
        None \<Rightarrow> version_in_lines rest
      | Some pos \<Rightarrow>
          (let valueStart = pos + length start in
           case find_sub [CHR 0x27, CHR '';''] (drop valueStart line) of
             None \<Rightarrow> version_in_lines rest
           | Some len \<Rightarrow> take len (drop valueStart line)))"

definition readPhpPartVersion ::
  "build_info \<Rightarrow> (string \<rightharpoonup> string) \<Rightarrow> ConfigurationSnapshot \<Rightarrow> string result" where
  "readPhpPartVersion b files snapshot =
     bind_result (member_string ''bootstrap_php_part_file'' snapshot) (\<lambda>bootstrapPath.
     bind_result (member_boolean ''scoped_deps_enabled'' snapshot) (\<lambda>scoped.
       let directory = (case find_last_of (CHR ''/'') bootstrapPath of
                          Some pos \<Rightarrow> take pos bootstrapPath
                        | None \<Rightarrow> bootstrapPath);
           path = directory @ ''/''
             @ (if scoped then ''scoped/'' @ nat_to_string (php_major b) @ nat_to_string (php_minor b)
                else ''not_scoped'')
             @ ''/OpenTelemetry/Distro/PhpPartVersion.php''
       in Inr (case files path of
                 None \<Rightarrow> []
               | Some contents \<Rightarrow> version_in_lines (getlines contents))))"

text \<open>The calls that write the page, in their order; \<open>display_ini_entries\<close> is the engine's.\<close>

datatype info_item =
  Table_Start
| Table_End
| Table_Header "string list"
| Table_Row "string list"
| Colspan_Header nat string
| Display_Ini_Entries

fun option_rows :: "(string \<times> OptionMetadata) list \<Rightarrow> ConfigurationSnapshot \<Rightarrow> info_item list result" where
  "option_rows [] snapshot = Inr []"
| "option_rows ((name, md) # rest) snapshot =
     bind_result (accessOptionStringValueByMetadata md snapshot) (\<lambda>v.
     bind_result (option_rows rest snapshot) (\<lambda>rows.
       Inr (Table_Row [c_str name, if secret md then ''***'' else c_str v] # rows)))"

definition printPhpInfo ::
  "build_info \<Rightarrow> (string \<times> string) option \<Rightarrow> (string \<rightharpoonup> string) \<Rightarrow> ConfigurationSnapshot
   \<Rightarrow> info_item list result" where
  "printPhpInfo b vendorCustomizations files snapshot =
     bind_result (readPhpPartVersion b files snapshot) (\<lambda>phpPart.
     bind_result (option_rows config_options snapshot) (\<lambda>rows.
       Inr ([Table_Start]
         @ (case vendorCustomizations of
              Some (name, version) \<Rightarrow>
                [Table_Header [c_str name], Table_Row [''Version'', c_str version],
                 Table_Row [''OpenTelemetry distro base version'', distro_version b]]
            | None \<Rightarrow>
                [Table_Header [product_name b], Table_Row [''Version'', distro_version b]])
         @ [Table_Row [''Native part version'', distro_version b],
            Table_Row [''PHP part version'', c_str phpPart],
            Colspan_Header 2 ''Effective configuration'',
            Table_Start,
            Table_Header [''Configuration option'', ''Value'']]
         @ rows
         @ [Table_End, Colspan_Header 2 ''INI configuration'', Display_Ini_Entries])))"

subsection \<open>INI entries (\<open>ModuleIniEntries.cpp\<close>)\<close>

text \<open>The names of the entries and whether a script may change them (\<open>PHP_INI_ALL\<close>).\<close>

definition ini_entries :: "(string \<times> bool) list" where
  "ini_entries = map (\<lambda>(n, reloadable). (''opentelemetry_distro.'' @ n, reloadable))
     [(''bootstrap_php_part_file'', True),
      (''enabled'', False),
      (''log_file'', True),
      (''log_level'', True),
      (''log_level_file'', True),
      (''log_level_stderr'', True),
      (''log_level_syslog'', True),
      (''debug_diagnostic_file'', True),
      (''max_send_queue_size'', True),
      (''async_transport'', True),
      (''debug_instrument_all'', True),
      (''debug_php_hooks_enabled'', True),
      (''attr_hooks_enabled'', True),
      (''user_bootstrap_php_file'', True),
      (''inferred_spans_enabled'', True),
      (''inferred_spans_reduction_enabled'', True),
      (''inferred_spans_stacktrace_enabled'', True),
      (''inferred_spans_sampling_interval'', True),
      (''inferred_spans_min_duration'', True)]"

record ini_entry =
  ini_value :: "string option"
  orig_value :: "string option"
  modified :: bool
  secret_displayer :: bool

definition iniEntryValue :: "ini_entry \<Rightarrow> bool \<Rightarrow> string option" where
  "iniEntryValue e display_orig =
     (if display_orig then (if modified e then orig_value e else ini_value e) else ini_value e)"

definition displaySecretIniValue :: "ini_entry \<Rightarrow> bool \<Rightarrow> bool \<Rightarrow> string" where
  "displaySecretIniValue e display_orig as_text =
     (let shown = (case iniEntryValue e display_orig of
                     Some v \<Rightarrow> if v = [] then ''no value'' else ''***''
                   | None \<Rightarrow> ''no value'')
      in if as_text then shown else ''<i>'' @ shown @ ''</i>'')"

text \<open>
  \<open>zend_register_ini_entries\<close> is the engine's: it adds the entries to the directives or
  fails. The displayer is registered for the secret options whose directive exists.
\<close>

definition register_displayer ::
  "string \<times> OptionMetadata \<Rightarrow> (string \<rightharpoonup> ini_entry) \<Rightarrow> (string \<rightharpoonup> ini_entry)" where
  "register_displayer entry directives =
     (if \<not> secret (snd entry) then directives
      else let iniName = getIniName (fst entry) in
        case directives iniName of
          None \<Rightarrow> directives
        | Some e \<Rightarrow> directives(iniName \<mapsto> e\<lparr>secret_displayer := True\<rparr>))"

definition registerIniEntries ::
  "((string \<times> bool) list \<Rightarrow> (string \<rightharpoonup> ini_entry) \<Rightarrow> (string \<rightharpoonup> ini_entry) option)
   \<Rightarrow> (string \<rightharpoonup> ini_entry) \<Rightarrow> bool \<times> (string \<rightharpoonup> ini_entry)" where
  "registerIniEntries zend_register_ini_entries directives =
     (case zend_register_ini_entries ini_entries directives of
        None \<Rightarrow> (False, directives)
      | Some directives' \<Rightarrow> (True, fold register_displayer config_options directives'))"

subsection \<open>Where a masked value ends\<close>

definition literal_token :: "string \<Rightarrow> bool" where
  "literal_token tok =
     list_all (\<lambda>c. in_range 0x41 0x5A c \<or> in_range 0x61 0x7A c \<or> isdigit c \<or> c = CHR ''_'') tok"

text \<open>The characters of a value that is masked as a whole.\<close>

definition plain_char :: "char \<Rightarrow> bool" where
  "plain_char c = (unquoted c \<and> c \<noteq> CHR 0x22)"

definition ends_value :: "string \<Rightarrow> bool" where
  "ends_value rest = (case rest of [] \<Rightarrow> True | c # _ \<Rightarrow> \<not> unquoted c)"

lemma literal_token_char:
  assumes "literal_token tok" "c \<in> set tok"
  shows "plain_char c" "char_tolower c \<noteq> CHR ''=''"
proof -
  from assms have "in_range 0x41 0x5A c \<or> in_range 0x61 0x7A c \<or> isdigit c \<or> c = CHR ''_''"
    by (auto simp: literal_token_def list_all_iff)
  then have code: "char_code c \<in> {0x30..0x39} \<union> {0x41..0x5A} \<union> {0x5F} \<union> {0x61..0x7A}"
    by (auto simp: in_range_def isdigit_def char_code_def)
  then show "plain_char c"
    by (auto simp: plain_char_def unquoted_def isspace_def in_range_def char_code_def)
  have "char_code (char_tolower c) \<noteq> 0x3D"
    using code by (auto simp: char_tolower_def in_range_def)
  then show "char_tolower c \<noteq> CHR ''=''" by (auto simp: char_code_def)
qed

lemma icase_matches_self [simp]: "icase_matches m (m @ s)"
  by (simp add: icase_matches_def)

lemma icase_matches_prefix:
  "length m \<le> length a \<Longrightarrow> icase_matches m (a @ s) \<longleftrightarrow> icase_matches m a"
  by (simp add: icase_matches_def)

lemma icase_no_overlap:
  assumes "literal_token tok" "a \<noteq> []" "length a \<le> length tok"
  shows "\<not> icase_matches (tok @ ''='') (a @ tok @ s)"
proof
  let ?n = "length tok"
  assume "icase_matches (tok @ ''='') (a @ tok @ s)"
  then have "map char_tolower (take (Suc ?n) (a @ tok @ s)) ! ?n = map char_tolower (tok @ ''='') ! ?n"
    by (simp add: icase_matches_def)
  moreover have less: "?n - length a < ?n" using assms(2,3) by (cases a) simp_all
  moreover have "(a @ tok @ s) ! ?n = tok ! (?n - length a)"
    using assms(3) less by (simp add: nth_append)
  moreover have "?n < length (a @ tok @ s)" using assms(2) by (cases a) simp_all
  then have "map char_tolower (take (Suc ?n) (a @ tok @ s)) ! ?n = char_tolower ((a @ tok @ s) ! ?n)"
    by (simp only: nth_map length_take min_less_iff_conj lessI simp_thms nth_take)
  moreover have "map char_tolower (tok @ ''='') ! ?n = char_tolower (CHR ''='')"
    by (simp add: nth_append)
  ultimately have "char_tolower (tok ! (?n - length a)) = char_tolower (CHR ''='')" by (simp only:)
  moreover have "char_tolower (CHR ''='') = CHR ''=''" by (simp add: char_tolower_def in_range_def char_code_def)
  ultimately show False
    using literal_token_char(2) [OF assms(1), of "tok ! (?n - length a)"] less by simp
qed

lemma sanitize_unfold:
  "s \<noteq> [] \<Longrightarrow> sanitizeKeyValueString tok s =
     (if icase_matches (tok @ ''='') s
      then tok @ ''=***'' @ sanitizeKeyValueString tok
             (drop (Suc (length tok) + value_length (drop (Suc (length tok)) s)) s)
      else hd s # sanitizeKeyValueString tok (tl s))"
  by (cases s) (simp_all add: Let_def)

lemma value_length_alt:
  "value_length s =
     (if s \<noteq> [] \<and> hd s = CHR 0x22 \<and> CHR 0x22 \<in> set (tl s)
      then length (takeWhile (\<lambda>d. d \<noteq> CHR 0x22) (tl s)) + 2
      else length (takeWhile unquoted s))"
  by (cases s) (simp_all add: value_length_def)

lemma quote_unquoted [simp]: "unquoted (CHR 0x22)"
  by (simp add: unquoted_def isspace_def in_range_def char_code_def)

lemma equals_plain [simp]: "plain_char (CHR ''='')"
  by (simp add: plain_char_def unquoted_def isspace_def in_range_def char_code_def)

lemma takeWhile_unquoted:
  assumes "list_all plain_char v" "ends_value rest"
  shows "takeWhile unquoted (v @ rest) = v"
proof -
  have "takeWhile unquoted rest = []"
    using assms(2) by (cases rest) (simp_all add: ends_value_def)
  then show ?thesis using assms(1) by (simp add: list_all_iff plain_char_def)
qed

lemma value_length_plain:
  assumes "list_all plain_char v" "ends_value rest"
  shows "value_length (v @ rest) = length v"
proof -
  have "v @ rest \<noteq> [] \<Longrightarrow> hd (v @ rest) \<noteq> CHR 0x22"
    using assms by (cases v; cases rest) (auto simp: ends_value_def plain_char_def)
  then show ?thesis using takeWhile_unquoted [OF assms] by (auto simp: value_length_alt)
qed

text \<open>
  A value that starts before an occurrence of the variable ends either before it, or at a
  place behind its value that does not depend on the value.
\<close>

lemma value_length_before:
  assumes "literal_token tok" "ends_value rest"
  shows "(\<exists>k \<le> length a. \<forall>v. list_all plain_char v \<longrightarrow> value_length (a @ tok @ ''='' @ v @ rest) = k)
    \<or> (\<exists>k. \<forall>v. list_all plain_char v \<longrightarrow>
         value_length (a @ tok @ ''='' @ v @ rest) = length (a @ tok @ ''='' @ v) + k)"
proof -
  let ?q = "CHR 0x22 :: char"
  let ?s = "\<lambda>v. a @ tok @ ''='' @ v @ rest"
  have plain: "list_all plain_char (tok @ ''='' @ v)" if "list_all plain_char v" for v
    using that literal_token_char(1) [OF assms(1)] by (auto simp: list_all_iff)
  have noq: "?q \<notin> set (tok @ ''='' @ v)" if "list_all plain_char v" for v
    using plain [OF that] by (auto simp: list_all_iff plain_char_def)
  have run: "takeWhile unquoted (?s v) = (if list_all unquoted a then a @ tok @ ''='' @ v else takeWhile unquoted a)"
    if "list_all plain_char v" for v
    using takeWhile_unquoted [OF plain [OF that] assms(2)] by (auto simp: list_all_iff takeWhile_append)
  show ?thesis
  proof (cases "a \<noteq> [] \<and> hd a = ?q \<and> (?q \<in> set (tl a) \<or> ?q \<in> set rest)")
    case False
    then have "value_length (?s v) = length (takeWhile unquoted (?s v))" if "list_all plain_char v" for v
      using noq [OF that] plain [OF that]
      by (cases a) (auto simp: value_length_alt hd_append list_all_iff plain_char_def split: if_splits)
    then have len: "value_length (?s v) =
        (if list_all unquoted a then length (a @ tok @ ''='' @ v) else length (takeWhile unquoted a))"
      if "list_all plain_char v" for v
      using that run [OF that] by simp
    show ?thesis
    proof (cases "list_all unquoted a")
      case True
      then show ?thesis using len by (intro disjI2 exI [of _ 0]) simp
    next
      case False
      then show ?thesis using len length_takeWhile_le
        by (intro disjI1 exI [of _ "length (takeWhile unquoted a)"]) simp
    qed
  next
    case True
    then obtain a' where a: "a = ?q # a'" by (cases a) auto
    show ?thesis
    proof (cases "?q \<in> set a'")
      case True
      then have "value_length (?s v) = length (takeWhile (\<lambda>d. d \<noteq> ?q) a') + 2" for v
        by (simp add: value_length_alt a)
      moreover have "length (takeWhile (\<lambda>d. d \<noteq> ?q) a') < length a'"
        using True by (induction a') auto
      ultimately show ?thesis using a by (intro disjI1 exI [of _ "length (takeWhile (\<lambda>d. d \<noteq> ?q) a') + 2"]) simp
    next
      case False
      then have "value_length (?s v) = length (?s v) - length rest + (length (takeWhile (\<lambda>d. d \<noteq> ?q) rest) + 1)"
        if "list_all plain_char v" for v
        using noq [OF that] True by (auto simp: value_length_alt a takeWhile_append)
      then show ?thesis by (intro disjI2 exI [of _ "length (takeWhile (\<lambda>d. d \<noteq> ?q) rest) + 1"]) simp
    qed
  qed
qed

lemma sanitize_at_token:
  assumes "list_all plain_char v" "ends_value rest"
  shows "sanitizeKeyValueString tok (tok @ ''='' @ v @ rest) = tok @ ''=***'' @ sanitizeKeyValueString tok rest"
proof -
  have "icase_matches (tok @ ''='') (tok @ ''='' @ v @ rest)"
    using icase_matches_self [of "tok @ ''=''" "v @ rest"] by simp
  then show ?thesis using value_length_plain [OF assms] by (simp add: sanitize_unfold)
qed

lemma sanitize_hides_value:
  assumes "literal_token tok" "ends_value rest" "list_all plain_char v" "list_all plain_char v'"
  shows "sanitizeKeyValueString tok (a @ tok @ ''='' @ v @ rest) = sanitizeKeyValueString tok (a @ tok @ ''='' @ v' @ rest)"
proof (induction "length a" arbitrary: a rule: less_induct)
  case less
  let ?s = "\<lambda>v. a @ tok @ ''='' @ v @ rest" and ?n = "Suc (length tok)"
  show ?case
  proof (cases "a = []")
    case True
    then show ?thesis using sanitize_at_token assms(2-4) by simp
  next
    case False
    have unf: "sanitizeKeyValueString tok (?s w) =
        (if icase_matches (tok @ ''='') (?s w)
         then tok @ ''=***'' @ sanitizeKeyValueString tok (drop (?n + value_length (drop ?n (?s w))) (?s w))
         else hd (?s w) # sanitizeKeyValueString tok (tl (?s w)))" for w
      by (rule sanitize_unfold) simp
    have hd: "hd (?s v) = hd (?s v')" using False by simp
    have tl: "sanitizeKeyValueString tok (tl (?s v)) = sanitizeKeyValueString tok (tl (?s v'))"
      using less [of "tl a"] False by (cases a) simp_all
    show ?thesis
    proof (cases "icase_matches (tok @ ''='') (?s v)")
      case no: False
      have "\<not> icase_matches (tok @ ''='') (?s v')"
      proof (cases "length a \<le> length tok")
        case True
        then show ?thesis using icase_no_overlap [OF assms(1) False] by simp
      next
        case long: False
        then show ?thesis using no icase_matches_prefix [of "tok @ ''=''" a] by simp
      qed
      then show ?thesis unfolding unf using no tl hd by presburger
    next
      case yes: True
      have n: "?n \<le> length a"
        using yes icase_no_overlap [OF assms(1) False] by (metis Suc_leI linorder_not_less append.assoc)
      then have yes': "icase_matches (tok @ ''='') (?s v')"
        using yes icase_matches_prefix [of "tok @ ''=''" a] by simp
      let ?a = "drop ?n a"
      have dr: "drop ?n (?s w) = ?a @ tok @ ''='' @ w @ rest" for w using n by simp
      let ?stop = "\<lambda>w. drop (?n + value_length (?a @ tok @ ''='' @ w @ rest)) (?s w)"
      have "sanitizeKeyValueString tok (?stop v) = sanitizeKeyValueString tok (?stop v')"
        using value_length_before [OF assms(1,2), of ?a]
      proof (elim disjE exE conjE)
        fix k assume k: "k \<le> length ?a"
          "\<forall>v. list_all plain_char v \<longrightarrow> value_length (?a @ tok @ ''='' @ v @ rest) = k"
        have e: "?stop w = drop (?n + k) a @ tok @ ''='' @ w @ rest" if "list_all plain_char w" for w
          using k that n by simp
        show ?thesis unfolding e [OF assms(3)] e [OF assms(4)] using False by (intro less) simp
      next
        fix k assume k: "\<forall>v. list_all plain_char v \<longrightarrow>
          value_length (?a @ tok @ ''='' @ v @ rest) = length (?a @ tok @ ''='' @ v) + k"
        have e: "?stop w = drop k rest" if "list_all plain_char w" for w
        proof -
          have "?n + value_length (?a @ tok @ ''='' @ w @ rest) = length (a @ tok @ ''='' @ w) + k"
            using k that n by simp
          moreover have "drop (length (a @ tok @ ''='' @ w) + k) ((a @ tok @ ''='' @ w) @ rest) = drop k rest"
            by (simp only: drop_append) simp
          ultimately show ?thesis by simp
        qed
        show ?thesis unfolding e [OF assms(3)] e [OF assms(4)] by simp
      qed
      then show ?thesis unfolding unf dr using yes yes' by presburger
    qed
  qed
qed

subsection \<open>What the log and the page reveal\<close>

lemma literal_headers_variable: "literal_token headers_variable"
  by (simp add: literal_token_def headers_variable_def in_range_def char_code_def isdigit_def)

lemma getProcDataToString_plain:
  assumes "list_all plain_char v" "list_all (\<lambda>c. char_code c \<noteq> 0) v"
  shows "getProcDataToString (Some (a @ headers_variable @ ''='' @ v @ rest)) =
    getProcDataToString (Some a) @ headers_variable @ ''='' @ v @ getProcDataToString (Some rest)"
proof -
  have "map (\<lambda>c. if char_code c = 0 then CHR '' '' else c) v = v"
    using assms(2) by (intro map_idI) (auto simp: list_all_iff)
  then show ?thesis by (simp add: getProcDataToString_def headers_variable_def char_code_def)
qed

definition at_value_end :: "string \<Rightarrow> bool" where
  "at_value_end rest = (case rest of [] \<Rightarrow> True | c # _ \<Rightarrow> char_code c = 0 \<or> \<not> unquoted c)"

lemma ends_value_proc: "at_value_end rest \<Longrightarrow> ends_value (getProcDataToString (Some rest))"
  by (cases rest)
     (auto simp: at_value_end_def ends_value_def getProcDataToString_def unquoted_def isspace_def
        in_range_def char_code_def)

text \<open>
  C23. The start-up preamble, which is written to the log, does not depend on the value of
  \<open>OTEL_EXPORTER_OTLP_HEADERS\<close> in the environment or on the command line, wherever it stands
  and whatever surrounds it: two values without quotes, commas and white space give the same
  lines.
\<close>

theorem preamble_hides_the_otlp_headers:
  assumes "list_all plain_char v" "list_all (\<lambda>c. char_code c \<noteq> 0) v"
    and "list_all plain_char v'" "list_all (\<lambda>c. char_code c \<noteq> 0) v'"
    and "at_value_end rest"
  shows "logStartupPreamble b vendor cmd (Some (a @ headers_variable @ ''='' @ v @ rest)) =
      logStartupPreamble b vendor cmd (Some (a @ headers_variable @ ''='' @ v' @ rest))
    \<and> logStartupPreamble b vendor (Some (a @ headers_variable @ ''='' @ v @ rest)) env =
      logStartupPreamble b vendor (Some (a @ headers_variable @ ''='' @ v' @ rest)) env"
  unfolding logStartupPreamble_def getProcDataToString_plain [OF assms(1,2)] getProcDataToString_plain [OF assms(3,4)]
    sanitize_hides_value [OF literal_headers_variable ends_value_proc [OF assms(5)] assms(1,3)]
  by (intro conjI refl)

theorem preamble_hides_the_otlp_headers_witness:
  "logStartupPreamble \<lparr>product_name = ''p'', distro_version = ''1'', php_major = 8, php_minor = 4\<rparr> None None
     (Some (''A=1'' @ [CHR 0x00] @ headers_variable @ ''='' @ ''key=secret'' @ [CHR 0x00] @ ''B=2'')) =
   logStartupPreamble \<lparr>product_name = ''p'', distro_version = ''1'', php_major = 8, php_minor = 4\<rparr> None None
     (Some (''A=1'' @ [CHR 0x00] @ headers_variable @ ''='' @ ''other'' @ [CHR 0x00] @ ''B=2''))"
  using preamble_hides_the_otlp_headers
    [of "''key=secret''" "''other''" "[CHR 0x00] @ ''B=2''" _ _ _ "''A=1'' @ [CHR 0x00]"]
  by (simp add: plain_char_def unquoted_def isspace_def in_range_def char_code_def at_value_end_def)

text \<open>
  A header value that contains a space, such as the credentials of the documented example
  (docs/reference/configuration.md), is masked up to the space only: the expression stops
  there and at the comma that separates two headers, and the rest reaches the log.
\<close>

lemma bearer_token_is_logged:
  "logStartupPreamble b vendor cmd (Some ''OTEL_EXPORTER_OTLP_HEADERS=Authorization=Bearer secret'') ! 3 =
     left_aligned 40 ''Process environment:'' @ ''OTEL_EXPORTER_OTLP_HEADERS=*** secret''"
proof -
  have "getProcDataToString (Some ''OTEL_EXPORTER_OTLP_HEADERS=Authorization=Bearer secret'') =
      headers_variable @ ''='' @ ''Authorization=Bearer'' @ '' secret''"
    by (simp add: getProcDataToString_def headers_variable_def char_code_def)
  moreover have "sanitizeKeyValueString headers_variable (headers_variable @ ''='' @ ''Authorization=Bearer'' @ '' secret'') =
      headers_variable @ ''=***'' @ sanitizeKeyValueString headers_variable '' secret''"
    by (rule sanitize_at_token)
      (simp_all add: plain_char_def unquoted_def isspace_def in_range_def char_code_def ends_value_def)
  moreover have "c_str (headers_variable @ ''=***'' @ sanitizeKeyValueString headers_variable '' secret'') =
      ''OTEL_EXPORTER_OTLP_HEADERS=*** secret''"
    by code_simp
  ultimately have "c_str (sanitizeKeyValueString headers_variable
      (getProcDataToString (Some ''OTEL_EXPORTER_OTLP_HEADERS=Authorization=Bearer secret''))) =
    ''OTEL_EXPORTER_OTLP_HEADERS=*** secret''" by simp
  then show ?thesis by (simp add: logStartupPreamble_def split: option.splits prod.splits)
qed

lemma option_rows_eq:
  assumes "\<forall>e \<in> set es. wt_entry c e"
  shows "option_rows es c = Inr (map (\<lambda>(name, md).
     Table_Row [c_str name,
       if secret md then ''***'' else c_str (value_to_string (the (members c name)))]) es)"
  using assms
proof (induction es)
  case (Cons e es)
  obtain name md where e: "e = (name, md)" by (cases e)
  have "read_member md c = Inr (the (members c name))"
    using wt_read_member [of c e] Cons.prems e by simp
  then show ?case using Cons e by (simp add: accessOptionStringValueByMetadata_def)
qed simp

lemma wt_config_options: "wt_snapshot c \<Longrightarrow> \<forall>e \<in> set config_options. wt_entry c e"
  by (simp add: wt_snapshot_def list_all_iff)

lemma wt_member_type:
  assumes "wt_snapshot c" "(name, md) \<in> set options_table"
  shows "\<exists>v. members c name = Some v \<and> type_of_value v = option_type md"
  using assms by (auto simp: wt_snapshot_def list_all_iff wt_entry_def)

lemma wt_string:
  "wt_snapshot c \<Longrightarrow> (name, md) \<in> set options_table \<Longrightarrow> option_type md = Type_string \<Longrightarrow>
     \<exists>s. members c name = Some (Val_string s)"
  using wt_member_type [of c name md] by (auto elim: type_of_value.elims)

lemma wt_boolean:
  "wt_snapshot c \<Longrightarrow> (name, md) \<in> set options_table \<Longrightarrow> option_type md = Type_boolean \<Longrightarrow>
     \<exists>b. members c name = Some (Val_boolean b)"
  using wt_member_type [of c name md] by (auto elim: type_of_value.elims)

text \<open>
  C37. The page of \<open>phpinfo()\<close> does not depend on a secret option: two well-typed snapshots
  that agree on the other options print the same page, and the page is printed.
\<close>

theorem phpinfo_hides_secrets:
  assumes "wt_snapshot c" "wt_snapshot c'"
    and "\<forall>(name, md) \<in> set options_table. \<not> secret md \<longrightarrow> members c name = members c' name"
  shows "printPhpInfo b vendor files c = printPhpInfo b vendor files c' \<and> is_ok (printPhpInfo b vendor files c)"
proof -
  have agree: "members c name = members c' name" if "(name, md) \<in> set options_table" "\<not> secret md" for name md
    using assms(3) that by auto
  have rows: "option_rows config_options c = option_rows config_options c'"
    unfolding option_rows_eq [OF wt_config_options [OF assms(1)]] option_rows_eq [OF wt_config_options [OF assms(2)]]
  proof (intro arg_cong [where f = Inr] list.map_cong refl)
    fix e assume "e \<in> set config_options"
    then have "(fst e, snd e) \<in> set options_table" unfolding set_config_options by simp
    from agree [OF this]
    show "(case e of (name, md) \<Rightarrow> Table_Row [c_str name,
          if secret md then ''***'' else c_str (value_to_string (the (members c name)))]) =
        (case e of (name, md) \<Rightarrow> Table_Row [c_str name,
          if secret md then ''***'' else c_str (value_to_string (the (members c' name)))])"
      by (cases e) simp
  qed
  have ok: "is_ok (option_rows config_options c)"
    unfolding option_rows_eq [OF wt_config_options [OF assms(1)]] by simp
  have boot: "(''bootstrap_php_part_file'', option_metadata Type_string ''bootstrap_php_part_file'' False False)
      \<in> set options_table"
    and scoped: "(''scoped_deps_enabled'', option_metadata Type_boolean ''scoped_deps_enabled'' False False)
      \<in> set options_table"
    by (simp_all only: options_table_def list.set insert_iff simp_thms)
  obtain s flag where members: "members c ''bootstrap_php_part_file'' = Some (Val_string s)"
    "members c ''scoped_deps_enabled'' = Some (Val_boolean flag)"
    using wt_string [OF assms(1) boot] wt_boolean [OF assms(1) scoped] by (auto simp: option_metadata_def)
  have "members c' ''bootstrap_php_part_file'' = Some (Val_string s)"
    "members c' ''scoped_deps_enabled'' = Some (Val_boolean flag)"
    using members agree [OF boot] agree [OF scoped] by (simp_all add: option_metadata_def)
  with members have part: "readPhpPartVersion b0 files c = readPhpPartVersion b0 files c'"
    "is_ok (readPhpPartVersion b0 files c)" for b0
    by (simp_all add: readPhpPartVersion_def member_string_def member_boolean_def Let_def)
  show ?thesis
    using ok part(2) [of b] unfolding printPhpInfo_def rows part(1)
    by (auto simp: is_ok_def split: sum.splits)
qed

theorem phpinfo_hides_secrets_witness:
  "printPhpInfo \<lparr>product_name = ''p'', distro_version = ''1'', php_major = 8, php_minor = 4\<rparr> None Map.empty
     (default_snapshot\<lparr>members := (members default_snapshot)(''opamp_client_keypass'' \<mapsto> Val_string ''pass'')\<rparr>) =
   printPhpInfo \<lparr>product_name = ''p'', distro_version = ''1'', php_major = 8, php_minor = 4\<rparr> None Map.empty
     default_snapshot"
proof -
  let ?c = "default_snapshot\<lparr>members := (members default_snapshot)(''opamp_client_keypass'' \<mapsto> Val_string ''pass'')\<rparr>"
  let ?secret = "(''opamp_client_keypass'', option_metadata Type_string ''opamp_client_keypass'' True False)"
  have "?secret \<in> set options_table" by (simp only: options_table_def list.set insert_iff simp_thms)
  then have only: "md = snd ?secret" if "(fst ?secret, md) \<in> set options_table" for md
    using that options_table_distinct by (metis eq_key_imp_eq_value fst_conv snd_conv)
  have wt: "wt_snapshot default_snapshot"
    using wt_default [where r = "revision default_snapshot" and cf = "remoteConfigFiles default_snapshot"] by simp
  then have "wt_snapshot ?c"
    using only by (fastforce simp: wt_snapshot_def wt_entry_def list_all_iff option_metadata_def)
  moreover have "\<forall>(name, md) \<in> set options_table. \<not> secret md \<longrightarrow> members ?c name = members default_snapshot name"
    using only by (fastforce simp: option_metadata_def)
  ultimately show ?thesis using phpinfo_hides_secrets wt by blast
qed

text \<open>
  The headers of the OpAMP client, which carry its credentials, are not among the secret
  options: the page shows them.
\<close>

lemma phpinfo_shows_opamp_headers:
  assumes "wt_snapshot c" "members c ''opamp_headers'' = Some (Val_string h)"
  shows "\<exists>rows. option_rows config_options c = Inr rows \<and> Table_Row [''opamp_headers'', c_str h] \<in> set rows"
proof -
  let ?e = "(''opamp_headers'', option_metadata Type_string ''opamp_headers'' False False)"
  have "?e \<in> set config_options"
    unfolding set_config_options by (simp only: options_table_def list.set insert_iff simp_thms)
  moreover have "c_str ''opamp_headers'' = ''opamp_headers''" by (simp add: c_str_def char_code_def)
  ultimately show ?thesis
    unfolding option_rows_eq [OF wt_config_options [OF assms(1)]]
    using assms(2) by (force simp: option_metadata_def)
qed

text \<open>
  None of the secret options has an INI entry: whatever the engine does with the entries, as
  long as it adds these and no other, no displayer for secret values is ever registered.
\<close>

lemma secret_options_have_no_ini_entry:
  assumes "(name, md) \<in> set options_table" "secret md"
  shows "getIniName name \<notin> fst ` set ini_entries"
proof -
  have "list_all (\<lambda>(name, md). secret md \<longrightarrow> getIniName name \<notin> set (map fst ini_entries)) options_table"
    by code_simp
  then show ?thesis using assms by (auto simp: list_all_iff)
qed

lemma secret_displayer_is_never_registered:
  assumes adds: "\<And>es d d'. zend es d = Some d' \<Longrightarrow> dom d' \<subseteq> dom d \<union> fst ` set es"
    and fresh: "\<forall>(name, md) \<in> set options_table. secret md \<longrightarrow> getIniName name \<notin> dom directives"
    and added: "zend ini_entries directives = Some directives'"
  shows "registerIniEntries zend directives = (True, directives')"
proof -
  have none: "directives' (getIniName name) = None" if "(name, md) \<in> set options_table" "secret md" for name md
    using that fresh adds [OF added] secret_options_have_no_ini_entry [OF that] by blast
  have "fold register_displayer es directives' = directives'" if "set es \<subseteq> set options_table" for es
    using that
  proof (induction es)
    case (Cons e es)
    then have "register_displayer e directives' = directives'"
      using none [of "fst e" "snd e"] by (auto simp: register_displayer_def)
    then show ?case using Cons by simp
  qed simp
  from this [of config_options] show ?thesis by (simp add: registerIniEntries_def added)
qed

end
