(* ===== verification/ProcessServices.thy ===== *)
theory ProcessServices
  imports Threads
begin

section \<open>Services of the process\<close>

text \<open>
  What the extension does with the process it lives in: the handler of segmentation faults
  (extension/code/SigSegvHandler.cpp) with the stack trace it writes (libcommon/code/os/StackTraceCapture.cpp),
  the callbacks around \<open>fork\<close> (ForkHandler.cpp), blocking of signals in threads (CommonUtils.cpp), the
  list of extensions and the capture of phpinfo (libphpbridge/code/Debugging.cpp), and the names of error
  codes (php_error.cpp). The operating system, libunwind and the engine are parameters.
\<close>

subsection \<open>Segmentation faults\<close>

text \<open>
  A disposition is the default action, the extension's handler, or a handler of somebody else; the null
  pointer of the code is the default action. \<open>agent_globals\<close> says whether the globals and their logger
  exist in the process.
\<close>

datatype disposition = SIG_DFL | Foreign nat | Own_Handler

record process =
  sigsegv :: disposition
  oldSigSegvHandler :: disposition
  agent_globals :: bool
  reports :: nat

definition process_start :: "disposition \<Rightarrow> bool \<Rightarrow> process" where
  "process_start d g = \<lparr>sigsegv = d, oldSigSegvHandler = SIG_DFL, agent_globals = g, reports = 0\<rparr>"

text \<open>\<open>signal\<close> returns the disposition it replaces, or an error.\<close>

definition registerSigSegvHandler :: "bool \<Rightarrow> process \<Rightarrow> process" where
  "registerSigSegvHandler signal_succeeds p =
     (if \<not> signal_succeeds then p
      else p\<lparr>oldSigSegvHandler := sigsegv p, sigsegv := Own_Handler\<rparr>)"

definition unregisterSigSegvHandler :: "process \<Rightarrow> process" where
  "unregisterSigSegvHandler p =
     (if oldSigSegvHandler p = Own_Handler
      then p\<lparr>sigsegv := oldSigSegvHandler p, oldSigSegvHandler := SIG_DFL\<rparr>
      else p)"

definition SigSegvHandler :: "process \<Rightarrow> process" where
  "SigSegvHandler p =
     (if agent_globals p
      then p\<lparr>reports := reports p + 1,
             sigsegv := (if oldSigSegvHandler p \<noteq> SIG_DFL then oldSigSegvHandler p else SIG_DFL)\<rparr>
      else p)"

text \<open>
  The signal is blocked while its handler runs. When the handler returns, the signal it raised
  is delivered, or else the faulting instruction runs again and faults again: either way there
  is a next delivery. The first argument bounds their number; without an answer the process
  is still in the handler.
\<close>

datatype fate = Terminated | Handed_To nat

fun deliver :: "nat \<Rightarrow> process \<Rightarrow> (fate \<times> process) option" where
  "deliver 0 p = None"
| "deliver (Suc n) p =
     (case sigsegv p of
        SIG_DFL \<Rightarrow> Some (Terminated, p)
      | Foreign k \<Rightarrow> Some (Handed_To k, p)
      | Own_Handler \<Rightarrow> deliver n (SigSegvHandler p))"

subsection \<open>The stack trace\<close>

text \<open>What libunwind and \<open>dladdr\<close> tell of one frame.\<close>

record unw_frame =
  proc_info :: "(64 word \<times> 64 word) option"
  proc_name :: "(string \<times> 64 word) option"
  instruction :: "64 word"
  dl_info :: "(string option \<times> string option \<times> 64 word) option"

text \<open>
  The lines of the trace before \<open>printf\<close>: file, symbol, offset in the function, base of the module,
  start and end of the function, their distances to the base.
\<close>

datatype stack_line =
  Frame_Line string string "64 word" "64 word" "64 word" "64 word" "64 word" "64 word"
| Dladdr_Failed nat
| Proc_Info_Failed nat

definition stack_line_of :: "nat \<Rightarrow> unw_frame \<Rightarrow> stack_line" where
  "stack_line_of frameIndex f =
     (case proc_info f of
        None \<Rightarrow> Proc_Info_Failed frameIndex
      | Some (start, stop) \<Rightarrow>
          (let (name, offs) = (case proc_name f of
                                 Some (n, off) \<Rightarrow> (take 99 n, off)
                               | None \<Rightarrow> (''???'', instruction f - start))
           in case dl_info f of
                None \<Rightarrow> Dladdr_Failed frameIndex
              | Some (fname, sname, base) \<Rightarrow>
                  Frame_Line (case fname of Some x \<Rightarrow> x | None \<Rightarrow> ''???'')
                    (case sname of Some x \<Rightarrow> x | None \<Rightarrow> name)
                    offs base start stop (start - base) (start - base + offs)))"

fun stack_lines :: "nat \<Rightarrow> nat \<Rightarrow> unw_frame list \<Rightarrow> stack_line list" where
  "stack_lines numberOfFramesToSkip frameIndex [] = []"
| "stack_lines numberOfFramesToSkip frameIndex (f # fs) =
     (if frameIndex \<ge> numberOfFramesToSkip + 1 then [stack_line_of frameIndex f] else [])
     @ stack_lines numberOfFramesToSkip (frameIndex + 1) fs"

text \<open>
  \<open>frames\<close> are those the cursor passes before \<open>unw_step\<close> answers that there is none left or
  fails; there is none when the context cannot be read.
\<close>

definition getStackTrace :: "nat \<Rightarrow> unw_frame list option \<Rightarrow> stack_line list" where
  "getStackTrace numberOfFramesToSkip frames =
     (case frames of None \<Rightarrow> [] | Some fs \<Rightarrow> stack_lines numberOfFramesToSkip 0 fs)"

subsection \<open>Fork handlers\<close>

text \<open>
  The globals of the extension with their registry; the messages the callbacks write first go through the
  logger of the globals, which must therefore exist.
\<close>

type_synonym agent = "ForkableRegistry option option"

definition with_globals :: "(ForkableRegistry \<Rightarrow> ForkableRegistry) \<Rightarrow> agent \<Rightarrow> agent result" where
  "with_globals f g =
     (case g of
        None \<Rightarrow> Inl (Undefined_Behaviour ''null pointer'')
      | Some reg \<Rightarrow> Inr (Some (map_option f reg)))"

definition beforeFork :: "agent \<Rightarrow> agent result" where
  "beforeFork g = with_globals preFork g"

definition afterForkInParent :: "agent \<Rightarrow> agent result" where
  "afterForkInParent g = with_globals (postFork False) g"

definition afterForkInChild :: "agent \<Rightarrow> agent result" where
  "afterForkInChild g = with_globals (postFork True) g"

text \<open>\<open>pthread_atfork\<close> runs them around every fork once they are registered.\<close>

definition process_fork :: "agent \<Rightarrow> (agent \<times> agent) result" where
  "process_fork g =
     bind_result (beforeFork g) (\<lambda>g'.
     bind_result (afterForkInParent g') (\<lambda>parent.
     bind_result (afterForkInChild g') (\<lambda>child. Inr (parent, child))))"

subsection \<open>Signals of threads\<close>

datatype signo = SIGTERM | SIGHUP | SIGINT | SIGWINCH | SIGUSR1 | SIGPROF | Other_Signal nat

text \<open>\<open>pthread_sigmask\<close> may fail, when it reads the mask and when it changes it.\<close>

definition blockSignal :: "bool \<Rightarrow> bool \<Rightarrow> signo \<Rightarrow> signo set \<Rightarrow> bool \<times> signo set" where
  "blockSignal read_succeeds block_succeeds s blocked =
     (let current = (if read_succeeds then blocked else {}) in
      if s \<in> current then (True, blocked)
      else if block_succeeds then (True, blocked \<union> insert s current)
      else (False, blocked))"

definition blockApacheAndPHPSignals :: "bool \<Rightarrow> bool \<Rightarrow> signo set \<Rightarrow> signo set" where
  "blockApacheAndPHPSignals read_succeeds block_succeeds blocked =
     fold (\<lambda>s m. snd (blockSignal read_succeeds block_succeeds s m))
       [SIGTERM, SIGHUP, SIGINT, SIGWINCH, SIGUSR1, SIGPROF] blocked"

subsection \<open>What the engine has loaded\<close>

definition getModuleData :: "string option \<times> string option \<Rightarrow> string \<times> string" where
  "getModuleData m =
     ((case fst m of Some n \<Rightarrow> n | None \<Rightarrow> []), (case snd m of Some v \<Rightarrow> v | None \<Rightarrow> []))"

definition getExtensionData :: "string option \<times> string option \<Rightarrow> string \<times> string" where
  "getExtensionData e =
     ((case fst e of Some n \<Rightarrow> n | None \<Rightarrow> []), (case snd e of Some v \<Rightarrow> v | None \<Rightarrow> []))"

definition getExtensionList ::
  "(string option \<times> string option) list \<Rightarrow> (string option \<times> string option) list \<Rightarrow> (string \<times> string) list" where
  "getExtensionList module_registry zend_extensions =
     map getModuleData module_registry @ map getExtensionData zend_extensions"

text \<open>
  The capture of phpinfo: the handler appends every piece of output to the buffer, if there
  is one; \<open>php_print_info\<close> writes its pieces as text or as HTML by the flag of the SAPI.
\<close>

record info_capture =
  phpInfoTempBuffer :: "string option"
  phpinfo_as_text :: bool

definition phpInfoToStringOutputHandler :: "string option \<Rightarrow> info_capture \<Rightarrow> info_capture" where
  "phpInfoToStringOutputHandler piece c =
     (case piece of
        None \<Rightarrow> c
      | Some t \<Rightarrow> c\<lparr>phpInfoTempBuffer := map_option (\<lambda>b. b @ t) (phpInfoTempBuffer c)\<rparr>)"

definition getPhpInfo :: "bool \<Rightarrow> (bool \<Rightarrow> string option list) \<Rightarrow> info_capture \<Rightarrow> string \<times> info_capture" where
  "getPhpInfo output_starts php_print_info c =
     (if \<not> output_starts then ([], c)
      else let c1 = c\<lparr>phpInfoTempBuffer := Some [], phpinfo_as_text := True\<rparr>;
               c2 = fold phpInfoToStringOutputHandler (php_print_info (phpinfo_as_text c1)) c1
           in (the (phpInfoTempBuffer c2),
               c2\<lparr>phpinfo_as_text := phpinfo_as_text c, phpInfoTempBuffer := None\<rparr>))"

subsection \<open>Names of error codes\<close>

definition error_names :: "(int \<times> string) list" where
  "error_names =
     [(1, ''E_ERROR''), (2, ''E_WARNING''), (4, ''E_PARSE''), (8, ''E_NOTICE''),
      (16, ''E_CORE_ERROR''), (32, ''E_CORE_WARNING''), (64, ''E_COMPILE_ERROR''),
      (128, ''E_COMPILE_WARNING''), (256, ''E_USER_ERROR''), (512, ''E_USER_WARNING''),
      (1024, ''E_USER_NOTICE''), (2048, ''E_STRICT''), (4096, ''E_RECOVERABLE_ERROR''),
      (8192, ''E_DEPRECATED''), (16384, ''E_USER_DEPRECATED'')]"

definition get_php_error_name :: "int \<Rightarrow> string" where
  "get_php_error_name code = (case map_of error_names code of Some n \<Rightarrow> n | None \<Rightarrow> ''UNDEFINED'')"

subsection \<open>What becomes of a crash\<close>

lemmas handler_defs = process_start_def registerSigSegvHandler_def unregisterSigSegvHandler_def SigSegvHandler_def

text \<open>
  A process whose handler leads back to itself never gets out of it: neither without globals, where the handler
  does nothing, nor when the handler is its own predecessor.
\<close>

lemma deliver_stuck:
  "sigsegv p = Own_Handler \<Longrightarrow> \<not> agent_globals p \<or> oldSigSegvHandler p = Own_Handler \<Longrightarrow> deliver n p = None"
proof (induction n arbitrary: p)
  case (Suc n)
  then have "deliver n (SigSegvHandler p) = None" by (intro Suc.IH) (auto simp: SigSegvHandler_def)
  with Suc.prems show ?case by simp
qed simp

text \<open>
  C28. In a worker whose handler was registered once, a segmentation fault is reported once and then
  takes the course it would have taken without the extension. In the coordinator process, which has no
  globals, the fault never ends: the handler returns without doing anything and the instruction
  faults again. The same holds in a worker whose module was initialized a second time without being unloaded,
  since \<open>moduleShutdown\<close> does not take the handler away and it becomes its own predecessor.
\<close>

theorem fate_of_a_crash:
  assumes "d \<noteq> Own_Handler"
  shows "(\<exists>p. deliver 2 (registerSigSegvHandler True (process_start d True)) =
        Some (case d of Foreign k \<Rightarrow> Handed_To k | _ \<Rightarrow> Terminated, p) \<and> reports p = 1)
    \<and> (\<forall>n. deliver n (registerSigSegvHandler True (process_start d False)) = None)
    \<and> (\<forall>n. deliver n (registerSigSegvHandler True (unregisterSigSegvHandler
          (registerSigSegvHandler True (process_start d True)))) = None)"
proof (intro conjI allI)
  show "\<exists>p. deliver 2 (registerSigSegvHandler True (process_start d True)) =
        Some (case d of Foreign k \<Rightarrow> Handed_To k | _ \<Rightarrow> Terminated, p) \<and> reports p = 1"
    using assms by (cases d) (simp_all add: handler_defs numeral_2_eq_2)
  show "deliver n (registerSigSegvHandler True (process_start d False)) = None" for n
    by (rule deliver_stuck) (simp_all add: handler_defs)
  show "deliver n (registerSigSegvHandler True (unregisterSigSegvHandler
      (registerSigSegvHandler True (process_start d True)))) = None" for n
    using assms by (intro deliver_stuck) (simp_all add: handler_defs)
qed

theorem fate_of_a_crash_witness:
  "\<exists>p. deliver 2 (registerSigSegvHandler True (process_start (Foreign 7) True)) = Some (Handed_To 7, p) \<and> reports p = 1"
  using fate_of_a_crash [of "Foreign 7"] by simp

subsection \<open>The other services\<close>

lemma stack_lines_skip:
  "stack_lines skip i fs = map (\<lambda>(j, f). stack_line_of j f) (drop (skip + 1 - i) (zip [i..<i + length fs] fs))"
proof (induction fs arbitrary: i)
  case (Cons f fs)
  show ?case
  proof (cases "i \<ge> skip + 1")
    case True
    then show ?thesis using Cons [of "i + 1"] by (simp add: upt_conv_Cons del: upt_Suc)
  next
    case False
    then have "skip + 1 - i = Suc (skip + 1 - (i + 1))" by simp
    then show ?thesis using False Cons [of "i + 1"] by (simp add: upt_conv_Cons del: upt_Suc)
  qed
qed simp

lemma stack_trace_length:
  "length (getStackTrace skip (Some fs)) = length fs - (skip + 1)"
  by (simp add: getStackTrace_def stack_lines_skip)

text \<open>In the child and in the parent of a fork, all threads that were stopped for it run again.\<close>

lemma process_fork_restarts:
  assumes "process_fork (Some (Some reg)) = Inr (Some (Some parent), Some (Some child))" "Some obj \<in> set (parent @ child)"
  shows "object_has_thread obj \<or> obj = Fork_Registrar"
proof -
  have restarted: "object_postfork c (object_prefork x) = Fork_Registrar \<or> object_has_thread (object_postfork c (object_prefork x))" for c x
    using executor_fork.thread_after_fork opamp_fork.thread_after_fork transport_fork.thread_after_fork
    by (cases x) simp_all
  have "parent = postFork False (preFork reg)" "child = postFork True (preFork reg)"
    using assms(1) by (simp_all add: process_fork_def beforeFork_def afterForkInParent_def afterForkInChild_def with_globals_def)
  with assms(2) obtain c x where "obj = object_postfork c (object_prefork x)"
    by (auto simp: preFork_def postFork_def option.map_comp dest!: sym [of "Some obj"])
  with restarted show ?thesis by blast
qed

lemma fork_without_globals: "process_fork None = Inl (Undefined_Behaviour ''null pointer'')"
  by (simp add: process_fork_def beforeFork_def with_globals_def)

lemma blockSignal_grows:
  "insert s blocked \<subseteq> snd (blockSignal r True s blocked)"
  by (auto simp: blockSignal_def Let_def)

lemma fold_blockSignal:
  "set ss \<union> blocked \<subseteq> fold (\<lambda>s m. snd (blockSignal r True s m)) ss blocked"
proof (induction ss arbitrary: blocked)
  case (Cons s ss)
  show ?case using Cons [of "snd (blockSignal r True s blocked)"] blockSignal_grows [of s blocked r] by (simp, blast)
qed simp

lemma signals_are_blocked:
  "{SIGTERM, SIGHUP, SIGINT, SIGWINCH, SIGUSR1, SIGPROF} \<subseteq> blockApacheAndPHPSignals r True blocked
   \<and> blocked \<subseteq> blockApacheAndPHPSignals r True blocked"
  using fold_blockSignal [of "[SIGTERM, SIGHUP, SIGINT, SIGWINCH, SIGUSR1, SIGPROF]" blocked r]
  by (simp add: blockApacheAndPHPSignals_def)

lemma captured_info:
  "getPhpInfo True print_info c =
     (concat (map (\<lambda>p. case p of Some t \<Rightarrow> t | None \<Rightarrow> []) (print_info True)), c\<lparr>phpInfoTempBuffer := None\<rparr>)"
proof -
  have "fold phpInfoToStringOutputHandler ps c' =
      c'\<lparr>phpInfoTempBuffer := Some (b @ concat (map (\<lambda>p. case p of Some t \<Rightarrow> t | None \<Rightarrow> []) ps))\<rparr>"
    if "phpInfoTempBuffer c' = Some b" for ps b c'
    using that
  proof (induction ps arbitrary: b c')
    case (Cons p ps)
    then show ?case by (cases p) (simp_all add: phpInfoToStringOutputHandler_def)
  qed simp
  from this [of "c\<lparr>phpInfoTempBuffer := Some [], phpinfo_as_text := True\<rparr>" "[]" "print_info True"]
  show ?thesis by (simp add: getPhpInfo_def Let_def)
qed

lemma error_names_injective:
  "get_php_error_name a = get_php_error_name b \<Longrightarrow> get_php_error_name a \<noteq> ''UNDEFINED'' \<Longrightarrow> a = b"
proof -
  assume same: "get_php_error_name a = get_php_error_name b" and known: "get_php_error_name a \<noteq> ''UNDEFINED''"
  have "inj_on snd (set error_names)" by (rule distinct_map [THEN iffD1, THEN conjunct2]) (simp add: error_names_def)
  moreover obtain n where "map_of error_names a = Some n" "map_of error_names b = Some n"
    using same known by (auto simp: get_php_error_name_def split: option.splits)
  ultimately have "(a, n) = (b, n)" by (intro inj_onD [of snd "set error_names"] map_of_SomeD) simp_all
  then show "a = b" by simp
qed

end
