(* ===== verification/Diagnostics.thy ===== *)
theory Diagnostics
  imports ProcessServices
begin

section \<open>The diagnostics file\<close>

text \<open>
  What \<open>storeDiagnosticInformation\<close> of libcommon/code/Diagnostics.cpp writes. The stream throws on
  failure; that a stream which has failed already throws again or drops what is inserted is left
  to the library by the standard, and is the parameter \<open>sentry_throws\<close>. The files below /proc, the clock,
  the process and the bridge are the environment. Shown: the exact text, with the sections that could
  not be opened, and where it ends when a file is empty.
\<close>

subsection \<open>The output stream\<close>

record out_stream =
  written :: string
  failed :: bool

type_synonym 'a stream_op = "'a result \<times> out_stream"

definition insert_text :: "bool \<Rightarrow> string \<Rightarrow> out_stream \<Rightarrow> unit stream_op" where
  "insert_text sentry_throws t out =
     (if failed out then ((if sentry_throws then Inl (Runtime_Error ''ios_base::failure'') else Inr ()), out)
      else (Inr (), out\<lparr>written := written out @ t\<rparr>))"

definition seq_out :: "unit stream_op \<Rightarrow> (out_stream \<Rightarrow> unit stream_op) \<Rightarrow> unit stream_op" where
  "seq_out m f = (case m of (Inl e, out) \<Rightarrow> (Inl e, out) | (Inr _, out) \<Rightarrow> f out)"

definition line_end :: string where
  "line_end = [CHR 0x0A]"

definition separator :: string where
  "separator = replicate 60 (CHR ''='') @ line_end"

text \<open>\<open>out << maps.rdbuf()\<close>: inserting nothing counts as a failure of \<open>out\<close>, which throws.\<close>

definition insert_file :: "bool \<Rightarrow> string \<Rightarrow> out_stream \<Rightarrow> unit stream_op" where
  "insert_file sentry_throws contents out =
     (if failed out then insert_text sentry_throws contents out
      else if contents = [] then (Inl (Runtime_Error ''ios_base::failure''), out\<lparr>failed := True\<rparr>)
      else insert_text sentry_throws contents out)"

subsection \<open>Sections\<close>

text \<open>A file below /proc cannot be opened, with a reason, or has contents.\<close>

type_synonym proc_files = "string \<Rightarrow> string + string"

definition what_of :: "cpp_exception \<Rightarrow> string" where
  "what_of e = (case e of Runtime_Error w \<Rightarrow> w | Out_Of_Range w \<Rightarrow> w | Invalid_Argument w \<Rightarrow> w | Undefined_Behaviour w \<Rightarrow> w)"

definition process_header :: "string \<Rightarrow> string" where
  "process_header name = separator @ ''Process '' @ name @ '':'' @ line_end @ separator"

definition unable_text :: "string \<Rightarrow> string \<Rightarrow> string" where
  "unable_text name what = ''Unable to get process '' @ name @ '': '' @ what @ line_end"

definition getProcessDiags :: "bool \<Rightarrow> proc_files \<Rightarrow> string \<Rightarrow> out_stream \<Rightarrow> unit stream_op" where
  "getProcessDiags sentry_throws proc name out =
     seq_out (insert_text sentry_throws (process_header name) out) (\<lambda>out.
       case proc name of
         Inl what \<Rightarrow> insert_text sentry_throws (unable_text name what) out
       | Inr contents \<Rightarrow>
           (case insert_file sentry_throws contents out of
              (Inl e, out) \<Rightarrow> insert_text sentry_throws (unable_text name (what_of e)) out
            | (Inr _, out) \<Rightarrow> (Inr (), out)))"

fun write_process_diags :: "bool \<Rightarrow> proc_files \<Rightarrow> string list \<Rightarrow> out_stream \<Rightarrow> unit stream_op" where
  "write_process_diags sentry_throws proc [] out = (Inr (), out)"
| "write_process_diags sentry_throws proc (n # ns) out =
     seq_out (getProcessDiags sentry_throws proc n out) (write_process_diags sentry_throws proc ns)"

definition process_sections :: "string list" where
  "process_sections = [''maps'', ''smaps_rollup'', ''status'', ''limits'', ''cgroup'', ''cmdline'',
     ''mountinfo'', ''mounts'', ''mountstats'', ''stat'']"

subsection \<open>The whole file\<close>

text \<open>The time as text and as a number, the numbers of the process, and what the bridge tells.\<close>

record diag_env =
  time_text :: string
  time_count :: nat
  own_pid :: nat
  own_ppid :: nat
  own_uid :: nat
  loaded_extensions :: "(string \<times> string) list"
  php_info :: string
  proc_dir :: proc_files

definition general_text :: "diag_env \<Rightarrow> string" where
  "general_text e =
     separator @ ''OpenTelemetry PHP distribution diagnostics:'' @ line_end @ separator
     @ ''Time: '' @ time_text e @ '' UTC ('' @ nat_to_string (time_count e) @ '')'' @ line_end
     @ ''PID: '' @ nat_to_string (own_pid e) @ line_end
     @ ''PPID: '' @ nat_to_string (own_ppid e) @ line_end
     @ ''UID: '' @ nat_to_string (own_uid e) @ line_end
     @ (if loaded_extensions e = [] then []
        else separator @ ''Loaded extensions:'' @ line_end @ separator
          @ concat (map (\<lambda>(n, v). n @ '' '' @ v @ line_end) (loaded_extensions e)))
     @ separator @ line_end @ ''phpinfo() output:'' @ line_end @ separator
     @ php_info e @ line_end"

definition getDiagnosticInformation :: "bool \<Rightarrow> diag_env \<Rightarrow> out_stream \<Rightarrow> unit stream_op" where
  "getDiagnosticInformation sentry_throws e out =
     seq_out (insert_text sentry_throws (general_text e) out)
       (write_process_diags sentry_throws (proc_dir e) process_sections)"

text \<open>\<open>open_error\<close>: why the file cannot be opened, if so. The second component is what is in the file.\<close>

definition storeDiagnosticInformation :: "bool \<Rightarrow> diag_env \<Rightarrow> string option \<Rightarrow> unit result \<times> string option" where
  "storeDiagnosticInformation sentry_throws e open_error =
     (case open_error of
        Some what \<Rightarrow> (Inl (Runtime_Error what), None)
      | None \<Rightarrow>
          (case getDiagnosticInformation sentry_throws e \<lparr>written = [], failed = False\<rparr> of
             (r, out) \<Rightarrow> (r, Some (written out))))"

subsection \<open>What is in the file\<close>

text \<open>The text of a section, and the sections before the first file that is there but empty.\<close>

definition section_text :: "proc_files \<Rightarrow> string \<Rightarrow> string" where
  "section_text proc name =
     process_header name @ (case proc name of Inl what \<Rightarrow> unable_text name what | Inr contents \<Rightarrow> contents)"

definition readable_sections :: "proc_files \<Rightarrow> string list \<Rightarrow> string list" where
  "readable_sections proc names = takeWhile (\<lambda>n. proc n \<noteq> Inr []) names"

lemma insert_text_good [simp]:
  "\<not> failed out \<Longrightarrow> insert_text st t out = (Inr (), out\<lparr>written := written out @ t\<rparr>)"
  by (simp add: insert_text_def)

lemma insert_text_failed [simp]:
  "failed out \<Longrightarrow> snd (insert_text st t out) = out"
  by (simp add: insert_text_def)

lemma diags_good:
  assumes "\<not> failed out" "proc n \<noteq> Inr []"
  shows "getProcessDiags st proc n out = (Inr (), out\<lparr>written := written out @ section_text proc n\<rparr>)"
  using assms
  by (auto simp: getProcessDiags_def seq_out_def insert_file_def section_text_def split: sum.split)

lemma diags_empty:
  assumes "\<not> failed out" "proc n = Inr []"
  shows "snd (getProcessDiags st proc n out) = out\<lparr>written := written out @ process_header n, failed := True\<rparr>"
    "is_ok (fst (getProcessDiags st proc n out)) \<longleftrightarrow> \<not> st"
  using assms
  by (simp_all add: getProcessDiags_def seq_out_def insert_file_def insert_text_def is_ok_def)

lemma diags_failed:
  assumes "failed out"
  shows "snd (getProcessDiags st proc n out) = out" "is_ok (fst (getProcessDiags st proc n out)) \<longleftrightarrow> \<not> st"
  using assms
  by (auto simp: getProcessDiags_def seq_out_def insert_file_def insert_text_def is_ok_def split: sum.split)

lemma write_failed:
  "failed out \<Longrightarrow> snd (write_process_diags st proc ns out) = out
     \<and> (is_ok (fst (write_process_diags st proc ns out)) \<longleftrightarrow> \<not> st \<or> ns = [])"
proof (induction ns)
  case (Cons n ns)
  note d = diags_failed [where out = out and st = st and proc = proc and n = n]
  obtain r out' where g: "getProcessDiags st proc n out = (r, out')" by fastforce
  show ?case using d g Cons by (cases r) (auto simp: seq_out_def is_ok_def)
qed simp

lemma write_sections:
  assumes "\<not> failed out"
  shows "written (snd (write_process_diags st proc ns out)) =
      written out @ concat (map (section_text proc) (readable_sections proc ns))
      @ (case dropWhile (\<lambda>n. proc n \<noteq> Inr []) ns of [] \<Rightarrow> [] | n # _ \<Rightarrow> process_header n)
    \<and> (is_ok (fst (write_process_diags st proc ns out)) \<longleftrightarrow> readable_sections proc ns = ns \<or> \<not> st)"
  using assms
proof (induction ns arbitrary: out)
  case (Cons n ns)
  show ?case
  proof (cases "proc n = Inr []")
    case False
    then show ?thesis
      using Cons.IH [of "out\<lparr>written := written out @ section_text proc n\<rparr>"] Cons.prems
      by (simp add: diags_good seq_out_def readable_sections_def)
  next
    case True
    obtain r out' where g: "getProcessDiags st proc n out = (r, out')" by fastforce
    with diags_empty [where out = out and proc = proc and n = n and st = st] Cons.prems True
    have "out' = out\<lparr>written := written out @ process_header n, failed := True\<rparr>" "is_ok r \<longleftrightarrow> \<not> st" by simp_all
    then show ?thesis
      using True g write_failed [of out' st proc ns]
      by (cases r) (auto simp: seq_out_def readable_sections_def is_ok_def)
  qed
qed (simp add: readable_sections_def is_ok_def)

text \<open>
  C40. The diagnostics file holds the general part and one section for each of the ten files of the
  process, in their order: its contents, or the reason why it cannot be opened. If one of these files
  is there but empty, the file ends with the heading of its section, whatever the library does, and
  the request is told of an error exactly if the library throws again.
\<close>

theorem diagnostics_are_complete_up_to_an_empty_file:
  "let (r, contents) = storeDiagnosticInformation st e None;
       sections = readable_sections (proc_dir e) process_sections
   in contents = Some (general_text e @ concat (map (section_text (proc_dir e)) sections)
          @ (case drop (length sections) process_sections of [] \<Rightarrow> [] | n # _ \<Rightarrow> process_header n))
      \<and> (\<not> is_ok r \<longleftrightarrow> sections \<noteq> process_sections \<and> st)"
proof -
  let ?ns = process_sections
  obtain r out where g: "getDiagnosticInformation st e \<lparr>written = [], failed = False\<rparr> = (r, out)" by fastforce
  have w: "getDiagnosticInformation st e \<lparr>written = [], failed = False\<rparr> =
      write_process_diags st (proc_dir e) ?ns \<lparr>written = general_text e, failed = False\<rparr>"
    by (simp add: getDiagnosticInformation_def seq_out_def)
  have "dropWhile P xs = drop (length (takeWhile P xs)) xs" for P and xs :: "string list"
    by (simp add: dropWhile_eq_drop)
  with write_sections [of "\<lparr>written = general_text e, failed = False\<rparr>" st "proc_dir e" ?ns]
  show ?thesis
    using g by (simp add: storeDiagnosticInformation_def w readable_sections_def)
qed

end
