(* ===== verification/ValueOwnership.thy ===== *)
theory ValueOwnership
  imports Zval "HOL-Library.Finite_Map" "HOL-Library.Multiset"
begin

section \<open>Ownership of PHP values\<close>

text \<open>
  The other theories treat values of PHP as immutable. Here is what keeps them alive: the
  reference counts of the engine and the constructors, assignments and destructors of
  \<open>AutoZval\<close> and \<open>AutoZendString\<close> (libphpbridge/code/AutoZval.h, AutoZendString.h). A store
  holds the counted values by address, the live wrapper objects by their address, and the slots
  that belong to the engine. The theorem says when the count of a value is right:
  no operation frees a value that is referenced, and none loses a reference but those
  listed in \<open>lost\<close>. PHP destructors of objects are not run here.
\<close>

subsection \<open>The store\<close>

datatype slot =
  Slot_Undef
| Slot_Null
| Slot_Long int
| Slot_Double double
| Counted nat

datatype contents =
  Zend_String string
| Zend_Array "(zkey \<times> slot) list" int
| Zend_Object "slot list"

record cell =
  refcount :: nat
  contents :: contents

record store =
  cells :: "(nat, cell) fmap"
  holders :: "(nat, slot) fmap"
  externs :: "(nat, slot) fmap"
  next_address :: nat

definition empty_store :: store where
  "empty_store = \<lparr>cells = fmempty, holders = fmempty, externs = fmempty, next_address = 0\<rparr>"

fun slot_refs :: "slot \<Rightarrow> nat list" where
  "slot_refs (Counted a) = [a]"
| "slot_refs _ = []"

fun contents_refs :: "contents \<Rightarrow> nat list" where
  "contents_refs (Zend_String _) = []"
| "contents_refs (Zend_Array es _) = concat (map (slot_refs \<circ> snd) es)"
| "contents_refs (Zend_Object ss) = concat (map slot_refs ss)"

subsection \<open>Counting\<close>

text \<open>
  \<open>zval_ptr_dtor\<close>: the count is decreased, and a value whose count reaches zero is freed
  after the values it refers to; those still to be released are kept in a list.
\<close>

function release_all :: "nat list \<Rightarrow> (nat, cell) fmap \<Rightarrow> (nat, cell) fmap result" where
  "release_all [] C = Inr C"
| "release_all (a # w) C =
     (case fmlookup C a of
        None \<Rightarrow> Inl (Undefined_Behaviour ''use after free'')
      | Some c \<Rightarrow>
          if refcount c \<le> 1 then release_all (contents_refs (contents c) @ w) (fmdrop a C)
          else release_all w (fmupd a (c\<lparr>refcount := refcount c - 1\<rparr>) C))"
  by pat_completeness auto
termination
proof (relation "measures [\<lambda>(w, C). card (fmdom' C), \<lambda>(w, C). length w]")
  fix a :: nat and w :: "nat list" and C :: "(nat, cell) fmap" and c :: cell
  assume c: "fmlookup C a = Some c"
  then have a: "a \<in> fmdom' C" by (simp add: fmdom'I)
  have "card (fmdom' (fmdrop a C)) < card (fmdom' C)"
    unfolding fmdom'_drop using a by (intro card_Diff1_less) simp_all
  then show "((contents_refs (contents c) @ w, fmdrop a C), (a # w, C))
    \<in> measures [\<lambda>(w, C). card (fmdom' C), \<lambda>(w, C). length w]" by simp
  have "fmdom' (fmupd a (c\<lparr>refcount := refcount c - 1\<rparr>) C) = fmdom' C" using a by auto
  then show "((w, fmupd a (c\<lparr>refcount := refcount c - 1\<rparr>) C), (a # w, C))
    \<in> measures [\<lambda>(w, C). card (fmdom' C), \<lambda>(w, C). length w]" by simp
qed simp

definition zval_ptr_dtor :: "slot \<Rightarrow> store \<Rightarrow> store result" where
  "zval_ptr_dtor s st =
     bind_result (release_all (slot_refs s) (cells st)) (\<lambda>C. Inr (st\<lparr>cells := C\<rparr>))"

text \<open>\<open>Z_TRY_ADDREF_P\<close>; \<open>ZVAL_COPY\<close> copies the slot and adds a reference.\<close>

definition add_reference :: "slot \<Rightarrow> store \<Rightarrow> store result" where
  "add_reference s st =
     (case s of
        Counted a \<Rightarrow>
          (case fmlookup (cells st) a of
             None \<Rightarrow> Inl (Undefined_Behaviour ''use after free'')
           | Some c \<Rightarrow> Inr (st\<lparr>cells := fmupd a (c\<lparr>refcount := refcount c + 1\<rparr>) (cells st)\<rparr>))
      | _ \<Rightarrow> Inr st)"

definition allocate :: "contents \<Rightarrow> store \<Rightarrow> slot \<times> store" where
  "allocate v st =
     (Counted (next_address st),
      st\<lparr>cells := fmupd (next_address st) \<lparr>refcount = 1, contents = v\<rparr> (cells st),
         next_address := next_address st + 1\<rparr>)"

subsection \<open>AutoZval\<close>

text \<open>A pointer to a value points into another wrapper or to a slot of the engine.\<close>

datatype location = Holder nat | Extern nat

fun read_slot :: "location \<Rightarrow> store \<Rightarrow> slot result" where
  "read_slot (Holder h) st =
     (case fmlookup (holders st) h of Some s \<Rightarrow> Inr s | None \<Rightarrow> Inl (Undefined_Behaviour ''dead object''))"
| "read_slot (Extern x) st =
     (case fmlookup (externs st) x of Some s \<Rightarrow> Inr s | None \<Rightarrow> Inl (Undefined_Behaviour ''dead slot''))"

definition write_holder :: "nat \<Rightarrow> slot \<Rightarrow> store \<Rightarrow> store" where
  "write_holder h s st = st\<lparr>holders := fmupd h s (holders st)\<rparr>"

definition AutoZval_default :: "nat \<Rightarrow> store \<Rightarrow> store" where
  "AutoZval_default h st = write_holder h Slot_Undef st"

definition AutoZval_from_pointer :: "nat \<Rightarrow> location option \<Rightarrow> store \<Rightarrow> store result" where
  "AutoZval_from_pointer h zv st =
     (case zv of
        None \<Rightarrow> Inr (write_holder h Slot_Null st)
      | Some p \<Rightarrow>
          bind_result (read_slot p st) (\<lambda>s.
          bind_result (add_reference s st) (\<lambda>st'.
            Inr (write_holder h s st'))))"

text \<open>The setters do not look at the old value.\<close>

definition setString :: "nat \<Rightarrow> string \<Rightarrow> store \<Rightarrow> store" where
  "setString h t st = (let (s, st') = allocate (Zend_String t) st in write_holder h s st')"

definition setLong :: "nat \<Rightarrow> int \<Rightarrow> store \<Rightarrow> store" where
  "setLong h n st = write_holder h (Slot_Long n) st"

definition setNull :: "nat \<Rightarrow> store \<Rightarrow> store" where
  "setNull h st = write_holder h Slot_Null st"

definition setDouble :: "nat \<Rightarrow> double \<Rightarrow> store \<Rightarrow> store" where
  "setDouble h d st = write_holder h (Slot_Double d) st"

text \<open>\<open>set\<close>, with the branch a boolean takes.\<close>

definition AutoZval_assign_value :: "nat \<Rightarrow> cpp_value \<Rightarrow> store \<Rightarrow> store" where
  "AutoZval_assign_value h v st =
     (case v of
        Cpp_Float d \<Rightarrow> setDouble h d st
      | Cpp_String t \<Rightarrow> setString h t st
      | Cpp_Nullptr \<Rightarrow> setNull h st
      | Cpp_Integer n \<Rightarrow> setLong h n st
      | Cpp_Bool b \<Rightarrow> setLong h (of_bool b) st)"

lemmas setter_defs = setString_def setLong_def setNull_def setDouble_def AutoZval_assign_value_def

text \<open>Copy assignment releases the old value before it looks at the other object.\<close>

definition AutoZval_copy_assign :: "nat \<Rightarrow> nat \<Rightarrow> store \<Rightarrow> store result" where
  "AutoZval_copy_assign h other st =
     bind_result (read_slot (Holder h) st) (\<lambda>old.
     bind_result (zval_ptr_dtor old st) (\<lambda>st1.
     bind_result (read_slot (Holder other) st1) (\<lambda>s.
     bind_result (add_reference s st1) (\<lambda>st2.
       Inr (write_holder h s st2)))))"

text \<open>The move constructor and the move assignment have the same body.\<close>

definition AutoZval_move :: "nat \<Rightarrow> nat \<Rightarrow> store \<Rightarrow> store result" where
  "AutoZval_move h other st =
     bind_result (read_slot (Holder other) st) (\<lambda>s.
       Inr (write_holder other Slot_Undef (write_holder h s st)))"

definition AutoZval_dtor :: "nat \<Rightarrow> store \<Rightarrow> store result" where
  "AutoZval_dtor h st =
     bind_result (read_slot (Holder h) st) (\<lambda>s.
     bind_result (zval_ptr_dtor s st) (\<lambda>st'.
       Inr (st'\<lparr>holders := fmdrop h (holders st')\<rparr>)))"

text \<open>
  \<open>nNextFreeElement\<close> of a new array is \<open>start\<close>: zero, or the least integer since PHP 8.3, where the
  first appended key is zero all the same. It is not bounded here.
\<close>

definition AutoZval_arrayInit :: "int \<Rightarrow> nat \<Rightarrow> store \<Rightarrow> store" where
  "AutoZval_arrayInit start h st = (let (s, st') = allocate (Zend_Array [] start) st in write_holder h s st')"

text \<open>The array a wrapper holds; the calls of the engine take anything else for an array.\<close>

definition array_of :: "nat \<Rightarrow> store \<Rightarrow> (nat \<times> (zkey \<times> slot) list \<times> int) result" where
  "array_of h st =
     (case fmlookup (holders st) h of
        Some (Counted a) \<Rightarrow>
          (case fmlookup (cells st) a of
             Some c \<Rightarrow>
               (case contents c of
                  Zend_Array es n \<Rightarrow> Inr (a, es, n)
                | _ \<Rightarrow> Inl (Undefined_Behaviour ''not an array''))
           | None \<Rightarrow> Inl (Undefined_Behaviour ''use after free''))
      | _ \<Rightarrow> Inl (Undefined_Behaviour ''not an array''))"

definition write_array :: "nat \<Rightarrow> (zkey \<times> slot) list \<Rightarrow> int \<Rightarrow> store \<Rightarrow> store" where
  "write_array a es n st =
     (case fmlookup (cells st) a of
        Some c \<Rightarrow> st\<lparr>cells := fmupd a (c\<lparr>contents := Zend_Array es n\<rparr>) (cells st)\<rparr>
      | None \<Rightarrow> st)"

definition AutoZval_arrayAddNextWithRef :: "nat \<Rightarrow> location \<Rightarrow> store \<Rightarrow> store result" where
  "AutoZval_arrayAddNextWithRef h val st =
     bind_result (read_slot val st) (\<lambda>s.
     bind_result (add_reference s st) (\<lambda>st1.
     bind_result (array_of h st1) (\<lambda>(a, es, n).
       let i = (if n = - (2 ^ 63) then 0 else n) in
       Inr (write_array a (es @ [(Int_Key i, s)]) (i + 1) st1))))"

text \<open>
  \<open>add_assoc_zval_ex\<close> turns decimal keys into integers (\<open>symtable_key\<close>, the engine's); an
  entry that exists is replaced and its old value released.
\<close>

fun replace_entry :: "zkey \<Rightarrow> slot \<Rightarrow> (zkey \<times> slot) list \<Rightarrow> slot \<times> (zkey \<times> slot) list" where
  "replace_entry k s [] = (Slot_Undef, [(k, s)])"
| "replace_entry k s ((k', s') # es) =
     (if k' = k then (s', (k, s) # es)
      else let (old, es') = replace_entry k s es in (old, (k', s') # es'))"

definition next_after :: "zkey \<Rightarrow> int \<Rightarrow> int" where
  "next_after k n = (case k of Int_Key i \<Rightarrow> if i \<ge> n then i + 1 else n | _ \<Rightarrow> n)"

definition AutoZval_arrayAddAssocWithRef ::
  "(string \<Rightarrow> zkey) \<Rightarrow> nat \<Rightarrow> string \<Rightarrow> location \<Rightarrow> store \<Rightarrow> store result" where
  "AutoZval_arrayAddAssocWithRef symtable_key h key val st =
     bind_result (read_slot val st) (\<lambda>s.
     bind_result (add_reference s st) (\<lambda>st1.
     bind_result (array_of h st1) (\<lambda>(a, es, n).
       let k = symtable_key key; (old, es') = replace_entry k s es in
       zval_ptr_dtor old (write_array a es' (next_after k n) st1))))"

subsection \<open>AutoZendString\<close>

text \<open>
  A wrapper made from a text allocates a string; one made from a pointer takes over the
  reference of its caller, here that of a slot of the engine.
\<close>

definition AutoZendString_from_text :: "nat \<Rightarrow> string \<Rightarrow> store \<Rightarrow> store" where
  "AutoZendString_from_text h t st =
     (let (s, st') = allocate (Zend_String t) st in write_holder h s st')"

definition AutoZendString_from_pointer :: "nat \<Rightarrow> nat \<Rightarrow> store \<Rightarrow> store result" where
  "AutoZendString_from_pointer h x st =
     bind_result (read_slot (Extern x) st) (\<lambda>s.
       Inr (write_holder h s (st\<lparr>externs := fmdrop x (externs st)\<rparr>)))"

subsection \<open>Sequences of operations\<close>

text \<open>
  The operations of the classes, and those by which the engine makes values of its own, shares
  and releases them.
\<close>

datatype operation =
  Default_Construct nat
| Construct_From_Pointer nat "location option"
| Construct_From_Value nat cpp_value
| Move_Construct nat nat
| Assign_Value nat cpp_value
| Copy_Assign nat nat
| Move_Assign nat nat
| Destroy nat
| Array_Init nat
| Add_Next nat location
| Add_Assoc nat string location
| String_From_Text nat string
| String_From_Pointer nat nat
| Engine_New nat contents
| Engine_Copy nat location
| Engine_Release nat

record array_engine =
  array_start :: int
  symtable_key :: "string \<Rightarrow> zkey"

fun exec :: "array_engine \<Rightarrow> operation \<Rightarrow> store \<Rightarrow> store result" where
  "exec e (Default_Construct h) st = Inr (AutoZval_default h st)"
| "exec e (Construct_From_Pointer h p) st = AutoZval_from_pointer h p st"
| "exec e (Construct_From_Value h v) st = Inr (AutoZval_assign_value h v st)"
| "exec e (Move_Construct h h') st = AutoZval_move h h' st"
| "exec e (Assign_Value h v) st = Inr (AutoZval_assign_value h v st)"
| "exec e (Copy_Assign h h') st = AutoZval_copy_assign h h' st"
| "exec e (Move_Assign h h') st = AutoZval_move h h' st"
| "exec e (Destroy h) st = AutoZval_dtor h st"
| "exec e (Array_Init h) st = Inr (AutoZval_arrayInit (array_start e) h st)"
| "exec e (Add_Next h p) st = AutoZval_arrayAddNextWithRef h p st"
| "exec e (Add_Assoc h k p) st = AutoZval_arrayAddAssocWithRef (symtable_key e) h k p st"
| "exec e (String_From_Text h t) st = Inr (AutoZendString_from_text h t st)"
| "exec e (String_From_Pointer h x) st = AutoZendString_from_pointer h x st"
| "exec e (Engine_New x v) st =
     (let (s, st') = allocate v st in Inr (st'\<lparr>externs := fmupd x s (externs st')\<rparr>))"
| "exec e (Engine_Copy x p) st =
     bind_result (read_slot p st) (\<lambda>s.
     bind_result (add_reference s st) (\<lambda>st'.
       Inr (st'\<lparr>externs := fmupd x s (externs st')\<rparr>)))"
| "exec e (Engine_Release x) st =
     bind_result (read_slot (Extern x) st) (\<lambda>s.
     bind_result (zval_ptr_dtor s st) (\<lambda>st'.
       Inr (st'\<lparr>externs := fmdrop x (externs st')\<rparr>)))"

fun exec_all :: "array_engine \<Rightarrow> operation list \<Rightarrow> store \<Rightarrow> store result" where
  "exec_all e [] st = Inr st"
| "exec_all e (op # ops) st = bind_result (exec e op st) (exec_all e ops)"

text \<open>
  What the language and the callers guarantee: constructors run on dead objects and everything
  else on live ones, elements are added to arrays, and no object is copied to itself.
\<close>

definition live :: "nat \<Rightarrow> store \<Rightarrow> bool" where
  "live h st = (fmlookup (holders st) h \<noteq> None)"

definition readable :: "location \<Rightarrow> store \<Rightarrow> bool" where
  "readable p st = is_ok (read_slot p st)"

fun legal :: "operation \<Rightarrow> store \<Rightarrow> bool" where
  "legal (Default_Construct h) st = (\<not> live h st)"
| "legal (Construct_From_Pointer h p) st = (\<not> live h st \<and> (case p of None \<Rightarrow> True | Some l \<Rightarrow> readable l st))"
| "legal (Construct_From_Value h v) st = (\<not> live h st)"
| "legal (Move_Construct h h') st = (\<not> live h st \<and> live h' st)"
| "legal (Assign_Value h v) st = live h st"
| "legal (Copy_Assign h h') st = (live h st \<and> live h' st \<and> h \<noteq> h')"
| "legal (Move_Assign h h') st = (live h st \<and> live h' st)"
| "legal (Destroy h) st = live h st"
| "legal (Array_Init h) st = live h st"
| "legal (Add_Next h p) st = (is_ok (array_of h st) \<and> readable p st)"
| "legal (Add_Assoc h k p) st = (is_ok (array_of h st) \<and> readable p st)"
| "legal (String_From_Text h t) st = (\<not> live h st)"
| "legal (String_From_Pointer h x) st = (\<not> live h st \<and> readable (Extern x) st)"
| "legal (Engine_New x v) st = (\<not> readable (Extern x) st \<and> contents_refs v = [])"
| "legal (Engine_Copy x p) st = (\<not> readable (Extern x) st \<and> readable p st)"
| "legal (Engine_Release x) st = readable (Extern x) st"

fun legal_run :: "array_engine \<Rightarrow> operation list \<Rightarrow> store \<Rightarrow> bool" where
  "legal_run e [] st = True"
| "legal_run e (op # ops) st =
     (legal op st \<and> (case exec e op st of Inl _ \<Rightarrow> True | Inr st' \<Rightarrow> legal_run e ops st'))"

text \<open>The references an operation overwrites without releasing them.\<close>

definition held :: "nat \<Rightarrow> store \<Rightarrow> nat multiset" where
  "held h st = (case fmlookup (holders st) h of Some s \<Rightarrow> mset (slot_refs s) | None \<Rightarrow> {#})"

fun lost :: "operation \<Rightarrow> store \<Rightarrow> nat multiset" where
  "lost (Assign_Value h v) st = held h st"
| "lost (Move_Assign h h') st = held h st"
| "lost (Array_Init h) st = held h st"
| "lost _ st = {#}"

fun lost_all :: "array_engine \<Rightarrow> operation list \<Rightarrow> store \<Rightarrow> nat multiset" where
  "lost_all e [] st = {#}"
| "lost_all e (op # ops) st =
     lost op st + (case exec e op st of Inl _ \<Rightarrow> {#} | Inr st' \<Rightarrow> lost_all e ops st')"

subsection \<open>Reference counts are right\<close>

definition total_refs :: "('v \<Rightarrow> nat list) \<Rightarrow> (nat, 'v) fmap \<Rightarrow> nat multiset" where
  "total_refs f m = (\<Sum>k \<in> fmdom' m. mset (f (the (fmlookup m k))))"

definition references :: "store \<Rightarrow> nat multiset" where
  "references st = total_refs slot_refs (holders st) + total_refs slot_refs (externs st)
     + total_refs (contents_refs \<circ> contents) (cells st)"

lemma total_refs_empty [simp]: "total_refs f fmempty = {#}"
  by (simp add: total_refs_def)

lemma finite_fmdom' [simp]: "finite (fmdom' m)"
  by (simp add: fmdom'_alt_def)

lemma total_refs_split:
  assumes "fmlookup m k = Some v"
  shows "total_refs f m = mset (f v) + total_refs f (fmdrop k m)"
proof -
  have "k \<in> fmdom' m" using assms by (simp add: fmdom'I)
  moreover have "(\<Sum>j \<in> fmdom' (fmdrop k m). mset (f (the (fmlookup (fmdrop k m) j))))
      = (\<Sum>j \<in> fmdom' m - {k}. mset (f (the (fmlookup m j))))"
    by (intro sum.cong) auto
  ultimately show ?thesis using assms by (simp add: total_refs_def sum.remove)
qed

lemma total_refs_upd: "total_refs f (fmupd k v m) = mset (f v) + total_refs f (fmdrop k m)"
proof -
  have "fmdrop k (fmupd k v m) = fmdrop k m" by (rule fmap_ext) simp
  then show ?thesis using total_refs_split [of "fmupd k v m" k v f] by simp
qed

lemma total_refs_same:
  "fmlookup m k = Some v \<Longrightarrow> f v' = f v \<Longrightarrow> total_refs f (fmupd k v' m) = total_refs f m"
  by (simp add: total_refs_upd total_refs_split)

lemma fmdrop_idle: "fmlookup m k = None \<Longrightarrow> fmdrop k m = m"
  by (rule fmap_ext) auto

text \<open>
  The cells are balanced for references from outside \<open>E\<close>: every count is the number of
  references, and what is referenced is there.
\<close>

definition balanced :: "(nat, cell) fmap \<Rightarrow> nat multiset \<Rightarrow> bool" where
  "balanced C E \<longleftrightarrow>
     (\<forall>a. case fmlookup C a of
        None \<Rightarrow> count (total_refs (contents_refs \<circ> contents) C + E) a = 0
      | Some c \<Rightarrow> 0 < refcount c \<and> refcount c = count (total_refs (contents_refs \<circ> contents) C + E) a)"

lemma balanced_lookup:
  assumes "balanced C E" "a \<in># E"
  obtains c where "fmlookup C a = Some c" "refcount c = count (total_refs (contents_refs \<circ> contents) C + E) a" "0 < refcount c"
proof -
  have "count (total_refs (contents_refs \<circ> contents) C + E) a \<noteq> 0"
    using assms(2) by (simp add: count_eq_zero_iff)
  then show ?thesis
    using assms(1) that by (cases "fmlookup C a") (auto simp: balanced_def split: option.splits dest: spec [of _ a])
qed

lemma balanced_release:
  "balanced C (mset w + E) \<Longrightarrow> \<exists>C'. release_all w C = Inr C' \<and> balanced C' E"
proof (induction w C rule: release_all.induct)
  case (1 C)
  then show ?case by simp
next
  case (2 a w C)
  let ?t = "total_refs (contents_refs \<circ> contents)"
  from 2(3) obtain c where c: "fmlookup C a = Some c"
    "refcount c = count (?t C + (mset (a # w) + E)) a" "0 < refcount c"
    by (rule balanced_lookup [where a = a]) auto
  show ?case
  proof (cases "refcount c \<le> 1")
    case True
    have drop: "?t C + (mset (a # w) + E) =
        ?t (fmdrop a C) + (mset (contents_refs (contents c) @ w) + E) + {#a#}"
      by (simp add: total_refs_split [OF c(1)])
    have "balanced (fmdrop a C) (mset (contents_refs (contents c) @ w) + E)"
      unfolding balanced_def
    proof
      fix b
      have "case fmlookup C b of
          None \<Rightarrow> count (?t C + (mset (a # w) + E)) b = 0
        | Some c \<Rightarrow> 0 < refcount c \<and> refcount c = count (?t C + (mset (a # w) + E)) b"
        using 2(3) unfolding balanced_def by blast
      then show "case fmlookup (fmdrop a C) b of
          None \<Rightarrow> count (?t (fmdrop a C) + (mset (contents_refs (contents c) @ w) + E)) b = 0
        | Some c' \<Rightarrow> 0 < refcount c' \<and>
            refcount c' = count (?t (fmdrop a C) + (mset (contents_refs (contents c) @ w) + E)) b"
        using c True unfolding drop by (cases "b = a") (auto split: option.splits)
    qed
    then show ?thesis using 2(1) [OF c(1) True] c(1) True by simp
  next
    case False
    let ?C = "fmupd a (c\<lparr>refcount := refcount c - 1\<rparr>) C"
    have same: "?t ?C = ?t C" using c(1) by (rule total_refs_same) simp
    have "balanced ?C (mset w + E)"
      unfolding balanced_def
    proof
      fix b
      have "case fmlookup C b of
          None \<Rightarrow> count (?t C + (mset (a # w) + E)) b = 0
        | Some c \<Rightarrow> 0 < refcount c \<and> refcount c = count (?t C + (mset (a # w) + E)) b"
        using 2(3) unfolding balanced_def by blast
      then show "case fmlookup ?C b of
          None \<Rightarrow> count (?t ?C + (mset w + E)) b = 0
        | Some c' \<Rightarrow> 0 < refcount c' \<and> refcount c' = count (?t ?C + (mset w + E)) b"
        using c False unfolding same by (cases "b = a") (auto split: option.splits)
    qed
    then show ?thesis using 2(2) [OF c(1) False] c(1) False by simp
  qed
qed

lemma release_all_dom: "release_all w C = Inr C' \<Longrightarrow> fmdom' C' \<subseteq> fmdom' C"
proof (induction w C arbitrary: C' rule: release_all.induct)
  case (2 a w C)
  then obtain c where c: "fmlookup C a = Some c" by (auto split: option.splits)
  then have "a \<in> fmdom' C" by (simp add: fmdom'I)
  then show ?case using 2 c by (cases "refcount c \<le> 1") fastforce+
qed simp

lemma balanced_update:
  assumes "balanced C E" "fmlookup C a = Some c"
    and "mset (contents_refs (contents c)) + E + add = mset (contents_refs (contents c')) + E'"
    and "refcount c' = refcount c + count add a" "\<And>b. b \<noteq> a \<Longrightarrow> count add b = 0"
  shows "balanced (fmupd a c' C) E'"
proof -
  let ?t = "total_refs (contents_refs \<circ> contents)"
  have eq: "?t (fmupd a c' C) + E' = ?t C + E + add"
    using assms(3) by (simp add: total_refs_upd total_refs_split [OF assms(2)] ac_simps)
  show ?thesis
    unfolding balanced_def eq
  proof
    fix b
    have "case fmlookup C b of
        None \<Rightarrow> count (?t C + E) b = 0
      | Some c \<Rightarrow> 0 < refcount c \<and> refcount c = count (?t C + E) b"
      using assms(1) unfolding balanced_def by blast
    then show "case fmlookup (fmupd a c' C) b of
        None \<Rightarrow> count (?t C + E + add) b = 0
      | Some c' \<Rightarrow> 0 < refcount c' \<and> refcount c' = count (?t C + E + add) b"
      using assms(2,4,5) by (cases "b = a") (auto split: option.splits)
  qed
qed

lemma balanced_contents:
  assumes "balanced C E" "fmlookup C a = Some c"
    and "mset (contents_refs (contents c)) + E = mset (contents_refs v) + E'"
  shows "balanced (fmupd a (c\<lparr>contents := v\<rparr>) C) E'"
  using assms by (intro balanced_update [where add = "{#}", OF assms(1,2)]) simp_all

lemma balanced_fresh:
  assumes "balanced C E" "fmlookup C a = None" "contents_refs v = []"
  shows "balanced (fmupd a \<lparr>refcount = 1, contents = v\<rparr> C) (E + {#a#})"
proof -
  let ?t = "total_refs (contents_refs \<circ> contents)"
  have eq: "?t (fmupd a \<lparr>refcount = 1, contents = v\<rparr> C) = ?t C"
    using assms(2,3) by (simp add: total_refs_upd fmdrop_idle)
  show ?thesis
    unfolding balanced_def eq
  proof
    fix b
    have "case fmlookup C b of
        None \<Rightarrow> count (?t C + E) b = 0
      | Some c \<Rightarrow> 0 < refcount c \<and> refcount c = count (?t C + E) b"
      using assms(1) unfolding balanced_def by blast
    then show "case fmlookup (fmupd a \<lparr>refcount = 1, contents = v\<rparr> C) b of
        None \<Rightarrow> count (?t C + (E + {#a#})) b = 0
      | Some c' \<Rightarrow> 0 < refcount c' \<and> refcount c' = count (?t C + (E + {#a#})) b"
      using assms(2) by (cases "b = a") (auto split: option.splits)
  qed
qed

subsection \<open>Every operation keeps the balance\<close>

definition roots :: "store \<Rightarrow> nat multiset" where
  "roots st = total_refs slot_refs (holders st) + total_refs slot_refs (externs st)"

definition store_ok :: "store \<Rightarrow> nat multiset \<Rightarrow> bool" where
  "store_ok st L \<longleftrightarrow> balanced (cells st) (roots st + L) \<and> (\<forall>a \<in> fmdom' (cells st). a < next_address st)"

lemma references_roots: "references st = roots st + total_refs (contents_refs \<circ> contents) (cells st)"
  by (simp add: references_def roots_def)

text \<open>What the two primitives do to cells that are balanced.\<close>

lemma dtor_ok:
  assumes "balanced (cells st) (mset (slot_refs s) + E)"
  obtains C where "zval_ptr_dtor s st = Inr (st\<lparr>cells := C\<rparr>)" "balanced C E" "fmdom' C \<subseteq> fmdom' (cells st)"
  using balanced_release [OF assms] release_all_dom by (auto simp: zval_ptr_dtor_def)

lemma add_reference_ok:
  assumes "balanced (cells st) E" "set (slot_refs s) \<subseteq> set_mset E"
  obtains C where "add_reference s st = Inr (st\<lparr>cells := C\<rparr>)" "balanced C (mset (slot_refs s) + E)"
    "fmdom' C = fmdom' (cells st)"
    "\<And>a. map_option contents (fmlookup C a) = map_option contents (fmlookup (cells st) a)"
proof (cases s)
  case (Counted a)
  from assms Counted obtain c where c: "fmlookup (cells st) a = Some c"
    by (auto elim: balanced_lookup [where a = a])
  let ?C = "fmupd a (c\<lparr>refcount := refcount c + 1\<rparr>) (cells st)"
  have "balanced ?C (mset (slot_refs s) + E)"
    using assms(1) c by (rule balanced_update [where add = "{#a#}"]) (simp_all add: Counted)
  moreover have "fmdom' ?C = fmdom' (cells st)" using c by (auto simp: fmdom'I)
  moreover have "add_reference s st = Inr (st\<lparr>cells := ?C\<rparr>)" using c by (simp add: add_reference_def Counted)
  moreover have "map_option contents (fmlookup ?C b) = map_option contents (fmlookup (cells st) b)" for b
    using c by (cases "a = b") simp_all
  ultimately show ?thesis using that by blast
next
  case Slot_Undef
  then show ?thesis using that [of "cells st"] assms(1) by (simp add: add_reference_def)
next
  case Slot_Null
  then show ?thesis using that [of "cells st"] assms(1) by (simp add: add_reference_def)
next
  case (Slot_Long n)
  then show ?thesis using that [of "cells st"] assms(1) by (simp add: add_reference_def)
next
  case (Slot_Double d)
  then show ?thesis using that [of "cells st"] assms(1) by (simp add: add_reference_def)
qed

lemma allocate_ok:
  assumes "store_ok st L" "contents_refs v = []" "allocate v st = (s, st')"
  shows "balanced (cells st') (roots st + L + mset (slot_refs s))"
    "holders st' = holders st" "externs st' = externs st"
    "\<forall>a \<in> fmdom' (cells st'). a < next_address st'"
proof -
  have fresh: "fmlookup (cells st) (next_address st) = None"
    using assms(1) by (metis store_ok_def fmdom'I less_irrefl not_Some_eq)
  have "balanced (cells st) (roots st + L)" using assms(1) by (simp add: store_ok_def)
  from balanced_fresh [OF this fresh assms(2)] assms(1,3)
  show "balanced (cells st') (roots st + L + mset (slot_refs s))"
    "holders st' = holders st" "externs st' = externs st"
    "\<forall>a \<in> fmdom' (cells st'). a < next_address st'"
    by (auto simp: allocate_def store_ok_def less_Suc_eq)
qed

lemma roots_write:
  "roots (write_holder h s st) + held h st = roots st + mset (slot_refs s)"
proof (cases "fmlookup (holders st) h")
  case None
  then show ?thesis by (simp add: roots_def write_holder_def held_def total_refs_upd fmdrop_idle)
next
  case (Some old)
  then show ?thesis
    by (simp add: roots_def write_holder_def held_def total_refs_upd total_refs_split [OF Some])
qed

lemma read_slot_roots:
  assumes "read_slot p st = Inr s"
  shows "set (slot_refs s) \<subseteq> set_mset (roots st)"
proof (cases p)
  case (Holder h)
  with assms have "fmlookup (holders st) h = Some s" by (simp split: option.splits)
  from total_refs_split [OF this, of slot_refs] show ?thesis by (auto simp: roots_def)
next
  case (Extern x)
  with assms have "fmlookup (externs st) x = Some s" by (simp split: option.splits)
  from total_refs_split [OF this, of slot_refs] show ?thesis by (auto simp: roots_def)
qed

lemma readable_slot: "readable p st \<Longrightarrow> \<exists>s. read_slot p st = Inr s"
  by (cases "read_slot p st") (simp_all add: readable_def)

lemma live_readable [simp]: "readable (Holder h) st \<longleftrightarrow> live h st"
  by (simp add: readable_def live_def split: option.split)

lemma held_dead [simp]: "\<not> live h st \<Longrightarrow> held h st = {#}"
  by (simp add: held_def live_def)

lemma held_read: "read_slot (Holder h) st = Inr s \<Longrightarrow> held h st = mset (slot_refs s)"
  by (simp add: held_def split: option.splits)

lemma write_ok:
  assumes "balanced (cells st) (roots st + L + mset (slot_refs s))" "\<forall>a \<in> fmdom' (cells st). a < next_address st"
  shows "store_ok (write_holder h s st) (L + held h st)"
proof -
  have eq: "roots (write_holder h s st) + (L + held h st) = roots st + L + mset (slot_refs s)"
    using roots_write [of h s st] by (metis add.assoc add.commute)
  show ?thesis unfolding store_ok_def eq using assms by (simp add: write_holder_def)
qed

lemma write_plain_ok:
  "store_ok st L \<Longrightarrow> slot_refs s = [] \<Longrightarrow> store_ok (write_holder h s st) (L + held h st)"
  by (rule write_ok) (simp_all add: store_ok_def)

lemma allocate_write_ok:
  assumes "store_ok st L" "contents_refs v = []"
  shows "store_ok (let (s, st') = allocate v st in write_holder h s st') (L + held h st)"
proof -
  obtain s st' where a: "allocate v st = (s, st')" by (cases "allocate v st")
  note ok = allocate_ok [OF assms a]
  have "roots st' = roots st" "held h st' = held h st" using ok(2,3) by (simp_all add: roots_def held_def)
  then show ?thesis using write_ok [of st' L s h] ok(1,4) a by simp
qed

lemma assign_ok: "store_ok st L \<Longrightarrow> store_ok (AutoZval_assign_value h v st) (L + held h st)"
  unfolding setter_defs
  by (cases v) (simp_all add: write_plain_ok allocate_write_ok [unfolded Let_def])

lemma copy_ok:
  assumes "store_ok st L" "read_slot p st = Inr s"
  obtains C where "add_reference s st = Inr (st\<lparr>cells := C\<rparr>)" "balanced C (roots st + L + mset (slot_refs s))"
    "fmdom' C = fmdom' (cells st)"
    "\<And>a. map_option contents (fmlookup C a) = map_option contents (fmlookup (cells st) a)"
proof -
  have "balanced (cells st) (roots st + L)" using assms(1) by (simp add: store_ok_def)
  moreover have "set (slot_refs s) \<subseteq> set_mset (roots st + L)" using read_slot_roots [OF assms(2)] by auto
  ultimately obtain C where "add_reference s st = Inr (st\<lparr>cells := C\<rparr>)"
    "balanced C (mset (slot_refs s) + (roots st + L))" "fmdom' C = fmdom' (cells st)"
    "\<And>a. map_option contents (fmlookup C a) = map_option contents (fmlookup (cells st) a)"
    by (rule add_reference_ok) blast
  then show ?thesis using that by (simp add: add.commute)
qed

lemma roots_cells [simp]: "roots (st\<lparr>cells := C\<rparr>) = roots st" "held h (st\<lparr>cells := C\<rparr>) = held h st"
  by (simp_all add: roots_def held_def)

lemma from_pointer_ok:
  assumes "store_ok st L" "\<not> live h st" "case p of None \<Rightarrow> True | Some l \<Rightarrow> readable l st"
  shows "\<exists>st'. AutoZval_from_pointer h p st = Inr st' \<and> store_ok st' L"
proof (cases p)
  case None
  then show ?thesis using write_plain_ok [OF assms(1), of Slot_Null h] assms(2) by (simp add: AutoZval_from_pointer_def)
next
  case (Some l)
  then obtain s where s: "read_slot l st = Inr s" using assms(3) readable_slot by auto
  obtain C where C: "add_reference s st = Inr (st\<lparr>cells := C\<rparr>)" "balanced C (roots st + L + mset (slot_refs s))"
    "fmdom' C = fmdom' (cells st)" by (rule copy_ok [OF assms(1) s])
  show ?thesis
    using write_ok [of "st\<lparr>cells := C\<rparr>" L s h] C assms(1,2) Some s
    by (simp add: AutoZval_from_pointer_def store_ok_def)
qed

lemma move_ok:
  assumes "store_ok st L" "live h' st"
  shows "\<exists>st'. AutoZval_move h h' st = Inr st' \<and> store_ok st' (L + held h st)"
proof -
  obtain s where s: "read_slot (Holder h') st = Inr s" using assms(2) readable_slot live_readable by blast
  let ?st = "write_holder h s st"
  have "held h' ?st = mset (slot_refs s)"
    using s by (cases "h = h'") (simp_all add: held_def write_holder_def split: option.splits)
  then have "roots ?st = roots (write_holder h' Slot_Undef ?st) + mset (slot_refs s)"
    using roots_write [of h' Slot_Undef ?st] by simp
  with roots_write [of h s st]
  have "(roots (write_holder h' Slot_Undef ?st) + held h st) + mset (slot_refs s) = roots st + mset (slot_refs s)"
    by (metis add.assoc add.commute)
  then have "roots (write_holder h' Slot_Undef ?st) + held h st = roots st" by simp
  then have eq: "roots (write_holder h' Slot_Undef ?st) + (L + held h st) = roots st + L"
    by (metis add.assoc add.commute)
  have "store_ok (write_holder h' Slot_Undef ?st) (L + held h st)"
    unfolding store_ok_def eq using assms(1) by (simp add: store_ok_def write_holder_def)
  then show ?thesis using s by (simp add: AutoZval_move_def)
qed

lemma release_holder:
  assumes "store_ok st L" "read_slot (Holder h) st = Inr s"
  obtains C where "zval_ptr_dtor s st = Inr (st\<lparr>cells := C\<rparr>)" "fmdom' C \<subseteq> fmdom' (cells st)"
    "balanced C (total_refs slot_refs (fmdrop h (holders st)) + total_refs slot_refs (externs st) + L)"
proof -
  have h: "fmlookup (holders st) h = Some s" using assms(2) by (simp split: option.splits)
  have "balanced (cells st) (mset (slot_refs s)
      + (total_refs slot_refs (fmdrop h (holders st)) + total_refs slot_refs (externs st) + L))"
    using assms(1) by (simp add: store_ok_def roots_def total_refs_split [OF h] ac_simps)
  then show ?thesis using that by (rule dtor_ok)
qed

lemma destroy_ok:
  assumes "store_ok st L" "live h st"
  shows "\<exists>st'. AutoZval_dtor h st = Inr st' \<and> store_ok st' L"
proof -
  obtain s where s: "read_slot (Holder h) st = Inr s" using assms(2) readable_slot live_readable by blast
  obtain C where C: "zval_ptr_dtor s st = Inr (st\<lparr>cells := C\<rparr>)" "fmdom' C \<subseteq> fmdom' (cells st)"
    "balanced C (total_refs slot_refs (fmdrop h (holders st)) + total_refs slot_refs (externs st) + L)"
    by (rule release_holder [OF assms(1) s])
  then have "store_ok (st\<lparr>cells := C, holders := fmdrop h (holders st)\<rparr>) L"
    using assms(1) by (auto simp: store_ok_def roots_def)
  then show ?thesis using s C(1) by (simp add: AutoZval_dtor_def)
qed

lemma copy_assign_ok:
  assumes "store_ok st L" "live h st" "live h' st" "h \<noteq> h'"
  shows "\<exists>st'. AutoZval_copy_assign h h' st = Inr st' \<and> store_ok st' L"
proof -
  obtain old where old: "read_slot (Holder h) st = Inr old" using assms(2) readable_slot live_readable by blast
  obtain s where s: "read_slot (Holder h') st = Inr s" using assms(3) readable_slot live_readable by blast
  let ?rest = "total_refs slot_refs (fmdrop h (holders st)) + total_refs slot_refs (externs st)"
  obtain C where C: "zval_ptr_dtor old st = Inr (st\<lparr>cells := C\<rparr>)" "fmdom' C \<subseteq> fmdom' (cells st)"
    "balanced C (?rest + L)" by (rule release_holder [OF assms(1) old])
  have "fmlookup (fmdrop h (holders st)) h' = Some s" using s assms(4) by (simp split: option.splits)
  from total_refs_split [OF this, of slot_refs] have "set (slot_refs s) \<subseteq> set_mset (?rest + L)" by auto
  moreover have "balanced (cells (st\<lparr>cells := C\<rparr>)) (?rest + L)" using C(3) by simp
  ultimately obtain C' where C': "add_reference s (st\<lparr>cells := C\<rparr>) = Inr (st\<lparr>cells := C\<rparr>\<lparr>cells := C'\<rparr>)"
    "balanced C' (mset (slot_refs s) + (?rest + L))" "fmdom' C' = fmdom' (cells (st\<lparr>cells := C\<rparr>))"
    using add_reference_ok by metis
  have "store_ok (write_holder h s (st\<lparr>cells := C'\<rparr>)) L"
    using C' C(2) assms(1) by (auto simp: store_ok_def write_holder_def roots_def total_refs_upd ac_simps)
  then show ?thesis using old s C(1) C'(1) by (simp add: AutoZval_copy_assign_def del: read_slot.simps) (simp split: option.splits)
qed

lemma array_of_cells:
  assumes "\<And>a. map_option contents (fmlookup C a) = map_option contents (fmlookup (cells st) a)"
  shows "array_of h (st\<lparr>cells := C\<rparr>) = array_of h st"
proof (cases "fmlookup (holders st) h")
  case (Some s)
  then show ?thesis
  proof (cases s)
    case (Counted a)
    then show ?thesis using Some assms [of a]
      by (cases "fmlookup C a"; cases "fmlookup (cells st) a") (simp_all add: array_of_def)
  qed (simp_all add: array_of_def Some)
qed (simp add: array_of_def)

lemma array_of_cell:
  assumes "array_of h st = Inr (a, es, n)"
  obtains c where "fmlookup (cells st) a = Some c" "contents c = Zend_Array es n"
  using assms by (auto simp: array_of_def split: option.splits slot.splits contents.splits)

lemma write_array_ok:
  assumes "balanced (cells st) E" "array_of h st = Inr (a, es, n)"
    and "mset (contents_refs (Zend_Array es n)) + E = mset (contents_refs (Zend_Array es' n')) + E'"
  obtains C where "write_array a es' n' st = st\<lparr>cells := C\<rparr>" "balanced C E'" "fmdom' C = fmdom' (cells st)"
proof -
  obtain c where c: "fmlookup (cells st) a = Some c" "contents c = Zend_Array es n"
    using assms(2) by (rule array_of_cell)
  let ?C = "fmupd a (c\<lparr>contents := Zend_Array es' n'\<rparr>) (cells st)"
  have "balanced ?C E'" using assms(1) c(1) by (rule balanced_contents) (simp only: c(2) assms(3))
  moreover have "fmdom' ?C = fmdom' (cells st)" using c(1) by (auto simp: fmdom'I)
  moreover have "write_array a es' n' st = st\<lparr>cells := ?C\<rparr>" using c(1) by (simp add: write_array_def)
  ultimately show ?thesis using that by blast
qed

lemma replace_entry_refs:
  "replace_entry k s es = (old, es') \<Longrightarrow>
     mset (slot_refs s) + mset (contents_refs (Zend_Array es n)) =
       mset (contents_refs (Zend_Array es' n')) + mset (slot_refs old)"
proof (induction k s es arbitrary: es' rule: replace_entry.induct)
  case (2 k s k' s' es)
  then show ?case by (auto split: if_splits prod.splits)
qed auto

text \<open>What the two operations that add an element have in common: the element is referenced once more.\<close>

lemma element_ok:
  assumes "store_ok st L" "is_ok (array_of h st)" "readable p st"
  obtains s C a es n where "read_slot p st = Inr s" "add_reference s st = Inr (st\<lparr>cells := C\<rparr>)"
    "balanced C (roots st + L + mset (slot_refs s))" "fmdom' C = fmdom' (cells st)"
    "array_of h (st\<lparr>cells := C\<rparr>) = Inr (a, es, n)"
proof -
  obtain s where s: "read_slot p st = Inr s" using readable_slot [OF assms(3)] by blast
  obtain C where C: "add_reference s st = Inr (st\<lparr>cells := C\<rparr>)" "balanced C (roots st + L + mset (slot_refs s))"
    "fmdom' C = fmdom' (cells st)"
    "\<And>a. map_option contents (fmlookup C a) = map_option contents (fmlookup (cells st) a)"
    by (rule copy_ok [OF assms(1) s]) blast
  obtain a es n where "array_of h st = Inr (a, es, n)"
    using assms(2) by (cases "array_of h st") (auto simp: is_ok_def)
  then show ?thesis using that s C array_of_cells [OF C(4), of h] by simp
qed

lemma add_next_ok:
  assumes "store_ok st L" "is_ok (array_of h st)" "readable p st"
  shows "\<exists>st'. AutoZval_arrayAddNextWithRef h p st = Inr st' \<and> store_ok st' L"
proof -
  obtain s C a es n where e: "read_slot p st = Inr s" "add_reference s st = Inr (st\<lparr>cells := C\<rparr>)"
    "balanced C (roots st + L + mset (slot_refs s))" "fmdom' C = fmdom' (cells st)"
    "array_of h (st\<lparr>cells := C\<rparr>) = Inr (a, es, n)"
    by (rule element_ok [OF assms])
  define i where "i = (if n = - (2 ^ 63) then 0 else n)"
  have refs: "mset (contents_refs (Zend_Array es n)) + (roots st + L + mset (slot_refs s)) =
      mset (contents_refs (Zend_Array (es @ [(Int_Key i, s)]) (i + 1))) + (roots st + L)"
    by (simp add: ac_simps)
  have "balanced (cells (st\<lparr>cells := C\<rparr>)) (roots st + L + mset (slot_refs s))" using e(3) by simp
  from this e(5) refs obtain C' where C': "write_array a (es @ [(Int_Key i, s)]) (i + 1) (st\<lparr>cells := C\<rparr>) = st\<lparr>cells := C\<rparr>\<lparr>cells := C'\<rparr>"
    "balanced C' (roots st + L)" "fmdom' C' = fmdom' (cells (st\<lparr>cells := C\<rparr>))"
    by (rule write_array_ok)
  then have "store_ok (st\<lparr>cells := C'\<rparr>) L" using assms(1) e(4) by (simp add: store_ok_def)
  then show ?thesis using e(1,2,5) C'(1) by (simp add: AutoZval_arrayAddNextWithRef_def Let_def i_def)
qed

lemma add_assoc_ok:
  assumes "store_ok st L" "is_ok (array_of h st)" "readable p st"
  shows "\<exists>st'. AutoZval_arrayAddAssocWithRef sk h key p st = Inr st' \<and> store_ok st' L"
proof -
  obtain s C a es n where e: "read_slot p st = Inr s" "add_reference s st = Inr (st\<lparr>cells := C\<rparr>)"
    "balanced C (roots st + L + mset (slot_refs s))" "fmdom' C = fmdom' (cells st)"
    "array_of h (st\<lparr>cells := C\<rparr>) = Inr (a, es, n)"
    by (rule element_ok [OF assms])
  obtain old es' where r: "replace_entry (sk key) s es = (old, es')" by (cases "replace_entry (sk key) s es")
  have refs: "mset (contents_refs (Zend_Array es n)) + (roots st + L + mset (slot_refs s)) =
      mset (contents_refs (Zend_Array es' (next_after (sk key) n))) + (mset (slot_refs old) + (roots st + L))"
    using replace_entry_refs [OF r, of n "next_after (sk key) n"] by (metis add.assoc add.commute)
  have "balanced (cells (st\<lparr>cells := C\<rparr>)) (roots st + L + mset (slot_refs s))" using e(3) by simp
  from this e(5) refs obtain C' where C': "write_array a es' (next_after (sk key) n) (st\<lparr>cells := C\<rparr>) = st\<lparr>cells := C\<rparr>\<lparr>cells := C'\<rparr>"
    "balanced C' (mset (slot_refs old) + (roots st + L))" "fmdom' C' = fmdom' (cells (st\<lparr>cells := C\<rparr>))"
    by (rule write_array_ok)
  have "balanced (cells (st\<lparr>cells := C'\<rparr>)) (mset (slot_refs old) + (roots st + L))" using C'(2) by simp
  then obtain C2 where C2: "zval_ptr_dtor old (st\<lparr>cells := C'\<rparr>) = Inr (st\<lparr>cells := C'\<rparr>\<lparr>cells := C2\<rparr>)"
    "balanced C2 (roots st + L)" "fmdom' C2 \<subseteq> fmdom' (cells (st\<lparr>cells := C'\<rparr>))"
    by (rule dtor_ok)
  then have "store_ok (st\<lparr>cells := C2\<rparr>) L" using assms(1) e(4) C'(3) by (auto simp: store_ok_def)
  then show ?thesis using e(1,2,5) C'(1) C2(1) r by (simp add: AutoZval_arrayAddAssocWithRef_def Let_def)
qed

text \<open>The slots of the engine.\<close>

lemma roots_extern_new:
  assumes "fmlookup (externs st) x = None"
  shows "roots (st\<lparr>externs := fmupd x s (externs st)\<rparr>) = roots st + mset (slot_refs s)"
  using assms by (simp add: roots_def total_refs_upd fmdrop_idle)

lemma extern_unreadable: "\<not> readable (Extern x) st \<Longrightarrow> fmlookup (externs st) x = None"
  by (simp add: readable_def split: option.splits)

lemma engine_new_ok:
  assumes "store_ok st L" "contents_refs v = []" "\<not> readable (Extern x) st"
  shows "\<exists>st'. exec e (Engine_New x v) st = Inr st' \<and> store_ok st' L"
proof -
  obtain s st' where a: "allocate v st = (s, st')" by (cases "allocate v st")
  note ok = allocate_ok [OF assms(1,2) a]
  have "roots st' = roots st" using ok(2,3) by (simp add: roots_def)
  moreover have "fmlookup (externs st') x = None" using ok(3) extern_unreadable [OF assms(3)] by simp
  ultimately have eq: "roots (st'\<lparr>externs := fmupd x s (externs st')\<rparr>) + L = roots st + L + mset (slot_refs s)"
    using roots_extern_new by (metis add.assoc add.commute)
  have "store_ok (st'\<lparr>externs := fmupd x s (externs st')\<rparr>) L"
    unfolding store_ok_def eq using ok(1,4) by simp
  then show ?thesis using a by simp
qed

lemma engine_copy_ok:
  assumes "store_ok st L" "\<not> readable (Extern x) st" "readable p st"
  shows "\<exists>st'. exec e (Engine_Copy x p) st = Inr st' \<and> store_ok st' L"
proof -
  obtain s where s: "read_slot p st = Inr s" using readable_slot [OF assms(3)] by blast
  obtain C where C: "add_reference s st = Inr (st\<lparr>cells := C\<rparr>)" "balanced C (roots st + L + mset (slot_refs s))"
    "fmdom' C = fmdom' (cells st)" by (rule copy_ok [OF assms(1) s])
  have eq: "roots (st\<lparr>cells := C\<rparr>\<lparr>externs := fmupd x s (externs st)\<rparr>) + L = roots st + L + mset (slot_refs s)"
    using roots_extern_new [of "st\<lparr>cells := C\<rparr>" x s] extern_unreadable [OF assms(2)] by (simp add: ac_simps)
  have "store_ok (st\<lparr>cells := C\<rparr>\<lparr>externs := fmupd x s (externs st)\<rparr>) L"
    unfolding store_ok_def eq using assms(1) C(2,3) by (simp add: store_ok_def)
  then show ?thesis using s C(1) by simp
qed

lemma engine_release_ok:
  assumes "store_ok st L" "readable (Extern x) st"
  shows "\<exists>st'. exec e (Engine_Release x) st = Inr st' \<and> store_ok st' L"
proof -
  obtain s where s: "read_slot (Extern x) st = Inr s" using readable_slot [OF assms(2)] by blast
  then have x: "fmlookup (externs st) x = Some s" by (simp split: option.splits)
  let ?rest = "total_refs slot_refs (holders st) + total_refs slot_refs (fmdrop x (externs st)) + L"
  have "balanced (cells st) (mset (slot_refs s) + ?rest)"
    using assms(1) by (simp add: store_ok_def roots_def total_refs_split [OF x] ac_simps)
  then obtain C where C: "zval_ptr_dtor s st = Inr (st\<lparr>cells := C\<rparr>)" "balanced C ?rest"
    "fmdom' C \<subseteq> fmdom' (cells st)" by (rule dtor_ok)
  then have "store_ok (st\<lparr>cells := C, externs := fmdrop x (externs st)\<rparr>) L"
    using assms(1) by (auto simp: store_ok_def roots_def)
  then show ?thesis using s C(1) by simp
qed

lemma string_from_pointer_ok:
  assumes "store_ok st L" "\<not> live h st" "readable (Extern x) st"
  shows "\<exists>st'. AutoZendString_from_pointer h x st = Inr st' \<and> store_ok st' L"
proof -
  obtain s where s: "read_slot (Extern x) st = Inr s" using readable_slot [OF assms(3)] by blast
  then have x: "fmlookup (externs st) x = Some s" by (simp split: option.splits)
  let ?st = "st\<lparr>externs := fmdrop x (externs st)\<rparr>"
  have "roots ?st + mset (slot_refs s) = roots st" by (simp add: roots_def total_refs_split [OF x] ac_simps)
  then have "balanced (cells ?st) (roots ?st + L + mset (slot_refs s))"
    using assms(1) by (metis add.assoc add.commute store_ok_def store.simps(1) store.ext_inject store.update_convs(3) store.surjective)
  then have "store_ok (write_holder h s ?st) (L + held h ?st)"
    using assms(1) by (intro write_ok) (simp_all add: store_ok_def)
  then show ?thesis using s assms(2) by (simp add: AutoZendString_from_pointer_def held_def live_def)
qed

lemma exec_ok:
  assumes "legal op st" "store_ok st L"
  shows "\<exists>st'. exec e op st = Inr st' \<and> store_ok st' (L + lost op st)"
proof (cases op)
  case (Default_Construct h)
  then show ?thesis using assms write_plain_ok [of st L Slot_Undef h] by (simp add: AutoZval_default_def)
next
  case (Construct_From_Pointer h p)
  then show ?thesis using assms from_pointer_ok [of st L h p] by simp
next
  case (Construct_From_Value h v)
  then show ?thesis using assms assign_ok [of st L h v] by simp
next
  case (Move_Construct h h')
  then show ?thesis using assms move_ok [of st L h' h] by simp
next
  case (Assign_Value h v)
  then show ?thesis using assms assign_ok [of st L h v] by simp
next
  case (Copy_Assign h h')
  then show ?thesis using assms copy_assign_ok [of st L h h'] by simp
next
  case (Move_Assign h h')
  then show ?thesis using assms move_ok [of st L h' h] by simp
next
  case (Destroy h)
  then show ?thesis using assms destroy_ok [of st L h] by simp
next
  case (Array_Init h)
  then show ?thesis
    using assms allocate_write_ok [of st L "Zend_Array [] (array_start e)" h] by (simp add: AutoZval_arrayInit_def)
next
  case (Add_Next h p)
  then show ?thesis using assms add_next_ok [of st L h p] by simp
next
  case (Add_Assoc h k p)
  then show ?thesis using assms add_assoc_ok [of st L h p] by simp
next
  case (String_From_Text h t)
  then show ?thesis
    using assms allocate_write_ok [of st L "Zend_String t" h] by (simp add: AutoZendString_from_text_def)
next
  case (String_From_Pointer h x)
  then show ?thesis using assms string_from_pointer_ok [of st L h x] by simp
next
  case (Engine_New x v)
  then show ?thesis using assms engine_new_ok [of st L v x e] by simp
next
  case (Engine_Copy x p)
  then show ?thesis using assms engine_copy_ok [of st L x p e] by simp
next
  case (Engine_Release x)
  then show ?thesis using assms engine_release_ok [of st L x e] by simp
qed

lemma exec_all_ok:
  "legal_run e ops st \<Longrightarrow> store_ok st L \<Longrightarrow>
     \<exists>st'. exec_all e ops st = Inr st' \<and> store_ok st' (L + lost_all e ops st)"
proof (induction ops arbitrary: st L)
  case (Cons op ops)
  then obtain st' where s: "exec e op st = Inr st'" "store_ok st' (L + lost op st)"
    using exec_ok [of op st L e] by auto
  with Cons.IH [of st' "L + lost op st"] Cons.prems show ?case by (auto simp: ac_simps)
qed simp

lemma empty_store_ok: "store_ok empty_store {#}"
  by (simp add: store_ok_def balanced_def empty_store_def roots_def)



text \<open>
  Move assignment does not release what the target holds: after all wrappers are gone the
  string is still there. An object that is copied to itself frees its value first and then uses it.
\<close>

lemma move_assignment_leaks:
  "\<exists>st. exec_all e [Construct_From_Value 0 (Cpp_String t), Default_Construct 1, Move_Assign 0 1, Destroy 0, Destroy 1]
       empty_store = Inr st
     \<and> references st = {#} \<and> fmlookup (cells st) 0 = Some \<lparr>refcount = 1, contents = Zend_String t\<rparr>"
  by (simp add: empty_store_def setter_defs allocate_def write_holder_def AutoZval_default_def
      AutoZval_move_def AutoZval_dtor_def zval_ptr_dtor_def references_def total_refs_upd fmdrop_fmupd)

lemma self_copy_uses_freed_value:
  "exec_all e [Construct_From_Value 0 (Cpp_String t), Copy_Assign 0 0] empty_store
     = Inl (Undefined_Behaviour ''use after free'')"
  by (simp add: empty_store_def setter_defs allocate_def write_holder_def
      AutoZval_copy_assign_def zval_ptr_dtor_def add_reference_def)

end
