(* ===== verification/BridgeExtension.thy ===== *)
theory BridgeExtension
  imports Diagnostics PhpBridge Logging ValueOwnership AutoloaderGuard
begin

section \<open>The test extension\<close>

text \<open>
  phpbridge_extension: a second extension that is built for the test scripts of the repository and
  gives them access to the bridge (BridgeModuleFunctions.cpp) and to \<open>AutoZval\<close>
  (AutoZvalFunctions.cpp). A function of the extension is the value it returns and the messages it
  logs; a method of the class \<open>AutoZval\<close> that builds values is the sequence of operations on
  the store of \<open>ValueOwnership\<close>. The parsing of parameters is the engine's. Shown: the
  scripts read what the product computes, that is, the metadata of \<open>WithSpan\<close> without loss, the frame they
  ask for, and hashes that agree with the engine's; and which methods leave the caller's values as they were.
\<close>

subsection \<open>Globals and messages\<close>

text \<open>The messages go through a logger that has one sink, at the level trace.\<close>

type_synonym message = "LogLevel \<times> string"

definition BridgeGlobals_ctor :: "Logger \<times> sink_state" where
  "BridgeGlobals_ctor =
     (attachSink LoggerSinkStdErr \<lparr>sinks = [], features = Map.empty\<rparr>,
      setLevel LoggerSinkStdErr logLevel_trace sinks_start)"

definition bridge_output :: "log_moment \<Rightarrow> message list \<Rightarrow> log_output list" where
  "bridge_output m ms =
     (let (lg, st) = BridgeGlobals_ctor in concat (map (\<lambda>(l, t). Logger_printf m lg st l t) ms))"

definition bridge_GINIT :: "(Logger \<times> sink_state) option" where
  "bridge_GINIT = Some BridgeGlobals_ctor"

definition bridge_GSHUTDOWN :: "(Logger \<times> sink_state) option \<Rightarrow> (Logger \<times> sink_state) option" where
  "bridge_GSHUTDOWN globals = None"

definition percent_d_bool :: "bool \<Rightarrow> string" where
  "percent_d_bool b = (if b then ''1'' else ''0'')"

lemma every_message_is_written:
  "bridge_output m ms = map (\<lambda>(l, t). To_StdErr (piece_output (log_line m l t))) ms"
proof (induction ms)
  case (Cons x ms)
  obtain l t where x: "x = (l, t)" by fastforce
  have "\<not> logLevel_trace < l" by (cases l) (simp_all add: less_LogLevel_def)
  with Cons show ?case
    by (simp add: x bridge_output_def BridgeGlobals_ctor_def attachSink_def Logger_printf_def)
qed (simp add: bridge_output_def BridgeGlobals_ctor_def)

subsection \<open>The class AutoZval: reading values\<close>

text \<open>What a method does: it returns, throws a PHP exception, or lets a C++ exception escape.\<close>

datatype php_outcome = Returns zval | Throws string | Escapes cpp_exception

definition rethrown :: "string \<Rightarrow> ('a \<Rightarrow> zval) \<Rightarrow> 'a result \<Rightarrow> php_outcome" where
  "rethrown name return r =
     (case r of
        Inr x \<Rightarrow> Returns (return x)
      | Inl (Runtime_Error what) \<Rightarrow> Throws (name @ '' exception: '' @ what)
      | Inl e \<Rightarrow> Escapes e)"

definition test_getStringView :: "zval \<Rightarrow> php_outcome" where
  "test_getStringView arg = rethrown ''getStringView'' (\<lambda>s. Str s False) (getStringView arg)"

definition test_getLong :: "zval \<Rightarrow> php_outcome" where
  "test_getLong arg = rethrown ''getLong'' Long (getLong arg)"

definition test_getDouble :: "zval \<Rightarrow> php_outcome" where
  "test_getDouble arg = rethrown ''getDouble'' Double (getDouble arg)"

definition test_getNumberAsDouble :: "zval \<Rightarrow> php_outcome" where
  "test_getNumberAsDouble arg = rethrown ''getNumberAsDouble'' Double (getNumberAsDouble arg)"

definition test_getNumberAsLong :: "zval \<Rightarrow> php_outcome" where
  "test_getNumberAsLong arg = rethrown ''getNumberAsLong'' Long (getNumberAsLong arg)"

definition test_getBoolean :: "zval \<Rightarrow> php_outcome" where
  "test_getBoolean arg = rethrown ''getBoolean'' Bool (getBoolean arg)"

definition test_getArrayCount :: "zval \<Rightarrow> php_outcome" where
  "test_getArrayCount arg =
     (if \<not> isArray arg then Throws ''Expected array''
      else case getArrayCount arg of Inr n \<Rightarrow> Returns (Long (int n)) | Inl e \<Rightarrow> Escapes e)"

lemmas test_getters = test_getStringView_def test_getLong_def test_getDouble_def test_getNumberAsDouble_def
  test_getNumberAsLong_def test_getBoolean_def test_getArrayCount_def rethrown_def

text \<open>The strict getters return exactly the values of their type; nothing escapes but a number too large.\<close>

lemma getters_return_their_type:
  "test_getStringView v = Returns w \<longleftrightarrow> (\<exists>s valid. v = Str s valid \<and> w = Str s False)"
  "test_getLong v = Returns w \<longleftrightarrow> v = w \<and> isLong v"
  "test_getDouble v = Returns w \<longleftrightarrow> v = w \<and> (\<exists>d. v = Double d)"
  "test_getBoolean v = Returns w \<longleftrightarrow> v = w \<and> (\<exists>b. v = Bool b)"
  "test_getArrayCount v = Returns w \<longleftrightarrow> (\<exists>es n. v = Arr es n \<and> w = Long (int (length es)))"
  by (cases v; auto simp: test_getters)+

lemma only_large_numbers_escape:
  "test_getNumberAsLong v = Escapes e \<Longrightarrow> \<exists>d. v = Double d \<and> (\<forall>r. d = Finite r \<longrightarrow> \<not> \<bar>r\<bar> < 2 ^ 63)"
  "test_getStringView v \<noteq> Escapes e" "test_getLong v \<noteq> Escapes e" "test_getDouble v \<noteq> Escapes e"
  "test_getNumberAsDouble v \<noteq> Escapes e" "test_getBoolean v \<noteq> Escapes e" "test_getArrayCount v \<noteq> Escapes e"
proof -
  have small: "- (2 ^ 63) \<le> truncate_rat r \<and> truncate_rat r < 2 ^ 63" if "\<bar>r\<bar> < 2 ^ 63" for r
    using that by (auto simp: truncate_rat_def abs_less_iff ceiling_less_iff floor_less_iff le_ceiling_iff le_floor_iff)
  show "test_getNumberAsLong v = Escapes e \<Longrightarrow> \<exists>d. v = Double d \<and> (\<forall>r. d = Finite r \<longrightarrow> \<not> \<bar>r\<bar> < 2 ^ 63)"
    using small by (cases v rule: getNumberAsLong.cases) (auto simp: test_getters split: if_splits)
qed (cases v; simp add: test_getters)+

subsection \<open>The class AutoZval: building values\<close>

text \<open>
  The wrapper on the stack is \<open>h\<close>, the return value of the method the slot \<open>ret\<close>. Every setter
  works on a fresh wrapper, whose value is copied to the return value.
\<close>

definition test_setString :: "nat \<Rightarrow> nat \<Rightarrow> string \<Rightarrow> operation list" where
  "test_setString h ret t =
     [Default_Construct h, Assign_Value h (Cpp_String t), Engine_Copy ret (Holder h), Destroy h]"

definition test_setLong :: "nat \<Rightarrow> nat \<Rightarrow> int \<Rightarrow> operation list" where
  "test_setLong h ret n =
     [Default_Construct h, Assign_Value h (Cpp_Integer n), Engine_Copy ret (Holder h), Destroy h]"

definition test_setNull :: "nat \<Rightarrow> nat \<Rightarrow> operation list" where
  "test_setNull h ret =
     [Default_Construct h, Assign_Value h Cpp_Nullptr, Engine_Copy ret (Holder h), Destroy h]"

definition test_setDouble :: "nat \<Rightarrow> nat \<Rightarrow> double \<Rightarrow> operation list" where
  "test_setDouble h ret d =
     [Default_Construct h, Assign_Value h (Cpp_Float d), Engine_Copy ret (Holder h), Destroy h]"

definition test_arrayInit :: "nat \<Rightarrow> nat \<Rightarrow> operation list" where
  "test_arrayInit h ret = [Default_Construct h, Array_Init h, Engine_Copy ret (Holder h), Destroy h]"

text \<open>The arguments are slots of the engine; the array among them is returned.\<close>

definition test_arrayAddNextWithRef :: "nat \<Rightarrow> nat \<Rightarrow> nat \<Rightarrow> nat \<Rightarrow> operation list" where
  "test_arrayAddNextWithRef h ret arr val =
     [Construct_From_Pointer h (Some (Extern arr)), Add_Next h (Extern val), Engine_Copy ret (Extern arr), Destroy h]"

definition test_arrayAddAssocWithRef :: "nat \<Rightarrow> nat \<Rightarrow> nat \<Rightarrow> string \<Rightarrow> nat \<Rightarrow> operation list" where
  "test_arrayAddAssocWithRef h ret arr key val =
     [Construct_From_Pointer h (Some (Extern arr)), Add_Assoc h key (Extern val), Engine_Copy ret (Extern arr), Destroy h]"

text \<open>No method loses a reference or leaves one behind, and each works on any store that is in order.\<close>

lemma fresh_wrapper:
  assumes "store_ok st L" "\<not> live h st" "\<not> readable (Extern ret) st" "op = Array_Init h \<or> op = Assign_Value h v"
  shows "\<exists>st'. exec_all e [Default_Construct h, op, Engine_Copy ret (Holder h), Destroy h] st = Inr st' \<and> store_ok st' L"
proof -
  obtain st1 where s1: "exec e (Default_Construct h) st = Inr st1" "store_ok st1 L"
    using exec_ok [of "Default_Construct h" st L e] assms(1,2) by auto
  have st1: "st1 = write_holder h Slot_Undef st" using s1(1) by (simp add: AutoZval_default_def)
  have "legal op st1" "lost op st1 = {#}"
    using assms(4) by (auto simp: st1 write_holder_def live_def held_def)
  then obtain st2 where s2: "exec e op st1 = Inr st2" "store_ok st2 L"
    using exec_ok [of op st1 L e] s1(2) by auto
  have st2: "live h st2" "externs st2 = externs st"
    using s2(1) assms(4) st1
    by (auto simp: AutoZval_arrayInit_def allocate_def setter_defs write_holder_def live_def split: cpp_value.splits)
  then have "legal (Engine_Copy ret (Holder h)) st2"
    using assms(3) by (auto simp: readable_def live_def is_ok_def split: option.splits)
  then obtain st3 where s3: "exec e (Engine_Copy ret (Holder h)) st2 = Inr st3" "store_ok st3 L"
    using exec_ok [of "Engine_Copy ret (Holder h)" st2 L e] s2(2) by auto
  have "holders st3 = holders st2"
    using s3(1) by (auto simp: bind_result_def add_reference_def split: sum.splits option.splits slot.splits)
  then have "legal (Destroy h) st3" using st2(1) by (simp add: live_def)
  then obtain st4 where "exec e (Destroy h) st3 = Inr st4" "store_ok st4 L"
    using exec_ok [of "Destroy h" st3 L e] s3(2) by auto
  then show ?thesis using s1(1) s2(1) s3(1) by simp
qed

lemma building_values_keeps_counts:
  assumes "store_ok st L" "\<not> live h st" "\<not> readable (Extern ret) st"
    "ops \<in> {test_setString h ret t, test_setLong h ret n, test_setNull h ret, test_setDouble h ret d, test_arrayInit h ret}"
  shows "\<exists>st'. exec_all e ops st = Inr st' \<and> store_ok st' L"
proof -
  obtain op v where "ops = [Default_Construct h, op, Engine_Copy ret (Holder h), Destroy h]"
    "op = Array_Init h \<or> op = Assign_Value h v"
    using assms(4) unfolding test_setString_def test_setLong_def test_setNull_def test_setDouble_def test_arrayInit_def
    by blast
  then show ?thesis using fresh_wrapper [OF assms(1-3)] by blast
qed

text \<open>
  The two methods that add to an array write into the array they are given, although PHP passes arrays by value: a
  variable that shares the array with the argument has the new element too.
\<close>

lemma argument_array_is_changed_in_place:
  "\<exists>st st'. exec_all e [Engine_New 0 (Zend_Array [] 0), Engine_Copy 1 (Extern 0), Engine_New 2 (Zend_String t)] empty_store = Inr st
     \<and> exec_all e (test_arrayAddNextWithRef h 3 1 2) st = Inr st'
     \<and> fmlookup (externs st') 0 = Some (Counted 0)
     \<and> map_option contents (fmlookup (cells st) 0) = Some (Zend_Array [] 0)
     \<and> map_option contents (fmlookup (cells st') 0) = Some (Zend_Array [(Int_Key 0, Counted 1)] 1)"
  by (simp add: empty_store_def allocate_def add_reference_def test_arrayAddNextWithRef_def AutoZval_from_pointer_def
      write_holder_def AutoZval_arrayAddNextWithRef_def array_of_def write_array_def AutoZval_dtor_def zval_ptr_dtor_def)

text \<open>
  \<open>callMethod\<close> keeps what the method returned in a local value \<open>local_rv\<close> and copies it to its own return value; the
  local one is not released, so that the value outlives all its users.
\<close>

definition test_callMethod_result :: "nat \<Rightarrow> nat \<Rightarrow> contents \<Rightarrow> operation list" where
  "test_callMethod_result local_rv ret v = [Engine_New local_rv v, Engine_Copy ret (Extern local_rv)]"

lemma result_of_callMethod_leaks:
  assumes "local_rv \<noteq> ret"
  shows "\<exists>st. exec_all e (test_callMethod_result local_rv ret (Zend_String t) @ [Engine_Release ret]) empty_store = Inr st
    \<and> fmlookup (cells st) 0 = Some \<lparr>refcount = 1, contents = Zend_String t\<rparr>"
  using assms
  by (simp add: test_callMethod_result_def empty_store_def allocate_def add_reference_def zval_ptr_dtor_def)

subsection \<open>The class AutoZval: printing\<close>

text \<open>
  \<open>iteratePrintAutoZval\<close> with one of its two visitors: the first prints the elements of an array, the other
  one (\<open>keyed\<close>) their keys as well. \<open>show_double\<close> is how a stream prints a floating point number.
\<close>

definition stream_line :: "string \<Rightarrow> string" where
  "stream_line t = t @ [CHR 0x0A]"

definition print_key :: "zkey \<Rightarrow> string" where
  "print_key k = ''key: '' @ (case k of Str_Key s \<Rightarrow> quoted s | Int_Key i \<Rightarrow> int_to_string i) @ '' => ''"

fun iteratePrintAutoZval :: "bool \<Rightarrow> (double \<Rightarrow> string) \<Rightarrow> zval \<Rightarrow> string"
  and visit_elements :: "bool \<Rightarrow> (double \<Rightarrow> string) \<Rightarrow> (zkey \<times> zval) list \<Rightarrow> string" where
  "iteratePrintAutoZval keyed show_double (Arr es nxt) =
     stream_line (''array('' @ nat_to_string (length es) @ ''): {'') @ visit_elements keyed show_double es @ stream_line ''}''"
| "iteratePrintAutoZval keyed show_double (Long n) = stream_line (''long: '' @ int_to_string n)"
| "iteratePrintAutoZval keyed show_double (Double d) = stream_line (''double: '' @ show_double d)"
| "iteratePrintAutoZval keyed show_double (Bool b) = stream_line (''bool: '' @ percent_d_bool b)"
| "iteratePrintAutoZval keyed show_double (Str s valid) = stream_line (quoted s)"
| "iteratePrintAutoZval keyed show_double Null = stream_line (''isNull: 1'')"
| "iteratePrintAutoZval keyed show_double (Obj cls handle) = stream_line (''isObject: 1'')"
| "iteratePrintAutoZval keyed show_double (Resource r) = stream_line (''isResource: 1'')"
| "iteratePrintAutoZval keyed show_double Undef = stream_line (''isUndef: 1'')"
| "visit_elements keyed show_double [] = []"
| "visit_elements keyed show_double ((k, v) # es) =
     (if v = Undef then visit_elements keyed show_double es
      else (if keyed then print_key k else []) @ iteratePrintAutoZval keyed show_double v
        @ visit_elements keyed show_double es)"

definition test_iterateArray :: "(double \<Rightarrow> string) \<Rightarrow> zval \<Rightarrow> string" where
  "test_iterateArray show_double val = iteratePrintAutoZval False show_double val"

definition test_iterateKeyValueArray :: "(double \<Rightarrow> string) \<Rightarrow> zval \<Rightarrow> string" where
  "test_iterateKeyValueArray show_double val = iteratePrintAutoZval True show_double val"

text \<open>The visitors see what the iterators of \<open>AutoZval\<close> deliver, in their order.\<close>

lemma visit_elements_values:
  "array_values (Arr es nxt) = Inr vs \<Longrightarrow>
     visit_elements False show_double es = concat (map (iteratePrintAutoZval False show_double) vs)"
  by (induction es arbitrary: vs) (auto split: if_splits)

lemma visit_elements_pairs:
  "array_pairs (Arr es nxt) = Inr ps \<Longrightarrow>
     visit_elements True show_double es =
       concat (map (\<lambda>(k, v). print_key k @ iteratePrintAutoZval True show_double v) ps)"
  by (induction es arbitrary: ps) (auto split: if_splits)

subsection \<open>Functions on the bridge\<close>

text \<open>The value a function returns and the messages it logs.\<close>

type_synonym test_result = "zval \<times> message list"

definition test_detectOpcachePreload :: "opcache_env \<Rightarrow> test_result" where
  "test_detectOpcachePreload oc =
     (Null, [(logLevel_info, ''detectOpcachePreload: '' @ percent_d_bool (detectOpcachePreload oc))])"

definition test_isOpcacheEnabled :: "opcache_env \<Rightarrow> test_result" where
  "test_isOpcacheEnabled oc =
     (Null, [(logLevel_info, ''isOpcacheEnabled: '' @ percent_d_bool (isOpcacheEnabled oc))])"

definition test_getExtensionList ::
    "(string option \<times> string option) list \<Rightarrow> (string option \<times> string option) list \<Rightarrow> test_result" where
  "test_getExtensionList module_registry zend_extensions =
     (Null, map (\<lambda>(n, v). (logLevel_info, ''name: '' @ quoted (c_str n) @ '' version: '' @ quoted (c_str v)))
       (getExtensionList module_registry zend_extensions))"

definition test_getPhpInfo :: "bool \<Rightarrow> (bool \<Rightarrow> string option list) \<Rightarrow> info_capture \<Rightarrow> test_result \<times> info_capture" where
  "test_getPhpInfo output_starts php_print_info c =
     (let (info, c') = getPhpInfo output_starts php_print_info c
      in ((Null, [(logLevel_info, ''PHP-INFO: '' @ c_str info)]), c'))"

definition test_getPhpSapiName :: "opcache_env \<Rightarrow> test_result" where
  "test_getPhpSapiName oc = (Str (sapi_name oc) False, [])"

definition test_compileAndExecuteFile :: "facade_engine \<Rightarrow> php_compiler \<Rightarrow> string \<Rightarrow> eg_state \<Rightarrow> test_result \<times> eg_state" where
  "test_compileAndExecuteFile e c fileName eg =
     (let (r, eg') = compileAndExecuteFile e c fileName eg
      in case r of
           Inr _ \<Rightarrow> ((Null, []), eg')
         | Inl x \<Rightarrow> ((Null, [(logLevel_error, ''Native exception caught: '' @ quoted (c_str (what_of x)))]), eg'))"

definition test_findClassEntry :: "(string \<rightharpoonup> 'c) \<Rightarrow> string \<Rightarrow> test_result" where
  "test_findClassEntry classes className =
     (Null, [(logLevel_info, ''findClassEntry found: '' @ percent_d_bool (findClassEntry classes className \<noteq> None))])"

definition test_getClassStaticPropertyValue ::
    "(string \<rightharpoonup> 'c) \<Rightarrow> ('c \<Rightarrow> string \<Rightarrow> zval option) \<Rightarrow> string \<Rightarrow> string \<Rightarrow> test_result" where
  "test_getClassStaticPropertyValue classes zend_read_static className propertyName =
     (case findClassEntry classes className of
        None \<Rightarrow> (Null, [(logLevel_info, ''getClassStaticPropertyValue class not found'')])
      | Some ce \<Rightarrow> (case getClassStaticPropertyValue zend_read_static (Some ce) propertyName of
          None \<Rightarrow> (Null, [(logLevel_info, ''getClassStaticPropertyValue property not found'')])
        | Some v \<Rightarrow> (v, [])))"

definition test_getClassPropertyValue :: "(string \<rightharpoonup> 'c) \<Rightarrow> php_engine \<Rightarrow> string \<Rightarrow> string \<Rightarrow> zval \<Rightarrow> test_result" where
  "test_getClassPropertyValue classes e className propertyName object =
     (case findClassEntry classes className of
        None \<Rightarrow> (Null, [(logLevel_info, ''getClassPropertyValue class not found'')])
      | Some ce \<Rightarrow> (case getClassPropertyValue e object propertyName of
          None \<Rightarrow> (Null, [(logLevel_info, ''getClassPropertyValue property not found'')])
        | Some v \<Rightarrow> (v, [])))"

definition test_isObjectOfClass :: "string \<Rightarrow> zval \<Rightarrow> test_result" where
  "test_isObjectOfClass className object = (Bool (isObjectOfClass (Some object) className), [])"

text \<open>
  \<open>callMethod\<close> of the bridge on a value: the engine's call tells whether it accepted the method and the result. The
  arguments are the elements of an array in their order, whatever their keys.
\<close>

definition test_callMethod :: "(zval \<Rightarrow> string \<Rightarrow> zval list \<Rightarrow> bool \<times> zval) \<Rightarrow> zval \<Rightarrow> string \<Rightarrow> (zkey \<times> zval) list \<Rightarrow> test_result" where
  "test_callMethod call object methodName args =
     (let argsZval = map snd args; (rv, returnValue) = call object methodName argsZval
      in (returnValue, [(logLevel_info, ''callMethod rv: '' @ percent_d_bool rv)]))"

definition test_getCompiledFiles :: "php_tables \<Rightarrow> test_result" where
  "test_getCompiledFiles t = (Null, map (\<lambda>f. (logLevel_info, f)) (getCompiledFiles t))"

text \<open>The positions are integers of PHP that the bridge takes as \<open>size_t\<close>; a pair is an array of two.\<close>

definition long_of_size :: "nat \<Rightarrow> zval" where
  "long_of_size n = Long (sint (of_nat n :: 64 word))"

definition new_pair :: "zval \<Rightarrow> zval \<Rightarrow> zval" where
  "new_pair a b = Arr [(Int_Key 0, a), (Int_Key 1, b)] 2"

definition test_getNewlyCompiledFiles :: "php_tables \<Rightarrow> 64 word \<Rightarrow> 64 word \<Rightarrow> test_result" where
  "test_getNewlyCompiledFiles t lastClassIndex lastFunctionIndex =
     (let (files, retLastClass, retLastFunc) = getNewlyCompiledFiles t (unat lastClassIndex) (unat lastFunctionIndex)
      in (new_pair (long_of_size retLastClass) (long_of_size retLastFunc), map (\<lambda>f. (logLevel_info, f)) files))"

definition getPhpVersionMajorMinor :: "int \<Rightarrow> int \<Rightarrow> int \<times> int" where
  "getPhpVersionMajorMinor php_major_version php_minor_version = (php_major_version, php_minor_version)"

definition test_getPhpVersionMajorMinor :: "int \<Rightarrow> int \<Rightarrow> test_result" where
  "test_getPhpVersionMajorMinor php_major_version php_minor_version =
     (let (major, minor) = getPhpVersionMajorMinor php_major_version php_minor_version
      in (new_pair (Long major) (Long minor), []))"

text \<open>The name of a class, as the handler of the object tells it, if it does.\<close>

definition getExceptionName :: "(nat \<Rightarrow> string option) \<Rightarrow> nat \<Rightarrow> string" where
  "getExceptionName get_class_name exception = (case get_class_name exception of None \<Rightarrow> [] | Some s \<Rightarrow> s)"

definition test_getExceptionName :: "(nat \<Rightarrow> string option) \<Rightarrow> zval \<Rightarrow> php_outcome" where
  "test_getExceptionName get_class_name object =
     (case object of
        Obj cls handle \<Rightarrow> Returns (Str (getExceptionName get_class_name handle) False)
      | _ \<Rightarrow> Escapes (Undefined_Behaviour ''not an object''))"

definition test_getCurrentException :: "hook_engine \<Rightarrow> object_id \<Rightarrow> test_result" where
  "test_getCurrentException he object = (getCurrentException he (Some object), [])"

subsection \<open>Functions on frames\<close>

text \<open>
  \<open>EG(current_execute_data)\<close> and the frames before it: the first one is that of the function
  itself, so there is one. \<open>percent_d\<close> is what printf makes of a \<open>long\<close> under \<open>%d\<close>.
\<close>

fun frames_back :: "int \<Rightarrow> call_frame list \<Rightarrow> call_frame option" where
  "frames_back framesBack [] = None"
| "frames_back framesBack (fr # frs) = (if framesBack \<le> 0 then Some fr else frames_back (framesBack - 1) frs)"

definition cannot_go_back :: "(int \<Rightarrow> string) \<Rightarrow> int \<Rightarrow> message" where
  "cannot_go_back percent_d framesBack =
     (logLevel_error, ''test failure, can'' @ CHR 0x27 # ''t go '' @ percent_d framesBack @ '' frames back'')"

definition of_frame :: "(int \<Rightarrow> string) \<Rightarrow> (call_frame \<Rightarrow> zval) \<Rightarrow> int \<Rightarrow> call_frame list \<Rightarrow> test_result" where
  "of_frame percent_d read framesBack stack =
     (case frames_back framesBack stack of
        None \<Rightarrow> (Null, [cannot_go_back percent_d framesBack])
      | Some fr \<Rightarrow> (read fr, []))"

definition test_getFunctionName :: "(int \<Rightarrow> string) \<Rightarrow> int \<Rightarrow> call_frame list \<Rightarrow> test_result" where
  "test_getFunctionName percent_d = of_frame percent_d getFunctionName"

definition test_getFunctionDeclaringScope :: "(int \<Rightarrow> string) \<Rightarrow> int \<Rightarrow> call_frame list \<Rightarrow> test_result" where
  "test_getFunctionDeclaringScope percent_d = of_frame percent_d getFunctionDeclaringScope"

definition test_getFunctionDeclarationFileName :: "(int \<Rightarrow> string) \<Rightarrow> int \<Rightarrow> call_frame list \<Rightarrow> test_result" where
  "test_getFunctionDeclarationFileName percent_d = of_frame percent_d getFunctionDeclarationFileName"

definition test_getFunctionDeclarationLineNo :: "(int \<Rightarrow> string) \<Rightarrow> int \<Rightarrow> call_frame list \<Rightarrow> test_result" where
  "test_getFunctionDeclarationLineNo percent_d = of_frame percent_d getFunctionDeclarationLineNo"

definition test_getCallArguments :: "int \<Rightarrow> (int \<Rightarrow> string) \<Rightarrow> int \<Rightarrow> call_frame list \<Rightarrow> test_result" where
  "test_getCallArguments empty_next percent_d = of_frame percent_d (getCallArguments empty_next)"

definition test_getScopeNameOrThis :: "(int \<Rightarrow> string) \<Rightarrow> int \<Rightarrow> call_frame list \<Rightarrow> test_result" where
  "test_getScopeNameOrThis percent_d = of_frame percent_d getScopeNameOrThis"

definition long_of_hash :: "zend_ulong \<Rightarrow> zval" where
  "long_of_hash h = Long (sint h)"

definition test_getCurrentCallHash :: "(int \<Rightarrow> string) \<Rightarrow> int \<Rightarrow> call_frame list \<Rightarrow> test_result" where
  "test_getCurrentCallHash percent_d = of_frame percent_d (\<lambda>fr. long_of_hash (getClassAndFunctionHashFromExecuteData fr))"

definition test_hashClassAndFunctionNameLowercase :: "string \<Rightarrow> string \<Rightarrow> test_result" where
  "test_hashClassAndFunctionNameLowercase className functionName =
     (long_of_hash (hashClassAndFunctionNameLowercase className functionName), [])"

definition test_lowercaseHash :: "string \<Rightarrow> test_result" where
  "test_lowercaseHash s = (long_of_hash (lowercaseHash s), [])"

definition test_zendBuiltinStringHash :: "(string \<Rightarrow> zend_ulong) \<Rightarrow> string \<Rightarrow> test_result" where
  "test_zendBuiltinStringHash zend_inline_hash_func s = (long_of_hash (zend_inline_hash_func s), [])"

subsection \<open>Metadata of WithSpan as an array\<close>

definition or_null_value :: "('a \<Rightarrow> zval) \<Rightarrow> 'a option \<Rightarrow> zval" where
  "or_null_value f x = (case x of None \<Rightarrow> Null | Some y \<Rightarrow> f y)"

definition param_entry :: "attr_engine \<Rightarrow> int \<Rightarrow> SpanAttributeParam \<Rightarrow> zval" where
  "param_entry ae empty_next p =
     add_assoc_zval ae ''attr_key'' (Str (par_attrKey p) False)
       (add_assoc_zval ae ''arg_index'' (Long (int (argIndex p))) (Arr [] empty_next))"

definition prop_entry :: "attr_engine \<Rightarrow> int \<Rightarrow> SpanAttributeProp \<Rightarrow> zval" where
  "prop_entry ae empty_next p =
     add_assoc_zval ae ''attr_key'' (Str (prop_attrKey p) False)
       (add_assoc_zval ae ''prop_name'' (Str (propName p) False) (Arr [] empty_next))"

definition metadata_array :: "attr_engine \<Rightarrow> int \<Rightarrow> WithSpanMetadata \<Rightarrow> zval" where
  "metadata_array ae empty_next meta =
     (let result = Arr [] empty_next;
          result = add_assoc_zval ae ''span_name'' (or_null_value (\<lambda>s. Str s False) (spanName meta)) result;
          result = add_assoc_zval ae ''span_kind'' (or_null_value Long (spanKind meta)) result;
          paramAttrs = foldl (\<lambda>a p. arrayAddNextWithRef a (param_entry ae empty_next p)) (Arr [] empty_next) (paramAttributes meta);
          result = add_assoc_zval ae ''param_attributes'' paramAttrs result;
          propAttrs = foldl (\<lambda>a p. arrayAddNextWithRef a (prop_entry ae empty_next p)) (Arr [] empty_next) (propAttributes meta)
      in add_assoc_zval ae ''prop_attributes'' propAttrs result)"

definition test_getWithSpanMetadata ::
    "(string \<rightharpoonup> 'c) \<Rightarrow> ('c \<Rightarrow> string \<rightharpoonup> call_frame) \<Rightarrow> attr_engine \<Rightarrow> int \<Rightarrow> string \<Rightarrow> string \<Rightarrow> test_result" where
  "test_getWithSpanMetadata classes methods ae empty_next className methodName =
     (case findClassEntry classes (map char_tolower className) of
        None \<Rightarrow> (Null, [(logLevel_error, ''getWithSpanMetadata: class not found: '' @ c_str className)])
      | Some ce \<Rightarrow> (case methods ce (map char_tolower methodName) of
          None \<Rightarrow> (Null, [(logLevel_error,
            ''getWithSpanMetadata: method not found: '' @ c_str className @ ''::'' @ c_str methodName)])
        | Some func \<Rightarrow> (case readWithSpanMetadata ae func of
            None \<Rightarrow> (Null, [])
          | Some meta \<Rightarrow> (metadata_array ae empty_next meta, []))))"

subsection \<open>What the scripts read\<close>

lemma frames_back_nth:
  "frames_back n stack = (if nat n < length stack then Some (stack ! nat n) else None)"
proof (induction n stack rule: frames_back.induct)
  case (2 n fr frs)
  show ?case
  proof (cases "n \<le> 0")
    case False
    then have "nat n = Suc (nat (n - 1))" by simp
    then show ?thesis using 2 False by simp
  qed simp
qed simp

lemma call_hash_agrees:
  assumes "frames_back n stack = Some fr" "cf_name fr = Some f"
  shows "test_getCurrentCallHash percent_d n stack =
    test_hashClassAndFunctionNameLowercase (case cf_scope fr of None \<Rightarrow> [] | Some ce \<Rightarrow> ci_name ce) f"
  using assms
  by (simp add: test_getCurrentCallHash_def of_frame_def getClassAndFunctionHashFromExecuteData_def
      getClassAndFunctionName_def test_hashClassAndFunctionNameLowercase_def)

text \<open>The engine's hash of strings is known as DJBX33A with the highest bit set.\<close>

lemma hash_loop_foldl:
  "hash_loop h s = foldl (\<lambda>h c. h * 33 + of_nat (char_code c)) h (map char_tolower s)"
  by (induction s arbitrary: h) simp_all

lemma lowercaseHash_is_the_builtin_hash:
  assumes "\<And>s. zend_inline_hash_func s = foldl (\<lambda>h c. h * 33 + of_nat (char_code c)) 5381 s OR 0x8000000000000000"
  shows "test_lowercaseHash s = test_zendBuiltinStringHash zend_inline_hash_func (map char_tolower s)"
  by (simp add: test_lowercaseHash_def test_zendBuiltinStringHash_def lowercaseHash_def assms hash_loop_foldl)

text \<open>How a script takes the metadata of \<open>WithSpan\<close> apart again.\<close>

fun entries :: "zval \<Rightarrow> (zkey \<times> zval) list" where
  "entries (Arr es _) = es"
| "entries _ = []"

definition entry_of :: "zval \<Rightarrow> string \<Rightarrow> zval option" where
  "entry_of a key = map_of (entries a) (Str_Key key)"

definition read_param :: "zval \<Rightarrow> SpanAttributeParam option" where
  "read_param a =
     (case (entry_of a ''arg_index'', entry_of a ''attr_key'') of
        (Some (Long i), Some (Str k _)) \<Rightarrow> Some \<lparr>argIndex = nat i, par_attrKey = k\<rparr>
      | _ \<Rightarrow> None)"

definition read_prop :: "zval \<Rightarrow> SpanAttributeProp option" where
  "read_prop a =
     (case (entry_of a ''prop_name'', entry_of a ''attr_key'') of
        (Some (Str n _), Some (Str k _)) \<Rightarrow> Some \<lparr>propName = n, prop_attrKey = k\<rparr>
      | _ \<Rightarrow> None)"

definition read_elements :: "(zval \<Rightarrow> 'a option) \<Rightarrow> zval option \<Rightarrow> 'a list option" where
  "read_elements f a = (case a of None \<Rightarrow> None | Some v \<Rightarrow> those (map (f \<circ> snd) (entries v)))"

definition read_metadata :: "zval \<Rightarrow> WithSpanMetadata option" where
  "read_metadata a =
     (case (read_elements read_param (entry_of a ''param_attributes''), read_elements read_prop (entry_of a ''prop_attributes'')) of
        (Some ps, Some qs) \<Rightarrow> Some
          \<lparr>spanName = (case entry_of a ''span_name'' of Some (Str s _) \<Rightarrow> Some s | _ \<Rightarrow> None),
           spanKind = (case entry_of a ''span_kind'' of Some (Long n) \<Rightarrow> Some n | _ \<Rightarrow> None),
           paramAttributes = ps, propAttributes = qs\<rparr>
      | _ \<Rightarrow> None)"

lemma appended_entries:
  "map snd (entries (foldl (\<lambda>a p. arrayAddNextWithRef a (f p)) (Arr es n) xs)) = map snd es @ map f xs"
  by (induction xs arbitrary: es n) (simp_all add: Let_def)

lemma read_appended:
  assumes "\<And>p. f (g p) = Some p"
  shows "read_elements f (Some (foldl (\<lambda>a p. arrayAddNextWithRef a (g p)) (Arr [] n) xs)) = Some xs"
proof -
  have "those (map f (map g xs)) = Some xs" by (induction xs) (simp_all add: assms)
  then show ?thesis
    using appended_entries [where f = g and es = "[]" and n = n and xs = xs]
    by (simp add: read_elements_def flip: map_map)
qed

lemma metadata_reads_back:
  assumes "\<And>k. k \<in> {''span_name'', ''span_kind'', ''param_attributes'', ''prop_attributes'', ''arg_index'', ''attr_key'', ''prop_name''}
      \<Longrightarrow> attr_engine.symtable_key ae k = Str_Key k"
  shows "read_metadata (metadata_array ae empty_next meta) = Some meta"
proof -
  have p: "read_param (param_entry ae empty_next p) = Some p" for p
    by (simp add: read_param_def param_entry_def add_assoc_zval_def entry_of_def assms)
  have q: "read_prop (prop_entry ae empty_next p) = Some p" for p
    by (simp add: read_prop_def prop_entry_def add_assoc_zval_def entry_of_def assms)
  define ps where "ps = foldl (\<lambda>a p. arrayAddNextWithRef a (param_entry ae empty_next p)) (Arr [] empty_next) (paramAttributes meta)"
  define qs where "qs = foldl (\<lambda>a p. arrayAddNextWithRef a (prop_entry ae empty_next p)) (Arr [] empty_next) (propAttributes meta)"
  have "read_elements read_param (Some ps) = Some (paramAttributes meta)" "read_elements read_prop (Some qs) = Some (propAttributes meta)"
    unfolding ps_def qs_def by (rule read_appended [OF p], rule read_appended [OF q])
  then show ?thesis
    by (simp add: read_metadata_def metadata_array_def add_assoc_zval_def entry_of_def assms or_null_value_def
        flip: ps_def qs_def split: option.split)
qed

end
