(* ===== verification/ProcessLife.thy ===== *)
theory ProcessLife
  imports RemoteConfig
begin

section \<open>The life of the processes\<close>

text \<open>
  How the processes of an installation begin and end: the handler for the globals of the module in
  extension/code/ModuleEntry.cpp, which forks the coordinator, and \<open>coordinatorLoop\<close> of
  libcommon/code/coordinator/CoordinatorProcess.cpp with the executor of its periodic task and the
  OpAMP client. The coordinator is a step relation in which its threads and the other processes
  interleave: workers start, send and exit, and the parent may exit. Shown: the coordinator stops only
  when nobody needs it, it stops once that is so, and what it may leave behind.
\<close>

subsection \<open>The configuration the coordinator starts with\<close>

definition snapshot_text :: "string \<Rightarrow> ConfigurationSnapshot \<Rightarrow> string" where
  "snapshot_text n c = (case members c n of Some (Val_string s) \<Rightarrow> s | _ \<Rightarrow> [])"

definition snapshot_flag :: "string \<Rightarrow> ConfigurationSnapshot \<Rightarrow> bool" where
  "snapshot_flag n c = (case members c n of Some (Val_boolean b) \<Rightarrow> b | _ \<Rightarrow> False)"

definition snapshot_bytes :: "string \<Rightarrow> ConfigurationSnapshot \<Rightarrow> size_t" where
  "snapshot_bytes n c = (case members c n of Some (Val_bytes b) \<Rightarrow> b | _ \<Rightarrow> 0)"

definition opamp_config_of :: "ConfigurationSnapshot \<Rightarrow> opamp_config" where
  "opamp_config_of c =
     \<lparr>opamp_endpoint = snapshot_text ''opamp_endpoint'' c,
      opamp_headers = snapshot_text ''opamp_headers'' c,
      opamp_heartbeat_interval = cfg_duration ''opamp_heartbeat_interval'' c,
      opamp_polling_interval = cfg_duration ''opamp_polling_interval'' c,
      opamp_send_timeout = cfg_duration ''opamp_send_timeout'' c,
      opamp_send_max_retries = snapshot_bytes ''opamp_send_max_retries'' c,
      opamp_send_retry_delay = cfg_duration ''opamp_send_retry_delay'' c,
      opamp_insecure = snapshot_flag ''opamp_insecure'' c,
      opamp_certificate = snapshot_text ''opamp_certificate'' c,
      opamp_client_certificate = snapshot_text ''opamp_client_certificate'' c,
      opamp_client_key = snapshot_text ''opamp_client_key'' c,
      opamp_client_keypass = snapshot_text ''opamp_client_keypass'' c\<rparr>"

text \<open>What the coordinator process gets from outside: libcurl, attribute names, codec, attributes.\<close>

record coordinator_libs =
  cl_env :: coordinator_env
  cl_semconv :: semconv
  cl_opamp_codec :: opamp_codec
  cl_resource :: "(string \<times> string) list"

text \<open>
  Before its loop the coordinator starts the OpAMP client and creates the executor with its one
  task and resumes it.
\<close>

definition setupPeriodicTasks :: PeriodicTaskExecutor where
  "setupPeriodicTasks = exec_setInterval 100 (PeriodicTaskExecutor_ctor [0])"

definition coordinatorLoop_start :: "coordinator_libs \<Rightarrow> coordinator_agent \<Rightarrow> coordinator_agent \<times> PeriodicTaskExecutor" where
  "coordinatorLoop_start l ca =
     (let (ag, t) = startCommunication (env_externals (cl_env l)) (env_config (cl_env l)) (cl_semconv l) (cl_opamp_codec l)
            (opamp_config_of (config (ca_storage ca))) (cl_resource l) (ca_opamp ca, httpTransport (ca_process ca))
      in (ca\<lparr>ca_opamp := ag, ca_process := (ca_process ca)\<lparr>httpTransport := t\<rparr>\<rparr>,
          resumePeriodicTasks setupPeriodicTasks))"

subsection \<open>Globals of the module\<close>

text \<open>
  What a process is after the handler: a worker, or the coordinator about to enter its loop; an
  exception of the coordinator's constructor is caught by nobody and ends the new process.
\<close>

datatype process_role =
  Worker_Role worker
| Coordinator_Role coordinator_agent PeriodicTaskExecutor
| Coordinator_Dies cpp_exception

definition PHP_GINIT ::
    "remote_env \<Rightarrow> coordinator_libs \<Rightarrow> int \<Rightarrow> pid \<Rightarrow> provider \<Rightarrow> byte list \<Rightarrow> SharedData
       \<Rightarrow> string \<Rightarrow> msec \<Rightarrow> engine_pointers \<Rightarrow> sink_state \<Rightarrow> process_role" where
  "PHP_GINIT env l processId getpid optionProvider uid sd phpSapiName now pointers sst =
     (case forkCoordinatorProcess env processId getpid optionProvider uid sd (GINIT_logger, sst) of
        Extension_Continues \<Rightarrow> Worker_Role (AgentGlobals_ctor optionProvider phpSapiName now pointers)
      | Coordinator_Runs (Inl e, ca) \<Rightarrow> Coordinator_Dies e
      | Coordinator_Runs (Inr _, ca) \<Rightarrow>
          (case coordinatorLoop_start l ca of (ca, e) \<Rightarrow> Coordinator_Role ca e))"

text \<open>
  The other handler deletes the globals of a worker, with their registry of forkable objects. The
  pointer keeps its value.
\<close>

definition AgentGlobals_dtor :: "worker \<times> ForkableRegistry \<Rightarrow> worker \<times> ForkableRegistry" where
  "AgentGlobals_dtor g = (case g of (w, reg) \<Rightarrow>
     (w\<lparr>configStorage := removeAllConfigUpdateWatchers (configStorage w)\<rparr>, registry_clear reg))"

datatype globals_pointer = Null_Globals | Globals worker ForkableRegistry | Deleted_Globals

definition PHP_GSHUTDOWN :: "globals_pointer \<Rightarrow> globals_pointer result" where
  "PHP_GSHUTDOWN g =
     (case g of
        Null_Globals \<Rightarrow> Inr Null_Globals
      | Globals w reg \<Rightarrow> Inr Deleted_Globals
      | Deleted_Globals \<Rightarrow> Inl (Undefined_Behaviour ''use after free''))"

lemma globals_are_deleted_once:
  "bind_result (PHP_GSHUTDOWN (Globals w reg)) PHP_GSHUTDOWN = Inl (Undefined_Behaviour ''use after free'')"
  by (simp add: PHP_GSHUTDOWN_def)

subsection \<open>The coordinator among the processes\<close>

text \<open>
  \<open>sy_left\<close>: the loop has been left, after which the process exits. \<open>sy_alive\<close> are the
  processes that \<open>kill\<close> with signal zero finds.
\<close>

record 'q system =
  sy_agent :: coordinator_agent
  sy_executor :: PeriodicTaskExecutor
  sy_queue :: 'q
  sy_parent_alive :: bool
  sy_alive :: "pid set"
  sy_left :: bool

definition sy_working :: "'q system \<Rightarrow> bool" where
  "sy_working s = coordinator_working (ca_process (sy_agent s))"

definition sy_workers :: "'q system \<Rightarrow> pid list" where
  "sy_workers s = workerRegistry (ca_process (sy_agent s))"

definition with_process :: "(CoordinatorProcess \<Rightarrow> CoordinatorProcess) \<Rightarrow> 'q system \<Rightarrow> 'q system" where
  "with_process f s = s\<lparr>sy_agent := (sy_agent s)\<lparr>ca_process := f (ca_process (sy_agent s))\<rparr>\<rparr>"

text \<open>One turn of the loop.\<close>

definition loop_turn :: "coordinator_libs \<Rightarrow> 'q message_queue \<Rightarrow> msec \<Rightarrow> 'q system \<Rightarrow> 'q system" where
  "loop_turn l mq now s =
     (if \<not> sy_working s then s\<lparr>sy_left := True\<rparr>
      else case coordinator_turn (cl_env l) mq now (ca_process (sy_agent s), sy_queue s) of
             (co, q) \<Rightarrow> with_process (\<lambda>_. co) (s\<lparr>sy_queue := q\<rparr>))"

text \<open>
  One step of the executor's thread. The parent of a process whose parent has exited is another one.
\<close>

definition executor_step :: "pid \<Rightarrow> msec \<Rightarrow> msec \<Rightarrow> 'q system \<Rightarrow> 'q system option" where
  "executor_step reaper steady now s =
     (case exec_step (sy_executor s) of
        None \<Rightarrow> None
      | Some (tasks, e) \<Rightarrow>
          let parent = (if sy_parent_alive s then parentProcessId (ca_process (sy_agent s)) else reaper)
          in Some (with_process (fold (\<lambda>_. periodic_task (\<lambda>p. p \<notin> sy_alive s) parent steady now) tasks)
                     (s\<lparr>sy_executor := e\<rparr>)))"

inductive system_step :: "coordinator_libs \<Rightarrow> 'q message_queue \<Rightarrow> 'q system \<Rightarrow> 'q system \<Rightarrow> bool"
  for l :: coordinator_libs and mq :: "'q message_queue" where
  turn: "\<not> sy_left s \<Longrightarrow> system_step l mq s (loop_turn l mq now s)"
| tasks: "executor_step reaper steady now s = Some s' \<Longrightarrow> reaper \<noteq> parentProcessId (ca_process (sy_agent s)) \<Longrightarrow>
    system_step l mq s s'"
| server: "system_step l mq s (s\<lparr>sy_agent := snd (opamp_response env bytes (sy_agent s))\<rparr>)"
| worker_sends: "try_send mq (sy_queue s) item = Inr (sent, q) \<Longrightarrow> system_step l mq s (s\<lparr>sy_queue := q\<rparr>)"
| worker_starts: "system_step l mq s (s\<lparr>sy_alive := insert p (sy_alive s)\<rparr>)"
| worker_exits: "system_step l mq s (s\<lparr>sy_alive := sy_alive s - {p}\<rparr>)"
| parent_exits: "system_step l mq s (s\<lparr>sy_parent_alive := False\<rparr>)"

text \<open>The state in which the coordinator enters its loop, forked by a process that is alive.\<close>

definition system_start :: "coordinator_agent \<Rightarrow> PeriodicTaskExecutor \<Rightarrow> 'q \<Rightarrow> pid set \<Rightarrow> 'q system" where
  "system_start ca e q alive =
     \<lparr>sy_agent = ca, sy_executor = e, sy_queue = q, sy_parent_alive = True, sy_alive = alive, sy_left = False\<rparr>"

inductive system_reachable ::
    "coordinator_libs \<Rightarrow> 'q message_queue \<Rightarrow> 'q system \<Rightarrow> 'q system \<Rightarrow> bool"
  for l :: coordinator_libs and mq :: "'q message_queue" and s0 :: "'q system" where
  start: "system_reachable l mq s0 s0"
| step: "system_reachable l mq s0 s \<Longrightarrow> system_step l mq s s' \<Longrightarrow> system_reachable l mq s0 s'"

subsection \<open>When the coordinator stops\<close>

text \<open>
  The invariant: the coordinator works or nobody needs it; once it has left its loop it does not
  work; the thread of the executor goes on.
\<close>

definition executor_runs :: "PeriodicTaskExecutor \<Rightarrow> bool" where
  "executor_runs e \<longleftrightarrow> resumed e \<and> exec_working e \<and> periodicTasks e = [0]
     \<and> exec_thread e \<in> {Exec_Started, Exec_Waiting, Exec_Sleeping}"

definition system_inv :: "'q system \<Rightarrow> bool" where
  "system_inv s \<longleftrightarrow> (sy_working s \<or> \<not> sy_parent_alive s \<and> sy_workers s = [])
     \<and> (sy_left s \<longrightarrow> \<not> sy_working s) \<and> executor_runs (sy_executor s)"

lemma executor_runs_step:
  "executor_runs e \<Longrightarrow> \<exists>ts e'. exec_step e = Some (ts, e') \<and> executor_runs e'"
  by (auto simp: executor_runs_def exec_step_def exec_loop_head_def)

lemma periodic_task_parts:
  "coordinator_working (periodic_task gone ppid steady now co) =
     (coordinator_working co \<and> (ppid = parentProcessId co \<or> filter (\<lambda>w. \<not> gone w) (workerRegistry co) \<noteq> []))"
  "workerRegistry (periodic_task gone ppid steady now co) =
     (if ppid = parentProcessId co then workerRegistry co else filter (\<lambda>w. \<not> gone w) (workerRegistry co))"
  "parentProcessId (periodic_task gone ppid steady now co) = parentProcessId co"
  by (auto simp: periodic_task_def Let_def verifyWorkersAlive_def getWorkerCount_def)

lemma process_message_frame [simp]:
  "parentProcessId (processRecievedMessage env b co) = parentProcessId co"
  by (auto simp: processRecievedMessage_def dispatch_command_def Let_def split: option.split CommandType.split)

lemma coordinator_turn_frame [simp]:
  "coordinator_working (fst (coordinator_turn env mq now (co, q))) = coordinator_working co"
  "parentProcessId (fst (coordinator_turn env mq now (co, q))) = parentProcessId co"
  by (auto simp: coordinator_turn_def split: prod.split sum.split option.split)

lemma opamp_response_frame [simp]:
  "coordinator_working (ca_process (snd (opamp_response env bytes ca))) = coordinator_working (ca_process ca)"
  "workerRegistry (ca_process (snd (opamp_response env bytes ca))) = workerRegistry (ca_process ca)"
  "parentProcessId (ca_process (snd (opamp_response env bytes ca))) = parentProcessId (ca_process ca)"
  by (simp_all add: opamp_response_def onRemoteConfig_def Let_def case_prod_beta split: option.split sum.split)

lemma with_process_simps [simp]:
  "sy_agent (with_process f s) = (sy_agent s)\<lparr>ca_process := f (ca_process (sy_agent s))\<rparr>"
  "sy_executor (with_process f s) = sy_executor s" "sy_queue (with_process f s) = sy_queue s"
  "sy_parent_alive (with_process f s) = sy_parent_alive s" "sy_alive (with_process f s) = sy_alive s"
  "sy_left (with_process f s) = sy_left s"
  by (simp_all add: with_process_def)

text \<open>Only a turn of the loop that receives a message adds workers, and only one that receives an unregistration takes a living one out.\<close>

lemma loop_turn_parts:
  "sy_working (loop_turn l mq now s) = sy_working s"
  "sy_parent_alive (loop_turn l mq now s) = sy_parent_alive s"
  "sy_alive (loop_turn l mq now s) = sy_alive s"
  "sy_executor (loop_turn l mq now s) = sy_executor s"
  "sy_left (loop_turn l mq now s) = (sy_left s \<or> \<not> sy_working s)"
  "\<not> sy_working s \<Longrightarrow> sy_workers (loop_turn l mq now s) = sy_workers s"
  by (auto simp: loop_turn_def sy_working_def sy_workers_def case_prod_beta)

lemma executor_step_parts:
  assumes "executor_step reaper steady now s = Some s'" "executor_runs (sy_executor s)"
    and "reaper \<noteq> parentProcessId (ca_process (sy_agent s))"
  obtains ts where "exec_step (sy_executor s) = Some (ts, sy_executor s')" "ts = [] \<or> ts = [0]"
    "executor_runs (sy_executor s')" "sy_parent_alive s' = sy_parent_alive s" "sy_alive s' = sy_alive s"
    "sy_left s' = sy_left s"
    "sy_working s' = (sy_working s \<and> (ts = [] \<or> sy_parent_alive s \<or> (\<exists>w \<in> set (sy_workers s). w \<in> sy_alive s)))"
    "sy_workers s' = (if ts = [] \<or> sy_parent_alive s then sy_workers s else filter (\<lambda>w. w \<in> sy_alive s) (sy_workers s))"
proof -
  obtain ts e where e: "exec_step (sy_executor s) = Some (ts, e)" "executor_runs e"
    using executor_runs_step [OF assms(2)] by blast
  have ts: "ts = [] \<or> ts = [0]"
    using e(1) assms(2) by (auto simp: exec_step_def executor_runs_def)
  have s': "s' = with_process (fold (\<lambda>_. periodic_task (\<lambda>p. p \<notin> sy_alive s)
      (if sy_parent_alive s then parentProcessId (ca_process (sy_agent s)) else reaper) steady now) ts) (s\<lparr>sy_executor := e\<rparr>)"
    using assms(1) e(1) by (simp add: executor_step_def)
  show ?thesis
    using that [of ts] e ts assms(3) unfolding s'
    by (auto simp: sy_working_def sy_workers_def periodic_task_parts filter_empty_conv)
qed

lemma system_inv_step:
  assumes "system_step l mq s s'" "system_inv s"
  shows "system_inv s'"
  using assms
proof (cases rule: system_step.cases)
  case (turn now)
  then show ?thesis using assms(2) by (auto simp: system_inv_def loop_turn_parts)
next
  case (tasks reaper steady now)
  from assms(2) have run: "executor_runs (sy_executor s)" by (simp add: system_inv_def)
  show ?thesis
    by (rule executor_step_parts [OF tasks(1) run tasks(2)])
       (use assms(2) in \<open>auto simp: system_inv_def filter_empty_conv split: if_splits\<close>)
qed (auto simp: system_inv_def sy_working_def sy_workers_def)

lemma system_inv_reachable:
  "system_reachable l mq s0 s \<Longrightarrow> system_inv s0 \<Longrightarrow> system_inv s"
  by (induction rule: system_reachable.induct) (blast intro: system_inv_step)+

lemma ctor_process:
  "ca_process (snd (CoordinatorProcess_ctor env parent p uid sd lg)) =
     \<lparr>coordinator_working = True, parentProcessId = parent, workerRegistry = [],
      httpTransport = HttpTransportAsync_ctor, recievedMessages = [], lastCleanupTime = None\<rparr>"
  by (simp add: CoordinatorProcess_ctor_def)

lemma GINIT_coordinator:
  assumes "PHP_GINIT env l pid parent p uid sd phpSapi now ptrs sst = Coordinator_Role ca e"
  shows "coordinator_working (ca_process ca)" "parentProcessId (ca_process ca) = parent"
    "workerRegistry (ca_process ca) = []" "executor_runs e"
proof -
  from assms have "pid = 0" by (auto simp: PHP_GINIT_def forkCoordinatorProcess_def split: if_splits)
  obtain r ca0 where c: "CoordinatorProcess_ctor env parent p uid sd (GINIT_logger, sst) = (r, ca0)" by fastforce
  have p0: "coordinator_working (ca_process ca0)" "parentProcessId (ca_process ca0) = parent"
    "workerRegistry (ca_process ca0) = []"
    using ctor_process [of env parent p uid sd "(GINIT_logger, sst)"] by (simp_all add: c)
  have "coordinatorLoop_start l ca0 = (ca, e)"
    using assms c \<open>pid = 0\<close> by (auto simp: PHP_GINIT_def forkCoordinatorProcess_def split: sum.splits prod.splits)
  then show "coordinator_working (ca_process ca)" "parentProcessId (ca_process ca) = parent"
    "workerRegistry (ca_process ca) = []" "executor_runs e"
    using p0 by (auto simp: coordinatorLoop_start_def Let_def case_prod_beta setupPeriodicTasks_def executor_runs_def
        exec_setInterval_def resumePeriodicTasks_def PeriodicTaskExecutor_ctor_def)
qed

lemma GINIT_inv:
  assumes "PHP_GINIT env l pid parent p uid sd phpSapi now ptrs sst = Coordinator_Role ca e"
  shows "system_inv (system_start ca e q alive)"
  using GINIT_coordinator [OF assms] by (simp add: system_inv_def system_start_def sy_working_def)

text \<open>A turn takes a worker out of the registry only on its own message.\<close>

definition receives_unregistration :: "coordinator_libs \<Rightarrow> 'q message_queue \<Rightarrow> msec \<Rightarrow> 'q system \<Rightarrow> pid \<Rightarrow> bool" where
  "receives_unregistration l mq now s w \<longleftrightarrow>
     (\<exists>r q' i bytes command. tryReceiveMessage mq now (recievedMessages (ca_process (sy_agent s))) (sy_queue s) = (Inr (i, Some bytes), r, q')
        \<and> parse (env_codec (cl_env l)) bytes = Some command
        \<and> command_type command = WORKER_IS_GOING_TO_SHUTDOWN
        \<and> w = sint (process_id (case worker_is_going_to_shutdown command of Some c \<Rightarrow> c | None \<Rightarrow> default_WorkerCommand)))"

lemma process_message_registry:
  assumes "hasWorker w (workerRegistry co)" "\<not> hasWorker w (workerRegistry (processRecievedMessage env bytes co))"
  shows "\<exists>command. parse (env_codec env) bytes = Some command
    \<and> command_type command = WORKER_IS_GOING_TO_SHUTDOWN
    \<and> w = sint (process_id (case worker_is_going_to_shutdown command of Some c \<Rightarrow> c | None \<Rightarrow> default_WorkerCommand))"
  using assms
  by (auto simp: processRecievedMessage_def dispatch_command_def Let_def hasWorker_def registerWorker_def unregisterWorker_def
      split: option.splits CommandType.splits if_splits)

lemma loop_turn_registry:
  assumes "w \<in> set (sy_workers s)" "w \<notin> set (sy_workers (loop_turn l mq now s))"
  shows "receives_unregistration l mq now s w"
proof -
  let ?co = "ca_process (sy_agent s)"
  obtain res r q' where m: "tryReceiveMessage mq now (recievedMessages ?co) (sy_queue s) = (res, r, q')"
    by (metis prod.collapse)
  have working: "coordinator_working ?co"
    using assms loop_turn_parts(6) [of s l mq now] by (metis sy_working_def)
  have after: "sy_workers (loop_turn l mq now s) = workerRegistry (fst (coordinator_turn (cl_env l) mq now (?co, sy_queue s)))"
    using working by (simp add: loop_turn_def sy_working_def sy_workers_def case_prod_beta)
  obtain i bytes where res: "res = Inr (i, Some bytes)"
    using assms working m unfolding after
    by (auto simp: coordinator_turn_def sy_workers_def split: sum.splits prod.splits option.splits)
  have "\<not> hasWorker w (workerRegistry (processRecievedMessage (cl_env l) bytes (?co\<lparr>recievedMessages := r\<rparr>)))"
    using assms(2) working m res unfolding after by (simp add: coordinator_turn_def hasWorker_def)
  moreover have "hasWorker w (workerRegistry (?co\<lparr>recievedMessages := r\<rparr>))"
    using assms(1) by (simp add: hasWorker_def sy_workers_def)
  ultimately show ?thesis
    using process_message_registry [of w "?co\<lparr>recievedMessages := r\<rparr>" "cl_env l" bytes] m res
    unfolding receives_unregistration_def by blast
qed

lemma living_worker_stays:
  assumes "system_step l mq s s'" "system_inv s" "w \<in> set (sy_workers s)" "w \<in> sy_alive s"
  shows "w \<in> set (sy_workers s') \<or> (\<exists>now. receives_unregistration l mq now s w)"
  using assms(1)
proof (cases rule: system_step.cases)
  case (turn now)
  then show ?thesis using loop_turn_registry assms(3) by blast
next
  case (tasks reaper steady now)
  have run: "executor_runs (sy_executor s)" using assms(2) by (simp add: system_inv_def)
  show ?thesis
    by (rule executor_step_parts [OF tasks(1) run tasks(2)]) (use assms(3,4) in simp)
qed (use assms(3) in \<open>simp_all add: sy_workers_def\<close>)

text \<open>Nobody needs the coordinator, and it may or may not know yet.\<close>

definition unneeded :: "pid \<Rightarrow> 'q system \<Rightarrow> bool" where
  "unneeded reaper s \<longleftrightarrow> executor_runs (sy_executor s) \<and> \<not> sy_parent_alive s
     \<and> set (sy_workers s) \<inter> sy_alive s = {} \<and> reaper \<noteq> parentProcessId (ca_process (sy_agent s))"

lemma unneeded_step:
  assumes "unneeded reaper s"
  shows "\<exists>s' ts. executor_step reaper t n s = Some s' \<and> exec_step (sy_executor s) = Some (ts, sy_executor s')
    \<and> unneeded reaper s' \<and> (sy_working s' \<longrightarrow> sy_working s \<and> ts = [])"
proof -
  obtain ts e where e: "exec_step (sy_executor s) = Some (ts, e)"
    using executor_runs_step [of "sy_executor s"] assms by (auto simp: unneeded_def)
  then obtain s' where s': "executor_step reaper t n s = Some s'" by (simp add: executor_step_def Let_def)
  have run: "executor_runs (sy_executor s)" and r: "reaper \<noteq> parentProcessId (ca_process (sy_agent s))"
    using assms by (simp_all add: unneeded_def)
  have "parentProcessId (ca_process (sy_agent s')) = parentProcessId (ca_process (sy_agent s))"
  proof -
    have "parentProcessId (fold (\<lambda>_. periodic_task g pp t n) ts co) = parentProcessId co" for g pp co
      by (induction ts arbitrary: co) (simp_all add: periodic_task_parts)
    then show ?thesis using s' e by (auto simp: executor_step_def Let_def)
  qed
  then show ?thesis
    by (rule_tac executor_step_parts [OF s' run r]) (use assms s' in \<open>auto simp: unneeded_def\<close>)
qed

lemma idle_step:
  "executor_runs e \<Longrightarrow> exec_step e = Some ([], e') \<Longrightarrow>
     exec_thread e = Exec_Started \<and> exec_thread e' = Exec_Waiting
     \<or> exec_thread e = Exec_Waiting \<and> exec_thread e' = Exec_Sleeping"
  by (auto simp: exec_step_def executor_runs_def exec_loop_head_def)

lemma three_steps:
  assumes "unneeded reaper s"
  shows "\<exists>s1 s2 s3. executor_step reaper t1 n1 s = Some s1 \<and> executor_step reaper t2 n2 s1 = Some s2
    \<and> executor_step reaper t3 n3 s2 = Some s3 \<and> unneeded reaper s1 \<and> unneeded reaper s2 \<and> \<not> sy_working s3"
proof -
  obtain s1 ts1 where 1: "executor_step reaper t1 n1 s = Some s1" "exec_step (sy_executor s) = Some (ts1, sy_executor s1)"
    "unneeded reaper s1" "sy_working s1 \<longrightarrow> sy_working s \<and> ts1 = []" using unneeded_step [OF assms] by blast
  then obtain s2 ts2 where 2: "executor_step reaper t2 n2 s1 = Some s2" "exec_step (sy_executor s1) = Some (ts2, sy_executor s2)"
    "unneeded reaper s2" "sy_working s2 \<longrightarrow> sy_working s1 \<and> ts2 = []" using unneeded_step by blast
  then obtain s3 ts3 where 3: "executor_step reaper t3 n3 s2 = Some s3" "exec_step (sy_executor s2) = Some (ts3, sy_executor s3)"
    "sy_working s3 \<longrightarrow> sy_working s2 \<and> ts3 = []" using unneeded_step by blast
  have "executor_runs (sy_executor s)" "executor_runs (sy_executor s1)" "executor_runs (sy_executor s2)"
    using assms 1(3) 2(3) by (simp_all add: unneeded_def)
  with 1(2) 2(2) 3(2) have "ts1 \<noteq> [] \<or> ts2 \<noteq> [] \<or> ts3 \<noteq> []"
    using idle_step by (metis executor_thread.distinct)
  then have "\<not> sy_working s3" using 1(4) 2(4) 3(3) by blast
  then show ?thesis using 1 2 3 by blast
qed

lemma three_steps_end:
  assumes "system_inv s" "\<not> sy_parent_alive s" "set (sy_workers s) \<inter> sy_alive s = {}"
    and "reaper \<noteq> parentProcessId (ca_process (sy_agent s))"
  shows "\<exists>s1 s2 s3. executor_step reaper t1 n1 s = Some s1 \<and> executor_step reaper t2 n2 s1 = Some s2
    \<and> executor_step reaper t3 n3 s2 = Some s3 \<and> sy_left (loop_turn l mq now s3)"
proof -
  have "unneeded reaper s" using assms by (simp add: unneeded_def system_inv_def)
  from three_steps [OF this, of t1 n1 t2 n2 t3 n3] show ?thesis by (auto simp: loop_turn_parts)
qed

lemma executor_step_queue:
  "executor_step reaper t n s = Some s' \<Longrightarrow> sy_queue s' = sy_queue s \<and> sy_alive s' = sy_alive s \<and> sy_left s' = sy_left s"
  by (auto simp: executor_step_def Let_def split: option.splits)

lemma unneeded_leaves:
  assumes "unneeded reaper s" "system_reachable l mq s0 s" "\<not> sy_left s"
  shows "\<exists>s'. system_reachable l mq s0 s' \<and> sy_left s' \<and> sy_queue s' = sy_queue s \<and> sy_alive s' = sy_alive s"
proof -
  obtain s1 s2 s3 where st: "executor_step reaper 0 0 s = Some s1" "executor_step reaper 0 0 s1 = Some s2"
    "executor_step reaper 0 0 s2 = Some s3" "unneeded reaper s1" "unneeded reaper s2" "\<not> sy_working s3"
    using three_steps [OF assms(1)] by blast
  have "system_reachable l mq s0 s1"
    using assms(1,2) st(1) by (auto intro: system_reachable.step system_step.tasks simp: unneeded_def)
  then have "system_reachable l mq s0 s2"
    using st(2,4) by (auto intro: system_reachable.step system_step.tasks simp: unneeded_def)
  then have "system_reachable l mq s0 s3"
    using st(3,5) by (auto intro: system_reachable.step system_step.tasks simp: unneeded_def)
  moreover note q = executor_step_queue [OF st(1)] executor_step_queue [OF st(2)] executor_step_queue [OF st(3)]
  ultimately have "system_reachable l mq s0 (loop_turn l mq 0 s3)"
    using assms(3) by (auto intro: system_reachable.step system_step.turn)
  moreover have "loop_turn l mq 0 s3 = s3\<lparr>sy_left := True\<rparr>" using st(6) by (simp add: loop_turn_def)
  ultimately show ?thesis using q by auto
qed


text \<open>
  The new process dies instead when an option has a value whose conversion is out of range: the
  constructor of the coordinator reads the options, and nothing catches what it throws.
\<close>

lemma coordinator_dies_iff:
  "(\<exists>ex. PHP_GINIT env l 0 parent p uid sd phpSapi now ptrs sst = Coordinator_Dies ex) \<longleftrightarrow>
     list_ex (escapes (rc_world env) (provider_update (optionValueProvider (ConfigurationManager_ctor p)) Map.empty)) options_table"
  using manager_update_eq(3) [of "rc_world env" "ConfigurationManager_ctor p" Map.empty]
  by (auto simp: PHP_GINIT_def forkCoordinatorProcess_def CoordinatorProcess_ctor_def coordinator_configure_def Let_def
      case_prod_beta is_ok_def split: sum.splits prod.splits if_splits)

text \<open>A coordinator forked where every option has the text \<open>1\<close>; nothing listens for its OpAMP client.\<close>

definition demo_libs :: coordinator_libs where
  "demo_libs = \<lparr>cl_env = demo_env demo_command, cl_semconv = \<lparr>kServiceName = ''service.name'', kServiceInstanceId = ''service.instance.id'',
       kDeploymentEnvironment = ''deployment.environment'', kDeploymentEnvironmentName = ''deployment.environment.name'',
       kOsType = ''os.type'', kOsName = ''os.name'', kOsDescription = ''os.description'', kOsVersion = ''os.version'',
       kHostName = ''host.name'', kHostArch = ''host.arch''\<rparr>,
     cl_opamp_codec = rc_codec ones_remote_env, cl_resource = []\<rparr>"

definition demo_role :: process_role where
  "demo_role = PHP_GINIT ones_remote_env demo_libs 0 1 OptionValueProvider [] SharedData_ctor ''cli'' 0
     \<lparr>zend_execute_internal = None, zend_interrupt_function = None, zend_compile_file_ptr = None\<rparr> sinks_start"

lemma demo_role_coordinator: "\<exists>ca e. demo_role = Coordinator_Role ca e"
proof -
  have "optionValueProvider (ConfigurationManager_ctor OptionValueProvider) = OptionValueProvider"
    by (simp add: ConfigurationManager_ctor_def getNextRevision_def Let_def)
  from ones_update(1) [OF this, of SharedData_ctor Map.empty]
  have "fst (CoordinatorProcess_ctor ones_remote_env 1 OptionValueProvider [] SharedData_ctor (GINIT_logger, sinks_start)) = Inr ()"
    by (simp add: CoordinatorProcess_ctor_def coordinator_configure_def ones_remote_env_def Let_def case_prod_beta)
  then obtain ca where "CoordinatorProcess_ctor ones_remote_env 1 OptionValueProvider [] SharedData_ctor (GINIT_logger, sinks_start) = (Inr (), ca)"
    by (metis prod.collapse)
  then show ?thesis
    by (cases "coordinatorLoop_start demo_libs ca") (simp add: demo_role_def PHP_GINIT_def forkCoordinatorProcess_def)
qed


text \<open>
  The end does not wait for the queue: a message that is in the queue when the parent exits may
  never be received, and neither may the registration of a worker that lives on.
\<close>

lemma messages_are_left_behind:
  assumes "PHP_GINIT env l pid parent p uid sd phpSapi now ptrs sst = Coordinator_Role ca e"
    and "try_send mq q item = Inr (sent, q')" "reaper \<noteq> parent"
  shows "\<exists>s. system_reachable l mq (system_start ca e q alive) s \<and> sy_left s \<and> sy_queue s = q' \<and> sy_alive s = alive"
proof -
  note ca = GINIT_coordinator [OF assms(1)]
  let ?start = "system_start ca e q alive"
  let ?sent = "?start\<lparr>sy_queue := q'\<rparr>" let ?s = "?sent\<lparr>sy_parent_alive := False\<rparr>"
  have "system_reachable l mq ?start ?sent"
    using system_reachable.step [OF system_reachable.start system_step.worker_sends [of mq ?start item sent q' l]] assms(2)
    by (simp add: system_start_def)
  then have r: "system_reachable l mq ?start ?s" by (rule system_reachable.step) (rule system_step.parent_exits)
  have u: "unneeded reaper ?s" using ca assms(3) by (simp add: unneeded_def system_start_def sy_workers_def)
  from unneeded_leaves [OF u r] show ?thesis by (simp add: system_start_def)
qed

end
