(* ===== verification/Spec2Isabelle.thy ===== *)
theory Spec2Isabelle
  imports Utf8 Loader RemoteConfig Disclosure BridgeExtension ProcessLife
begin

text \<open>
  Verification of the native part of the OpenTelemetry distribution for PHP (src/prod/native).

  The program. A PHP extension is loaded into every PHP worker process. It reads its
  configuration, runs the PHP part of the distribution at the start of each request, calls
  hooks around instrumented PHP functions, and turns the telemetry that the PHP part
  collects into OTLP requests. Requests are sent over HTTP, either by a thread of the worker or by
  a separate coordinator process, to which workers talk over a queue in shared memory; the
  coordinator also runs the OpAMP client, whose configuration files it passes on to the
  workers through shared memory.

  Theories and what they model (paths below src/prod/native):

  \<^item> \<open>Prelude\<close>: machine types, exceptions as values (type \<open>result\<close>, an exception on the left),
    the string functions of C++ that the sources call, shared lemmas.
  \<^item> \<open>TextUtils\<close>, \<open>UrlCodec\<close>, \<open>Utf8\<close>: the parsers of libcommon/code/CommonUtils.cpp and
    CiCharTraits.h, LogLevel.h, LogFeature.h. Durations are read with binary64 arithmetic
    written out over rationals. Shown: reference definitions (UTF-8, URLs, byte units,
    durations) and round trips.
  \<^item> \<open>Configuration\<close>: ConfigurationSnapshot.h, ConfigurationManager, config/* and
    ConfigurationStorage. The option table is data. Shown: what each option of a new
    snapshot is, that reads are well typed, that values read back (for the text of an option), the priority of providers, and that a
    worker's storage catches up with the manager.
  \<^item> \<open>ChunkedMessages\<close>: coordinator/CoordinatorSharedDataQueue.h and ChunkedMessageProcessor. The queue
    of Boost is a locale of which a bounded list is an instance. Shown: nothing but sent
    messages is delivered, all of them are when nothing is lost, abandoned ones are dropped.
  \<^item> \<open>Transport\<close>: transport/HttpEndpoint(s).h, CurlSender, HttpTransportAsync.h with its queue and
    thread (a step relation). Shown: order and bound of the queue, the retry rules, that
    destruction flushes, and what fork does.
  \<^item> \<open>Coordinator\<close>: coordinator/*: commands, dispatcher, worker registry, loop and periodic task of the process, shared
    configuration files. Shown: every command a worker sends is executed, a forwarded
    connection call has the effect of the call, the process ends exactly as intended.
  \<^item> \<open>OpAmp\<close>: transport/OpAmp and ResourceDetector. Shown: a configuration is applied once, the rate of
    heartbeats.
  \<^item> \<open>Threads\<close>: SharedMemoryState.h, SpinLock.h, InferredSpans.h, PeriodicTaskExecutor.h,
    ForkableRegistry.h, as steps of threads that interleave. Shown: a one-time task runs once,
    interrupts are spaced, no thread survives a fork.
  \<^item> \<open>Zval\<close>: libphpbridge/code/AutoZval.h and OtlpExporter/AttributesConverter.h; values of PHP as a
    datatype. Shown: attribute values keep their meaning.
  \<^item> \<open>ValueOwnership\<close>: the constructors, assignments and destructors of AutoZval.h and AutoZendString.h over a store
    with reference counts. Shown: values live exactly as long as they are referenced, up to the listed leaks.
  \<^item> \<open>OtlpExport\<close>: libphpbridge/code/OtlpExporter/*: spans, logs and metrics. Shown: requests group
    the items of a batch exactly by resource and scope.
  \<^item> \<open>HookStorage\<close>: the hash of libphpbridge/code/Helpers.cpp, the storages of hooks (one
    locale, four interpretations) and \<open>instrumentFunction\<close>. Shown: hooks are found whatever
    the letter case, original handlers are never lost.
  \<^item> \<open>Instrumentation\<close>: extension/code/InternalFunctionInstrumentation.cpp for native functions, with
    the frame and exception functions of libphpbridge. Shown: the native function runs
    once between its hooks and keeps its exception, and replaced arguments arrive.
  \<^item> \<open>WithSpan\<close>: the observer part of the same file and WithSpanAttributes.cpp. Shown: observed
    functions run exactly the hooks registered for them, and which attributes a span gets.
  \<^item> \<open>AutoloaderGuard\<close>: libcommon/code/DependencyAutoLoaderGuard and the table scan of
    PhpBridge.cpp. Shown: the incremental scan never makes a difference.
  \<^item> \<open>PhpBridge\<close>: libphpbridge/code/PhpBridge.cpp, Exceptions.cpp and OpCache.cpp: loading the PHP part, calling its
    facade, exceptions as text, the opcache checks. Shown: no such call changes the exception state of the request.
  \<^item> \<open>EngineHooks\<close>: extension/code/Hooking.h and Hooking.cpp: the function pointers of the engine that
    are exchanged, and the error observer. Shown: the replaced functions stay reachable and
    are put back.
  \<^item> \<open>RequestLifecycle\<close>: PhpSapi.h, AgentGlobals.cpp, RequestScope.h, extension/code/ModuleInit.cpp and the
    request handlers of ModuleEntry.cpp: a worker as one record of the components above, and its
    module and request handlers. Shown: when a request is instrumented, and that nothing of
    it is left when it ends.
  \<^item> \<open>Logging\<close>: Logger.h and Logger.cpp, and the adaptation of the logger to a configuration. Shown: a
    message reaches exactly the enabled sinks, and at most one log file is open.
  \<^item> \<open>ModuleFunctions\<close>: extension/code/ModuleFunctions.cpp: the functions PHP code can call. Shown: what
    it asks of the exporter is done by the coordinator's transport.
  \<^item> \<open>RemoteConfig\<close>: how the constructor of CoordinatorProcess.cpp connects OpAMP client, shared
    memory, configuration and logger. Shown: what a new configuration does in the coordinator.
  \<^item> \<open>Disclosure\<close>: the start-up preamble of ModuleInit.cpp with sanitizeKeyValueString, ModuleInfo.cpp,
    ModuleIniEntries.cpp. Shown: secrets do not influence what is logged and printed, and where they still do.
  \<^item> \<open>ProcessLife\<close>: the globals handler of ModuleEntry.cpp and coordinatorLoop, with the threads of the coordinator, the
    workers and the parent interleaved. Shown: the coordinator serves exactly as long as it is needed.
  \<^item> \<open>Diagnostics\<close>: Diagnostics.cpp. Shown: what the diagnostics file holds.
  \<^item> \<open>ProcessServices\<close>: SigSegvHandler.cpp, StackTraceCapture.cpp, ForkHandler.cpp, the signal functions of CommonUtils.cpp,
    Debugging.cpp, php_error.cpp. Shown: what becomes of a crash.
  \<^item> \<open>BridgeExtension\<close>: phpbridge_extension/code/*, the extension that shows the bridge and \<open>AutoZval\<close> to the test scripts of
    the repository. Shown: the scripts read what the product computes.
  \<^item> \<open>Loader\<close>: loader/code/*: which library is loaded for which engine. Shown: exactly the one of
    a supported version.

  How the parts interact is stated where they meet: here, from a message of the OpAMP server to the
  next request of a worker; in \<open>ModuleFunctions\<close> and \<open>Coordinator\<close>, from PHP code to the HTTP queue of the
  coordinator; in \<open>RequestLifecycle\<close>, between the components of a worker.

  Conventions. A class is a record and a method a function on it; what a method throws is the
  left injection of its result. Machine integers are words where they may wrap around.
  Threads are inductive step relations over the shared record, one step per locked
  section. Loops are recursion on the data they walk; those that may not end (the sender
  thread, the coordinator and heartbeat loops) are step relations or single turns, so no
  fuel is needed. Interfaces between components are locales: option providers, configuration
  sources, the message queue, forkable objects, and keyed storages; each is interpreted on the
  model's own definitions.

  Parameters, for code outside the repository: the PHP engine (running hooks and native functions,
  attributes, \<open>serialize\<close>, the symbol tables), libcurl, the Boost queue, regular
  expressions and UUIDs, the protobuf codec, libc's date scanner, the dynamic linker, the signals of
  the operating system, libunwind, the files below /proc, \<open>kill\<close>, \<open>open\<close> and the clock.

  Not modelled: the formatting of printf and of streams, the wire format of protobuf, the cycle collector of PHP, and the
  declarations of both extensions for the engine (argument tables, module entries). The emission of
  log messages by the other components has no effect on them and is left out there.
\<close>

section \<open>Remote configuration, from the coordinator to a request\<close>

lemma worker_learns:
  assumes "nul_free (shared_configFiles sd)" "nul_free files" "distinct (map fst files)"
  shows "getConfigurationNoLock (storeConfigFiles files sd) = map_of (shared_configFiles sd) ++ map_of files"
    "configRevision (storeConfigFiles files sd) \<noteq> configRevision sd"
proof -
  show "configRevision (storeConfigFiles files sd) \<noteq> configRevision sd" by (simp add: storeConfigFiles_def)
  with Coordinator.workers_learn_stored_files [OF assms]
  show "getConfigurationNoLock (storeConfigFiles files sd) = map_of (shared_configFiles sd) ++ map_of files"
    by (simp add: triggerUpdateIfChanged_def Let_def)
qed

lemma stored_files_govern_next_request:
  assumes "w = serve_requests rqs (snd (moduleInit env0 (AgentGlobals_ctor p phpSapi now ptrs)))" "length rqs < 2 ^ 62"
    "isSupported (sapi w)" "configWatched w" "localConfigRevision w = configRevision sd"
    "re_shared env = storeConfigFiles files sd"
    "nul_free (shared_configFiles sd)" "nul_free files" "distinct (map fst files)"
  shows "let delivered = map_of (shared_configFiles sd) ++ map_of files;
             provider' = provider_update (optionValueProvider (configManager w)) delivered;
             (r, calls, w') = RINIT env w; c = config (configStorage w')
         in if list_ex (escapes (re_world env) provider') options_table
            then (\<exists>e. r = Inl e) \<and> calls = [] \<and> configStorage w' = configStorage w
            else r = Inr () \<and> remoteConfigFiles c = delivered
              \<and> members c = map_of snapshot_defaults
                  ++ (\<lambda>n. Option.bind (map_of options_table n) (\<lambda>md. configured (re_world env) provider' (n, md)))"
proof -
  obtain r calls w' where init: "RINIT env w = (r, calls, w')" by (metis prod.collapse)
  have ok: "config_ok (2 ^ 64 - 4) w" unfolding assms(1) by (rule worker_config_ok) (rule assms(2))
  have news: "configRevision (re_shared env) \<noteq> localConfigRevision w"
    "getConfigurationNoLock (re_shared env) = map_of (shared_configFiles sd) ++ map_of files"
    using worker_learns [OF assms(7-9)] by (simp_all add: assms(5,6))
  show ?thesis
    using RINIT_with_news [OF ok _ assms(3,4) news(1) init]
      manager_update_eq(3) [where m = "configManager w" and w = "re_world env" and cf = "map_of (shared_configFiles sd) ++ map_of files"]
    by (auto simp: news(2) init Let_def)
qed



end
